theory Spec2Isabelle
  imports Complex_Main "HOL-Library.Sublist"
begin

chapter \<open>The model\<close>

section \<open>Strings\<close>

text \<open>
  A JavaScript string is a sequence of UTF-16 code units. \<open>isWhitespaceUnit\<close> is the class that
  \<open>String.prototype.trim\<close> strips and that the regular expression \<open>\s\<close> matches (WhiteSpace and
  LineTerminator of ECMAScript): U+0009 to U+000D, U+0020, U+00A0, U+1680, U+2000 to U+200A,
  U+2028, U+2029, U+202F, U+205F, U+3000 and U+FEFF.
\<close>

definition isWhitespaceUnit :: "nat \<Rightarrow> bool" where
  "isWhitespaceUnit u \<longleftrightarrow>
     u \<in> {0x09, 0x0A, 0x0B, 0x0C, 0x0D, 0x20, 0xA0, 0x1680, 0x2028, 0x2029, 0x202F, 0x205F,
          0x3000, 0xFEFF}
     \<or> (0x2000 \<le> u \<and> u \<le> 0x200A)"

text \<open>
  Free text (what the speech recogniser returns) is a list of code units. \<open>trimUnits\<close> is
  \<open>s.trim()\<close> and \<open>collapseWhitespace\<close> is \<open>s.replace(/\s+/g, " ")\<close> on it: every maximal run
  of whitespace becomes one space.
\<close>

definition trimUnits :: "nat list \<Rightarrow> nat list" where
  "trimUnits s = rev (dropWhile isWhitespaceUnit (rev (dropWhile isWhitespaceUnit s)))"

function collapseWhitespace :: "nat list \<Rightarrow> nat list" where
  "collapseWhitespace [] = []"
| "collapseWhitespace (c # cs) =
     (if isWhitespaceUnit c then 0x20 # collapseWhitespace (dropWhile isWhitespaceUnit cs)
      else c # collapseWhitespace cs)"
  by pat_completeness auto
termination
  by (relation "measure length") (auto simp: less_Suc_eq_le length_dropWhile_le)

text \<open>
  Identifiers, keys, names and messages of the control plane are modelled as \<open>string\<close>. A
  character stands for its code unit \<open>of_char c\<close>, and \<open>units\<close> gives the code units of a string.
  A character is whitespace when its code unit is, and \<open>trim\<close> is \<open>s.trim()\<close> on these strings.
\<close>

definition units :: "string \<Rightarrow> nat list" where
  "units s = map of_char s"

definition isWhitespace :: "char \<Rightarrow> bool" where
  "isWhitespace c \<longleftrightarrow> isWhitespaceUnit (of_char c)"

definition trim :: "string \<Rightarrow> string" where
  "trim s = rev (dropWhile isWhitespace (rev (dropWhile isWhitespace s)))"

section \<open>Request values\<close>

text \<open>
  Values of type \<open>unknown\<close> read from a parsed JSON body, a query string or a socket payload.
  A finite JavaScript number is a rational; \<open>JNaN\<close> and \<open>JInfinite\<close> (either sign)
  are the numbers that \<open>Number.isFinite\<close> rejects.
\<close>

datatype jvalue =
    JUndefined
  | JNull
  | JBool bool
  | JNum rat
  | JNaN
  | JInfinite
  | JStr string
  | JArr "jvalue list"
  | JObj "(string \<times> jvalue) list"

text \<open>\<open>v?.name\<close>, for the property names the handlers read.\<close>

fun jfield :: "jvalue \<Rightarrow> string \<Rightarrow> jvalue" where
  "jfield (JObj fs) name = (case map_of fs name of Some v \<Rightarrow> v | None \<Rightarrow> JUndefined)"
| "jfield _ name = JUndefined"

text \<open>\<open>Boolean(v)\<close>\<close>

definition truthy :: "jvalue \<Rightarrow> bool" where
  "truthy v =
     (case v of
        JUndefined \<Rightarrow> False
      | JNull \<Rightarrow> False
      | JBool b \<Rightarrow> b
      | JNum q \<Rightarrow> q \<noteq> 0
      | JNaN \<Rightarrow> False
      | JInfinite \<Rightarrow> True
      | JStr s \<Rightarrow> s \<noteq> []
      | JArr entries \<Rightarrow> True
      | JObj members \<Rightarrow> True)"

text \<open>\<open>a ?? b\<close>\<close>

definition nullish :: "jvalue \<Rightarrow> jvalue \<Rightarrow> jvalue" where
  "nullish a b = (if a = JUndefined \<or> a = JNull then b else a)"

text \<open>\<open>toStringOrEmpty\<close> of \<open>server/http/createApp.ts\<close>.\<close>

definition toStringOrEmpty :: "jvalue \<Rightarrow> string" where
  "toStringOrEmpty v = (case v of JStr s \<Rightarrow> trim s | _ \<Rightarrow> [])"

text \<open>
  The parts of an Express request the admin routes read: the two headers, the \<open>clientId\<close>
  query parameter, the route parameters and the parsed body.
\<close>

record Request =
  secretHeader :: "string option"
  clientHeader :: "string option"
  queryClientId :: jvalue
  paramRoomId :: string
  paramUserKey :: string
  paramUserId :: string
  paramProducerId :: string
  body :: jvalue

text \<open>\<open>hasValidSecret\<close>: \<open>Boolean(provided && provided === secret)\<close>.\<close>

definition hasValidSecret :: "Request \<Rightarrow> string \<Rightarrow> bool" where
  "hasValidSecret req secret =
     (case secretHeader req of None \<Rightarrow> False | Some provided \<Rightarrow> provided \<noteq> [] \<and> provided = secret)"

text \<open>\<open>resolveClientId\<close> of \<open>createApp.ts\<close>: the query parameter wins over the header.\<close>

definition resolveClientId :: "Request \<Rightarrow> string option" where
  "resolveClientId req =
     (let headerValue = toStringOrEmpty (case clientHeader req of None \<Rightarrow> JUndefined | Some h \<Rightarrow> JStr h);
          queryValue = toStringOrEmpty (queryClientId req);
          next = (if queryValue \<noteq> [] then queryValue else headerValue)
      in if next \<noteq> [] then Some next else None)"

section \<open>Rooms, participants and the message bus\<close>

datatype MediaKind = audio | video

datatype ProducerType = webcam | screen

text \<open>An element of \<open>Client.getProducerInfos()\<close>.\<close>

record ProducerInfo =
  producerId :: string
  kind :: MediaKind
  producerType :: ProducerType
  paused :: bool

text \<open>
  A participant. \<open>c_isAdmin\<close> is \<open>client instanceof Admin\<close>; a socket is known by its id;
  \<open>c_producers\<close> lists the entries of the \<open>producers\<close> map in insertion order.
\<close>

record Client =
  c_id :: string
  c_socket :: string
  c_isAdmin :: bool
  c_isGhost :: bool
  c_isWebinarAttendee :: bool
  c_producers :: "ProducerInfo list"

text \<open>A waiting-room entry (a value of \<open>room.pendingClients\<close>).\<close>

record PendingClient =
  p_userKey :: string
  p_userId :: string
  p_socket :: string
  p_displayName :: string

text \<open>
  The room. The three JavaScript \<open>Map\<close>s are association lists in insertion order
  (\<open>clients\<close>: userId to participant, \<open>userKeysById\<close>: userId to userKey,
  \<open>pendingClients\<close>: userKey to waiting-room entry); the access lists are sets of user keys.
\<close>

record Room =
  r_id :: string
  r_channelId :: string
  r_clientId :: string
  clients :: "(string \<times> Client) list"
  userKeysById :: "(string \<times> string) list"
  pendingClients :: "(string \<times> PendingClient) list"
  allowedUsers :: "string set"
  lockedAllowedUsers :: "string set"
  blockedUsers :: "string set"
  isLocked :: bool
  isChatLocked :: bool
  noGuests :: bool
  isTtsDisabled :: bool
  isDmEnabled :: bool
  screenShareProducerId :: "string option"

text \<open>The process state: the draining flag and the registry, a \<open>Map\<close> from channel id to room.\<close>

record SfuState =
  isDraining :: bool
  rooms :: "(string \<times> Room) list"

record Config =
  sfuSecret :: string

text \<open>
  Modelled from the spec: \<open>getRoomChannelId\<close> of \<open>server/rooms.ts\<close>, which is not among the
  sources. The glossary gives the channel id as the tenant-qualified room key
  \<open>"{clientId}:{roomId}"\<close>.
\<close>

definition getRoomChannelId :: "string \<Rightarrow> string \<Rightarrow> string" where
  "getRoomChannelId clientId roomId = clientId @ '':'' @ roomId"

section \<open>Room lookup: \<open>resolveRoom\<close> and \<open>resolveRoomForAdmin\<close>\<close>

text \<open>\<open>RoomLookupResult\<close> of \<open>server/admin/controlPlane.ts\<close>.\<close>

datatype RoomLookupResult =
    Found Room string
  | LookupError string "string list option"

text \<open>
  \<open>resolveRoom(state, roomId, options)\<close>. The second argument of the model is
  \<open>options?.clientId\<close>.
\<close>

definition resolveRoom :: "SfuState \<Rightarrow> string \<Rightarrow> string option \<Rightarrow> RoomLookupResult" where
  "resolveRoom state roomId optClientId =
     (let normalizedRoomId = trim roomId in
      if normalizedRoomId = [] then LookupError ''Room ID is required'' None
      else
        let clientId = (case optClientId of None \<Rightarrow> [] | Some c \<Rightarrow> trim c) in
        if clientId \<noteq> [] then
          (let channelId = getRoomChannelId clientId normalizedRoomId in
           case map_of (rooms state) channelId of
             None \<Rightarrow> LookupError ''Room not found'' None
           | Some room \<Rightarrow> Found room channelId)
        else
          (let candidates = filter (\<lambda>room. r_id room = normalizedRoomId) (map snd (rooms state)) in
           if length candidates = 0 then LookupError ''Room not found'' None
           else if length candidates > 1 then
             LookupError ''Room ID is ambiguous. Provide a clientId.''
               (Some (map r_channelId candidates))
           else Found (hd candidates) (r_channelId (hd candidates))))"

text \<open>
  What an HTTP handler sends: \<open>res.status(n).json({error})\<close>, the same with the list of
  candidates, or \<open>res.json(body)\<close> with status 200.
\<close>

datatype response =
    JsonError nat string
  | JsonErrorCandidates nat string "string list"
  | JsonOk "(string \<times> jvalue) list"

text \<open>
  \<open>resolveRoomForAdmin(req, res)\<close> of \<open>createApp.ts\<close>: the left summand is the response
  already sent when the function returns \<open>null\<close>. An array is truthy in JavaScript, so
  \<open>lookup.candidates ? 409 : 404\<close> tests whether the field is present.
\<close>

definition resolveRoomForAdmin :: "SfuState \<Rightarrow> Request \<Rightarrow> response + (Room \<times> string)" where
  "resolveRoomForAdmin state req =
     (let roomId = toStringOrEmpty (JStr (paramRoomId req)) in
      if roomId = [] then Inl (JsonError 400 ''Room ID is required'')
      else
        (case resolveRoom state roomId (resolveClientId req) of
           LookupError err None \<Rightarrow> Inl (JsonError 404 err)
         | LookupError err (Some cands) \<Rightarrow> Inl (JsonErrorCandidates 409 err cands)
         | Found room channelId \<Rightarrow> Inr (room, channelId)))"

section \<open>Transcription pipeline: \<open>RoomTranscriber.appendTranscript\<close>\<close>

text \<open>
  \<open>TranscriptChunk\<close> of \<open>server/recording/roomTranscriber.ts\<close>. The timestamps are
  produced by \<open>Date.now()\<close> and \<open>Math.round\<close>, so they are integers; the text is a list of
  code units; \<open>speaker\<close> is an optional field.
\<close>

record TranscriptChunk =
  startMs :: int
  endMs :: int
  chunkText :: "nat list"
  speaker :: "string option"

text \<open>\<open>(x.speaker || "")\<close>: a missing speaker and the empty speaker are the empty string.\<close>

definition speakerOrEmpty :: "string option \<Rightarrow> string" where
  "speakerOrEmpty s = (case s of None \<Rightarrow> [] | Some v \<Rightarrow> v)"

text \<open>
  \<open>appendTranscript(chunk)\<close>, with the private field \<open>this.transcript\<close> passed in and
  returned. \<open>this.transcript[this.transcript.length - 1]\<close> is \<open>undefined\<close> on the empty
  transcript, which is the \<open>None\<close> branch.
\<close>

definition appendTranscript :: "TranscriptChunk list \<Rightarrow> TranscriptChunk \<Rightarrow> TranscriptChunk list" where
  "appendTranscript transcript chunk =
     (let text' = trimUnits (collapseWhitespace (chunkText chunk)) in
      if text' = [] then transcript
      else
        (case (if transcript = [] then None else Some (last transcript)) of
           None \<Rightarrow> transcript @ [chunk\<lparr>chunkText := text'\<rparr>]
         | Some l \<Rightarrow>
             if chunkText l = text'
                \<and> \<bar>endMs l - endMs chunk\<bar> < 1500
                \<and> speakerOrEmpty (speaker l) = speakerOrEmpty (speaker chunk)
             then transcript
             else transcript @ [chunk\<lparr>chunkText := text'\<rparr>]))"

text \<open>A chunk already in the transcript, for the examples.\<close>

definition transcribed :: TranscriptChunk where
  "transcribed =
     \<lparr>startMs = 1000, endMs = 2000, chunkText = units ''hello world'', speaker = Some ''p1''\<rparr>"

section \<open>Room primitives\<close>

text \<open>
  Modelled from the spec: the access-list and waiting-room primitives of the \<open>Room\<close> class
  (\<open>config/classes/Room.ts\<close> is not among the sources). Section 4.3 describes
  \<open>allowUser\<close>, \<open>revokeAllowedUser\<close>, \<open>allowLockedUser\<close>, \<open>revokeLockedAllowedUser\<close>,
  \<open>blockUser\<close> and \<open>unblockUser\<close> as set operations on the respective lists, where
  \<open>blockUser\<close> does not remove from the allow list and \<open>unblockUser\<close> does not restore
  it, and lists \<open>removePending(userKey)\<close> as the operation that removes a waiting-room entry.
  Section 3 ends a waiting-room entry at admit, reject, block or disconnect. The handlers
  agree with that: those that admit read the entry before they call \<open>allowUser\<close>, and
  \<open>admitAllPendingUsers\<close> iterates over a copy of the entries; the access-block handlers read
  the entry before they call \<open>blockUser\<close> and report it as rejected; none of them calls
  \<open>removePendingClient\<close>, which only the handlers that reject do; and, but for \<open>admitUser\<close> and
  the block by participant id, they broadcast the waiting room afterwards. So \<open>allowUser\<close> and
  \<open>blockUser\<close> also end the waiting-room entry of the key.
\<close>

definition allowUser :: "string \<Rightarrow> Room \<Rightarrow> Room" where
  "allowUser userKey room =
     room\<lparr>allowedUsers := insert userKey (allowedUsers room),
          pendingClients := filter (\<lambda>entry. fst entry \<noteq> userKey) (pendingClients room)\<rparr>"

definition revokeAllowedUser :: "string \<Rightarrow> Room \<Rightarrow> Room" where
  "revokeAllowedUser userKey room = room\<lparr>allowedUsers := allowedUsers room - {userKey}\<rparr>"

definition allowLockedUser :: "string \<Rightarrow> Room \<Rightarrow> Room" where
  "allowLockedUser userKey room =
     room\<lparr>lockedAllowedUsers := insert userKey (lockedAllowedUsers room)\<rparr>"

definition revokeLockedAllowedUser :: "string \<Rightarrow> Room \<Rightarrow> Room" where
  "revokeLockedAllowedUser userKey room =
     room\<lparr>lockedAllowedUsers := lockedAllowedUsers room - {userKey}\<rparr>"

definition blockUser :: "string \<Rightarrow> Room \<Rightarrow> Room" where
  "blockUser userKey room =
     room\<lparr>blockedUsers := insert userKey (blockedUsers room),
          pendingClients := filter (\<lambda>entry. fst entry \<noteq> userKey) (pendingClients room)\<rparr>"

definition unblockUser :: "string \<Rightarrow> Room \<Rightarrow> Room" where
  "unblockUser userKey room = room\<lparr>blockedUsers := blockedUsers room - {userKey}\<rparr>"

definition removePendingClient :: "string \<Rightarrow> Room \<Rightarrow> Room" where
  "removePendingClient userKey room =
     room\<lparr>pendingClients := filter (\<lambda>entry. fst entry \<noteq> userKey) (pendingClients room)\<rparr>"

text \<open>
  Modelled from the spec: the policy setters of the \<open>Room\<close> class. Section 4.3 has
  \<open>setPolicy\<close> apply the fields present; each setter writes its flag.
\<close>

definition setLocked :: "bool \<Rightarrow> Room \<Rightarrow> Room" where
  "setLocked b room = room\<lparr>isLocked := b\<rparr>"

definition setChatLocked :: "bool \<Rightarrow> Room \<Rightarrow> Room" where
  "setChatLocked b room = room\<lparr>isChatLocked := b\<rparr>"

definition setNoGuests :: "bool \<Rightarrow> Room \<Rightarrow> Room" where
  "setNoGuests b room = room\<lparr>noGuests := b\<rparr>"

definition setTtsDisabled :: "bool \<Rightarrow> Room \<Rightarrow> Room" where
  "setTtsDisabled b room = room\<lparr>isTtsDisabled := b\<rparr>"

definition setDmEnabled :: "bool \<Rightarrow> Room \<Rightarrow> Room" where
  "setDmEnabled b room = room\<lparr>isDmEnabled := b\<rparr>"

text \<open>
  Modelled from the spec: \<open>Room.getClient\<close> and \<open>Room.getAdmins\<close>, the lookup in the
  \<open>clients\<close> map and the participants that are instances of \<open>Admin\<close>.
\<close>

definition getClient :: "Room \<Rightarrow> string \<Rightarrow> Client option" where
  "getClient room userId = map_of (clients room) userId"

definition getAdmins :: "Room \<Rightarrow> Client list" where
  "getAdmins room = filter c_isAdmin (map snd (clients room))"

text \<open>
  Modelled from the spec: \<open>Room.clearScreenShareProducer\<close>. Section 4.5: closing a
  screen-share producer clears \<open>screenShareProducerId\<close> only if the ids match.
\<close>

definition clearScreenShareProducer :: "string \<Rightarrow> Room \<Rightarrow> Room" where
  "clearScreenShareProducer pid room =
     (if screenShareProducerId room = Some pid then room\<lparr>screenShareProducerId := None\<rparr>
      else room)"

text \<open>
  Modelled from the spec: \<open>Client.getProducerInfos\<close> and \<open>Client.removeProducerById\<close>
  (\<open>config/classes/Client.ts\<close> is not among the sources). Section 4.3, \<open>closeProducer\<close>:
  the producer entry with the given id is removed from its owner; the call answers with the
  removed entry, or with nothing when the participant has no producer of that id.
\<close>

definition getProducerInfos :: "Client \<Rightarrow> ProducerInfo list" where
  "getProducerInfos client = c_producers client"

definition removeProducerById :: "string \<Rightarrow> Client \<Rightarrow> ProducerInfo option \<times> Client" where
  "removeProducerById pid client =
     (case find (\<lambda>p. producerId p = pid) (c_producers client) of
        None \<Rightarrow> (None, client)
      | Some p \<Rightarrow> (Some p, client\<lparr>c_producers := remove1 p (c_producers client)\<rparr>))"

section \<open>Events\<close>

text \<open>
  The socket.io calls a handler makes, in program order. \<open>ToSocket s\<close> is \<open>socket.emit\<close> on
  the socket with id \<open>s\<close>; \<open>ToChannel c\<close> is \<open>io.to(c).emit\<close>.
\<close>

datatype target = ToSocket string | ToChannel string

text \<open>An element of \<open>toPendingUserSnapshots(room)\<close>.\<close>

record PendingUserSnapshot =
  s_userId :: string
  s_participantUserId :: string
  s_userKey :: string
  s_displayName :: string
  s_socketId :: string

datatype event =
    JoinApproved
  | JoinRejected
  | UserAdmitted string string
  | UserRejected string string
  | PendingUsersSnapshot "(string \<times> string) list" string
  | PendingUsersSnapshotDetailed "PendingUserSnapshot list" string
  | Kicked string string
  | ProducerClosed string string
  | AdminProducerClosed string string string
  | AdminMediaEnforced string string string MediaKind ProducerType
  | AdminMediaEnforcedMany string string string "(string \<times> MediaKind \<times> ProducerType) list"
  | AdminBulkMediaEnforced string string "string list" nat nat
  | RoomLockChanged bool string
  | ChatLockChanged bool string
  | NoGuestsChanged bool string
  | TtsDisabledChanged bool string
  | DmStateChanged bool string
  | ServerRestarting "string option" string

text \<open>
  \<open>DisconnectSocket s\<close> is \<open>socket.disconnect(true)\<close>, \<open>DisconnectSockets c\<close> is
  \<open>io.in(c).disconnectSockets(true)\<close>, \<open>Sleep ms\<close> is the awaited \<open>setTimeout\<close>, and
  \<open>WebinarFeedChanged c\<close> is the call of \<open>emitWebinarFeedChanged\<close> for the room with
  channel id \<open>c\<close> (\<open>server/webinarNotifications.ts\<close> is not among the sources).
\<close>

datatype action =
    Emit target event
  | DisconnectSocket string
  | DisconnectSockets string
  | Sleep int
  | WebinarFeedChanged string

text \<open>\<open>emitPendingUsersSnapshot\<close> of \<open>createApp.ts\<close>.\<close>

definition emitPendingUsersSnapshot :: "Room \<Rightarrow> action" where
  "emitPendingUsersSnapshot room =
     Emit (ToChannel (r_channelId room))
       (PendingUsersSnapshot
          (map (\<lambda>pending. (p_userKey pending,
                  if p_displayName pending \<noteq> [] then p_displayName pending else p_userKey pending))
             (map snd (pendingClients room)))
          (r_id room))"

text \<open>\<open>toPendingUserSnapshots\<close> of \<open>controlPlane.ts\<close>.\<close>

definition toPendingUserSnapshots :: "Room \<Rightarrow> PendingUserSnapshot list" where
  "toPendingUserSnapshots room =
     map (\<lambda>pending.
           \<lparr>s_userId = p_userKey pending, s_participantUserId = p_userId pending,
            s_userKey = p_userKey pending,
            s_displayName =
              (if p_displayName pending \<noteq> [] then p_displayName pending else p_userKey pending),
            s_socketId = p_socket pending\<rparr>)
       (map snd (pendingClients room))"

section \<open>Parsing user key lists\<close>

text \<open>
  \<open>parseUserKeys\<close> (the same function in \<open>createApp.ts\<close> and \<open>adminHandlers.ts\<close>).
  \<open>trimmedKeys\<close> is its loop: a non-string entry makes the result \<open>null\<close>, an entry that is
  empty after trimming is skipped. \<open>uniqueInOrder\<close> is \<open>Array.from(new Set(keys))\<close>.
\<close>

fun trimmedKeys :: "jvalue list \<Rightarrow> string list option" where
  "trimmedKeys [] = Some []"
| "trimmedKeys (JStr s # rest) =
     (case trimmedKeys rest of
        None \<Rightarrow> None
      | Some keys \<Rightarrow> Some (if trim s = [] then keys else trim s # keys))"
| "trimmedKeys (_ # rest) = None"

definition uniqueInOrder :: "string list \<Rightarrow> string list" where
  "uniqueInOrder keys = foldl (\<lambda>seen k. if k \<in> set seen then seen else seen @ [k]) [] keys"

definition parseUserKeys :: "jvalue \<Rightarrow> string list option" where
  "parseUserKeys v =
     (case v of
        JStr s \<Rightarrow> Some (if trim s = [] then [] else [trim s])
      | JArr entries \<Rightarrow> map_option uniqueInOrder (trimmedKeys entries)
      | _ \<Rightarrow> None)"

section \<open>Operator HTTP routes: waiting room and access lists\<close>

text \<open>
  A route handler of \<open>createApp.ts\<close> is a function of the configuration, of whether
  \<open>getIo\<close> yields a socket server, of the process state and of the request. It returns the
  response sent, the room object as the handler leaves it (\<open>None\<close> when the handler returns
  before touching a room) and the socket.io calls made. The \<open>access\<close> member of the success
  bodies, a serialisation of the three access lists by \<open>toRoomSnapshot\<close>, is left out of the
  modelled bodies; the lists themselves are fields of the returned room.
\<close>

type_synonym routeResult = "response \<times> Room option \<times> action list"




text \<open>
  The body of the loop \<open>for (const userKey of userKeys)\<close> of the access-allow operation. It is
  the same text in the route \<open>POST /admin/rooms/:roomId/access/allow\<close> and in the socket
  handler \<open>admin:allowUsers\<close>. The accumulator is the room, the calls made so far and the
  \<open>admitted\<close> array.
\<close>

definition allowStep ::
  "bool \<Rightarrow> string \<Rightarrow> Room \<times> action list \<times> string list \<Rightarrow> Room \<times> action list \<times> string list" where
  "allowStep allowWhenLocked userKey acc =
     (case acc of (room, acts, admitted) \<Rightarrow>
        let pending = map_of (pendingClients room) userKey;
            room1 = unblockUser userKey room;
            room2 = allowUser userKey room1;
            room3 = (if allowWhenLocked \<or> isLocked room2 then allowLockedUser userKey room2
                     else room2)
        in (case pending of
              None \<Rightarrow> (room3, acts, admitted)
            | Some p \<Rightarrow>
                (room3,
                 acts @ Emit (ToSocket (p_socket p)) JoinApproved
                   # map (\<lambda>admin. Emit (ToSocket (c_socket admin)) (UserAdmitted userKey (r_id room3)))
                       (getAdmins room3),
                 admitted @ [userKey])))"

text \<open>\<open>POST /admin/rooms/:roomId/access/allow\<close>\<close>

definition accessAllowRoute :: "Config \<Rightarrow> bool \<Rightarrow> SfuState \<Rightarrow> Request \<Rightarrow> routeResult" where
  "accessAllowRoute config ioAvailable state req =
     (if \<not> hasValidSecret req (sfuSecret config) then (JsonError 401 ''Unauthorized'', None, [])
      else if \<not> ioAvailable then (JsonError 503 ''Socket server unavailable'', None, [])
      else
        (case resolveRoomForAdmin state req of
           Inl resp \<Rightarrow> (resp, None, [])
         | Inr (room, channelId) \<Rightarrow>
             (case parseUserKeys (nullish (jfield (body req) ''userKeys'')
                                          (jfield (body req) ''userKey'')) of
                None \<Rightarrow> (JsonError 400 ''Invalid user key list'', None, [])
              | Some userKeys \<Rightarrow>
                  if length userKeys = 0
                  then (JsonError 400 ''At least one user key is required'', None, [])
                  else
                    let allowWhenLocked = (jfield (body req) ''allowWhenLocked'' \<noteq> JBool False) in
                    (case fold (allowStep allowWhenLocked) userKeys (room, [], []) of
                       (room', acts, admitted) \<Rightarrow>
                         (JsonOk [(''success'', JBool True), (''roomId'', JStr (r_id room')),
                                  (''allowed'', JArr (map JStr userKeys)),
                                  (''admitted'', JArr (map JStr admitted))],
                          Some room',
                          acts @ [emitPendingUsersSnapshot room'])))))"

text \<open>\<open>POST /admin/rooms/:roomId/access/revoke\<close>, and the loop body it shares with
  \<open>admin:revokeAllowedUsers\<close>.\<close>

definition revokeStep :: "bool \<Rightarrow> string \<Rightarrow> Room \<Rightarrow> Room" where
  "revokeStep revokeLocked userKey room =
     (let room1 = revokeAllowedUser userKey room
      in if revokeLocked then revokeLockedAllowedUser userKey room1 else room1)"











section \<open>Administrator socket events: access lists\<close>

text \<open>
  The part of \<open>ConnectionContext\<close> the admin handlers read, and \<open>ensureAdminRoom\<close> of
  \<open>adminHandlers.ts\<close>.
\<close>

record ConnectionContext =
  currentRoom :: "Room option"
  currentClient :: "Client option"

definition ensureAdminRoom :: "ConnectionContext \<Rightarrow> string + (Room \<times> string)" where
  "ensureAdminRoom context =
     (case (currentRoom context, currentClient context) of
        (Some room, Some client) \<Rightarrow>
          if \<not> c_isAdmin client then Inl ''Admin privileges required''
          else Inr (room, c_id client)
      | _ \<Rightarrow> Inl ''Room not found'')"

text \<open>
  What a socket handler passes to its acknowledgement callback: \<open>{error}\<close> or
  \<open>{success: true, ...}\<close>. As for the routes, the \<open>access\<close> member is left out.
\<close>

datatype ack = AckError string | AckSuccess "(string \<times> jvalue) list"

type_synonym handlerResult = "ack \<times> Room option \<times> action list"

text \<open>\<open>socket.on("admin:allowUsers", ...)\<close>\<close>

definition allowUsersHandler :: "ConnectionContext \<Rightarrow> jvalue \<Rightarrow> handlerResult" where
  "allowUsersHandler context data =
     (case ensureAdminRoom context of
        Inl err \<Rightarrow> (AckError err, None, [])
      | Inr (room, adminId) \<Rightarrow>
          (case parseUserKeys (jfield data ''userKeys'') of
             None \<Rightarrow> (AckError ''Invalid user key list'', None, [])
           | Some userKeys \<Rightarrow>
               if length userKeys = 0
               then (AckError ''At least one user key is required'', None, [])
               else
                 let allowWhenLocked = (jfield data ''allowWhenLocked'' \<noteq> JBool False) in
                 (case fold (allowStep allowWhenLocked) userKeys (room, [], []) of
                    (room', acts, admitted) \<Rightarrow>
                      (AckSuccess [(''success'', JBool True),
                                   (''allowed'', JArr (map JStr userKeys)),
                                   (''admitted'', JArr (map JStr admitted))],
                       Some room',
                       acts @ [Emit (ToChannel (r_channelId room'))
                                 (PendingUsersSnapshotDetailed (toPendingUserSnapshots room')
                                    (r_id room'))]))))"







section \<open>Room policies: \<open>applyRoomPolicyUpdate\<close>\<close>

text \<open>
  \<open>RoomPolicyUpdate\<close>. The argument fields are tested with \<open>typeof ... === "boolean"\<close> at
  run time, so they are untyped values; the \<open>changed\<close> object has a field only where a
  policy changed.
\<close>

record RoomPolicyUpdate =
  u_locked :: jvalue
  u_chatLocked :: jvalue
  u_noGuests :: jvalue
  u_ttsDisabled :: jvalue
  u_dmEnabled :: jvalue

record RoomPolicyChanged =
  ch_locked :: "bool option"
  ch_chatLocked :: "bool option"
  ch_noGuests :: "bool option"
  ch_ttsDisabled :: "bool option"
  ch_dmEnabled :: "bool option"

definition noChange :: RoomPolicyChanged where
  "noChange = \<lparr>ch_locked = None, ch_chatLocked = None, ch_noGuests = None,
               ch_ttsDisabled = None, ch_dmEnabled = None\<rparr>"

text \<open>The five \<open>if\<close> statements of \<open>applyRoomPolicyUpdate\<close>, one function each, in order.\<close>

definition applyLocked ::
  "jvalue \<Rightarrow> RoomPolicyChanged \<times> Room \<times> action list \<Rightarrow> RoomPolicyChanged \<times> Room \<times> action list" where
  "applyLocked v acc =
     (case acc of (changed, room, acts) \<Rightarrow>
        (case v of
           JBool b \<Rightarrow>
             if b \<noteq> isLocked room then
               let room1 = setLocked b room;
                   room2 = (if b then fold allowLockedUser (map snd (userKeysById room1)) room1
                            else room1)
               in (changed\<lparr>ch_locked := Some b\<rparr>, room2,
                   acts @ [Emit (ToChannel (r_channelId room2)) (RoomLockChanged b (r_id room2))])
             else acc
         | _ \<Rightarrow> acc))"

definition applyChatLocked ::
  "jvalue \<Rightarrow> RoomPolicyChanged \<times> Room \<times> action list \<Rightarrow> RoomPolicyChanged \<times> Room \<times> action list" where
  "applyChatLocked v acc =
     (case acc of (changed, room, acts) \<Rightarrow>
        (case v of
           JBool b \<Rightarrow>
             if b \<noteq> isChatLocked room then
               let room1 = setChatLocked b room
               in (changed\<lparr>ch_chatLocked := Some b\<rparr>, room1,
                   acts @ [Emit (ToChannel (r_channelId room1)) (ChatLockChanged b (r_id room1))])
             else acc
         | _ \<Rightarrow> acc))"

definition applyNoGuests ::
  "jvalue \<Rightarrow> RoomPolicyChanged \<times> Room \<times> action list \<Rightarrow> RoomPolicyChanged \<times> Room \<times> action list" where
  "applyNoGuests v acc =
     (case acc of (changed, room, acts) \<Rightarrow>
        (case v of
           JBool b \<Rightarrow>
             if b \<noteq> noGuests room then
               let room1 = setNoGuests b room
               in (changed\<lparr>ch_noGuests := Some b\<rparr>, room1,
                   acts @ [Emit (ToChannel (r_channelId room1)) (NoGuestsChanged b (r_id room1))])
             else acc
         | _ \<Rightarrow> acc))"

definition applyTtsDisabled ::
  "jvalue \<Rightarrow> RoomPolicyChanged \<times> Room \<times> action list \<Rightarrow> RoomPolicyChanged \<times> Room \<times> action list" where
  "applyTtsDisabled v acc =
     (case acc of (changed, room, acts) \<Rightarrow>
        (case v of
           JBool b \<Rightarrow>
             if b \<noteq> isTtsDisabled room then
               let room1 = setTtsDisabled b room
               in (changed\<lparr>ch_ttsDisabled := Some b\<rparr>, room1,
                   acts @ [Emit (ToChannel (r_channelId room1)) (TtsDisabledChanged b (r_id room1))])
             else acc
         | _ \<Rightarrow> acc))"

definition applyDmEnabled ::
  "jvalue \<Rightarrow> RoomPolicyChanged \<times> Room \<times> action list \<Rightarrow> RoomPolicyChanged \<times> Room \<times> action list" where
  "applyDmEnabled v acc =
     (case acc of (changed, room, acts) \<Rightarrow>
        (case v of
           JBool b \<Rightarrow>
             if b \<noteq> isDmEnabled room then
               let room1 = setDmEnabled b room
               in (changed\<lparr>ch_dmEnabled := Some b\<rparr>, room1,
                   acts @ [Emit (ToChannel (r_channelId room1)) (DmStateChanged b (r_id room1))])
             else acc
         | _ \<Rightarrow> acc))"

text \<open>\<open>applyRoomPolicyUpdate(io, room, update)\<close> of \<open>controlPlane.ts\<close>.\<close>

definition applyRoomPolicyUpdate ::
  "Room \<Rightarrow> RoomPolicyUpdate \<Rightarrow> RoomPolicyChanged \<times> Room \<times> action list" where
  "applyRoomPolicyUpdate room update =
     applyDmEnabled (u_dmEnabled update)
       (applyTtsDisabled (u_ttsDisabled update)
          (applyNoGuests (u_noGuests update)
             (applyChatLocked (u_chatLocked update)
                (applyLocked (u_locked update) (noChange, room, [])))))"

text \<open>
  \<open>socket.on("lockRoom", ({ locked }, cb) => ...)\<close>. Destructuring the payload throws a
  \<open>TypeError\<close> when it is \<open>undefined\<close> or \<open>null\<close>; that is the result \<open>None\<close>. The object
  passed on has the single field \<open>locked\<close>.
\<close>

definition lockRoomHandler :: "ConnectionContext \<Rightarrow> jvalue \<Rightarrow> handlerResult option" where
  "lockRoomHandler context payload =
     (if payload = JUndefined \<or> payload = JNull then None
      else
        Some (case ensureAdminRoom context of
                Inl err \<Rightarrow> (AckError err, None, [])
              | Inr (room, adminId) \<Rightarrow>
                  (case applyRoomPolicyUpdate room
                          \<lparr>u_locked = jfield payload ''locked'', u_chatLocked = JUndefined,
                           u_noGuests = JUndefined, u_ttsDisabled = JUndefined,
                           u_dmEnabled = JUndefined\<rparr> of
                     (changed, room', acts) \<Rightarrow>
                       (AckSuccess [(''success'', JBool True), (''locked'', JBool (isLocked room')),
                                    (''changed'',
                                     JObj (case ch_locked changed of None \<Rightarrow> []
                                           | Some b \<Rightarrow> [(''locked'', JBool b)]))],
                        Some room', acts))))"

section \<open>Projections and example data\<close>

text \<open>The room a handler leaves behind: the second component of its result.\<close>

definition roomAfter :: "'a \<times> Room option \<times> action list \<Rightarrow> Room option" where
  "roomAfter result = fst (snd result)"

text \<open>
  The effect of one iteration of the access-allow loop on the room: \<open>unblockUser\<close>, then
  \<open>allowUser\<close>, then \<open>allowLockedUser\<close> under its guard.
\<close>

definition allowKey :: "bool \<Rightarrow> string \<Rightarrow> Room \<Rightarrow> Room" where
  "allowKey allowWhenLocked userKey room =
     (if allowWhenLocked \<or> isLocked room then allowLockedUser userKey else id)
       (allowUser userKey (unblockUser userKey room))"

text \<open>The keys of the waiting room, and the user keys that are both blocked and allowed.\<close>

definition pendingKeys :: "Room \<Rightarrow> string list" where
  "pendingKeys room = map fst (pendingClients room)"

definition accessOverlap :: "Room \<Rightarrow> string set" where
  "accessOverlap room = blockedUsers room \<inter> allowedUsers room"

text \<open>A mutation that leaves the allow list and the block list as they were.\<close>

definition sameAccess :: "Room \<Rightarrow> Room \<Rightarrow> bool" where
  "sameAccess room room' \<longleftrightarrow>
     allowedUsers room' = allowedUsers room \<and> blockedUsers room' = blockedUsers room"

text \<open>A freshly created room of a tenant and a request for it, for the examples.\<close>

definition fixtureRoom :: "string \<Rightarrow> string \<Rightarrow> Room" where
  "fixtureRoom clientId roomId =
     \<lparr>r_id = roomId, r_channelId = getRoomChannelId clientId roomId, r_clientId = clientId,
      clients = [], userKeysById = [], pendingClients = [],
      allowedUsers = {}, lockedAllowedUsers = {}, blockedUsers = {},
      isLocked = False, isChatLocked = False, noGuests = False, isTtsDisabled = False,
      isDmEnabled = True, screenShareProducerId = None\<rparr>"

definition fixtureRequest :: "string \<Rightarrow> Request" where
  "fixtureRequest roomId =
     \<lparr>secretHeader = Some ''s3cret'', clientHeader = None, queryClientId = JUndefined,
      paramRoomId = roomId, paramUserKey = [], paramUserId = [], paramProducerId = [],
      body = JUndefined\<rparr>"

text \<open>
  The room of the first end-to-end scenario: room \<open>r1\<close> of tenant \<open>default\<close>, locked, with
  one host in it and \<open>alice@x.y\<close> in the waiting room; the operator request names that room
  and that user key.
\<close>

definition scenarioHost :: Client where
  "scenarioHost = \<lparr>c_id = ''host@x.y#s0'', c_socket = ''sock-host'', c_isAdmin = True,
                    c_isGhost = False, c_isWebinarAttendee = False, c_producers = []\<rparr>"

definition scenarioPending :: PendingClient where
  "scenarioPending = \<lparr>p_userKey = ''alice@x.y'', p_userId = ''alice@x.y#s1'',
                       p_socket = ''sock-alice'', p_displayName = ''Alice''\<rparr>"

definition scenarioRoom :: Room where
  "scenarioRoom =
     \<lparr>r_id = ''r1'', r_channelId = ''default:r1'', r_clientId = ''default'',
      clients = [(''host@x.y#s0'', scenarioHost)],
      userKeysById = [(''host@x.y#s0'', ''host@x.y'')],
      pendingClients = [(''alice@x.y'', scenarioPending)],
      allowedUsers = {}, lockedAllowedUsers = {''host@x.y''}, blockedUsers = {},
      isLocked = True, isChatLocked = False, noGuests = False, isTtsDisabled = False,
      isDmEnabled = True, screenShareProducerId = None\<rparr>"

definition scenarioState :: "Room \<Rightarrow> SfuState" where
  "scenarioState room = \<lparr>isDraining = False, rooms = [(''default:r1'', room)]\<rparr>"

definition scenarioConfig :: Config where
  "scenarioConfig = \<lparr>sfuSecret = ''s3cret''\<rparr>"

definition scenarioRequest :: Request where
  "scenarioRequest =
     \<lparr>secretHeader = Some ''s3cret'', clientHeader = None, queryClientId = JUndefined,
      paramRoomId = ''r1'', paramUserKey = ''alice@x.y'', paramUserId = [], paramProducerId = [],
      body = JObj [(''userKeys'', JArr [JStr ''alice@x.y''])]\<rparr>"

definition scenarioContext :: "Room \<Rightarrow> ConnectionContext" where
  "scenarioContext room = \<lparr>currentRoom = Some room, currentClient = Some scenarioHost\<rparr>"

section \<open>Policy updates: projections and example data\<close>

text \<open>The update that only unlocks the room.\<close>

definition unlockUpdate :: RoomPolicyUpdate where
  "unlockUpdate = \<lparr>u_locked = JBool False, u_chatLocked = JUndefined, u_noGuests = JUndefined,
                    u_ttsDisabled = JUndefined, u_dmEnabled = JUndefined\<rparr>"

text \<open>A call that is an \<open>io.to(channelId).emit\<close> on the given channel.\<close>

definition isChannelEmit :: "string \<Rightarrow> action \<Rightarrow> bool" where
  "isChannelEmit channelId a = (case a of Emit (ToChannel c) e \<Rightarrow> c = channelId | _ \<Rightarrow> False)"

text \<open>What the policy stages leave untouched in a room.\<close>

definition policyFrame :: "Room \<Rightarrow> Room \<Rightarrow> bool" where
  "policyFrame room room' \<longleftrightarrow>
     pendingClients room' = pendingClients room \<and> allowedUsers room' = allowedUsers room
     \<and> blockedUsers room' = blockedUsers room \<and> clients room' = clients room
     \<and> r_channelId room' = r_channelId room \<and> r_id room' = r_id room"

section \<open>Drain: \<open>handleDrain\<close>\<close>

text \<open>The constants and the two parsers of \<open>createApp.ts\<close>.\<close>

definition DEFAULT_SERVER_RESTART_NOTICE :: string where
  "DEFAULT_SERVER_RESTART_NOTICE =
     ''Meeting server is restarting. You will be reconnected automatically.''"

definition DEFAULT_SERVER_RESTART_NOTICE_MS :: int where
  "DEFAULT_SERVER_RESTART_NOTICE_MS = 4000"

definition MAX_SERVER_RESTART_NOTICE_MS :: int where
  "MAX_SERVER_RESTART_NOTICE_MS = 30000"

definition parseRestartNoticeMs :: "jvalue \<Rightarrow> int" where
  "parseRestartNoticeMs v =
     (case v of
        JNum q \<Rightarrow> if q \<le> 0 then 0 else min \<lfloor>q\<rfloor> MAX_SERVER_RESTART_NOTICE_MS
      | _ \<Rightarrow> DEFAULT_SERVER_RESTART_NOTICE_MS)"

definition parseRestartNotice :: "jvalue \<Rightarrow> string" where
  "parseRestartNotice v =
     (case v of
        JStr s \<Rightarrow> if length (trim s) > 0 then trim s else DEFAULT_SERVER_RESTART_NOTICE
      | _ \<Rightarrow> DEFAULT_SERVER_RESTART_NOTICE)"

text \<open>
  The set \<open>pendingSockets\<close>, in insertion order: the sockets of the waiting-room entries of
  all rooms, each once. A waiting-room entry always carries its socket handle here, so the
  guard \<open>if (pendingSocket)\<close> passes.
\<close>

definition collectPendingSockets :: "Room list \<Rightarrow> string list" where
  "collectPendingSockets rs =
     uniqueInOrder (concat (map (\<lambda>room. map (\<lambda>pending. p_socket pending)
                                              (map snd (pendingClients room))) rs))"

text \<open>
  \<open>handleDrain(req, res)\<close>, the body of \<open>POST /drain\<close> and of its alias
  \<open>POST /admin/drain\<close> (the older copy of \<open>createApp.ts\<close> has the same statements inline in
  the route). The result is the response, the process state and the socket.io calls and the
  awaited sleep, in program order.
\<close>

definition handleDrain :: "bool \<Rightarrow> SfuState \<Rightarrow> Request \<Rightarrow> response \<times> SfuState \<times> action list" where
  "handleDrain ioAvailable state req =
     (let b = nullish (body req) (JObj []) in
      case jfield b ''draining'' of
        JBool draining \<Rightarrow>
          let state' = state\<lparr>isDraining := draining\<rparr>;
              shouldForceDrain = (isDraining state' \<and> jfield b ''force'' = JBool True)
          in if \<not> shouldForceDrain
             then (JsonOk [(''draining'', JBool (isDraining state')), (''forced'', JBool False)],
                   state', [])
             else if \<not> ioAvailable
             then (JsonError 503 ''Socket server unavailable for force drain'', state', [])
             else
               let rs = map snd (rooms state');
                   restartNotice = parseRestartNotice (jfield b ''notice'');
                   restartNoticeMs = parseRestartNoticeMs (jfield b ''noticeMs'');
                   connectedClients = sum_list (map (\<lambda>room. length (clients room)) rs);
                   pendingSockets = collectPendingSockets rs
               in (JsonOk [(''draining'', JBool (isDraining state')), (''forced'', JBool True),
                           (''rooms'', JNum (of_nat (length rs))),
                           (''clients'', JNum (of_nat connectedClients)),
                           (''noticeMs'', JNum (of_int restartNoticeMs))],
                   state',
                   map (\<lambda>room. Emit (ToChannel (r_channelId room))
                                  (ServerRestarting (Some (r_id room)) restartNotice)) rs
                   @ map (\<lambda>s. Emit (ToSocket s) (ServerRestarting None restartNotice)) pendingSockets
                   @ (if restartNoticeMs > 0 then [Sleep restartNoticeMs] else [])
                   @ map (\<lambda>room. DisconnectSockets (r_channelId room)) rs
                   @ map DisconnectSocket pendingSockets)
      | _ \<Rightarrow> (JsonError 400 ''Invalid draining flag'', state, []))"

text \<open>\<open>app.post("/drain", ...)\<close>: the secret check, then \<open>handleDrain\<close>.\<close>

definition drainRoute :: "Config \<Rightarrow> bool \<Rightarrow> SfuState \<Rightarrow> Request \<Rightarrow> response \<times> SfuState \<times> action list" where
  "drainRoute config ioAvailable state req =
     (if \<not> hasValidSecret req (sfuSecret config) then (JsonError 401 ''Unauthorized'', state, [])
      else handleDrain ioAvailable state req)"

text \<open>
  The phase of a call in a forced drain: a notice, the sleep, the disconnection of a room's
  sockets, the disconnection of a pending socket.
\<close>

definition drainPhase :: "action \<Rightarrow> nat" where
  "drainPhase a =
     (case a of
        Emit t e \<Rightarrow> 0
      | Sleep ms \<Rightarrow> 1
      | DisconnectSockets c \<Rightarrow> 2
      | DisconnectSocket s \<Rightarrow> 3
      | WebinarFeedChanged c \<Rightarrow> 4)"

definition isRestartNotice :: "action \<Rightarrow> bool" where
  "isRestartNotice a = (case a of Emit t (ServerRestarting rid msg) \<Rightarrow> True | _ \<Rightarrow> False)"

text \<open>The sockets of all waiting-room entries of the registry.\<close>

definition pendingSocketsOf :: "SfuState \<Rightarrow> string set" where
  "pendingSocketsOf state =
     (\<Union>room \<in> snd ` set (rooms state). (\<lambda>entry. p_socket (snd entry)) ` set (pendingClients room))"

text \<open>The calls of the forced branch of \<open>handleDrain\<close>, as a function of what it computed.\<close>

definition drainTrace :: "Room list \<Rightarrow> string list \<Rightarrow> string \<Rightarrow> int \<Rightarrow> action list" where
  "drainTrace rs ps notice ms =
     map (\<lambda>room. Emit (ToChannel (r_channelId room)) (ServerRestarting (Some (r_id room)) notice)) rs
     @ map (\<lambda>s. Emit (ToSocket s) (ServerRestarting None notice)) ps
     @ (if ms > 0 then [Sleep ms] else [])
     @ map (\<lambda>room. DisconnectSockets (r_channelId room)) rs
     @ map DisconnectSocket ps"

text \<open>A forced drain of two rooms, one with a waiting-room entry, and an oversized delay.\<close>

definition drainRequest :: Request where
  "drainRequest = scenarioRequest\<lparr>body := JObj [(''draining'', JBool True), (''force'', JBool True),
                                                (''noticeMs'', JNum 100000)]\<rparr>"

definition drainState :: SfuState where
  "drainState = \<lparr>isDraining = False,
                  rooms = [(''default:r1'', scenarioRoom), (''t2:rX'', fixtureRoom ''t2'' ''rX'')]\<rparr>"

section \<open>Moderation: closing a producer by id\<close>

text \<open>\<open>notifyProducerClosed\<close> of \<open>controlPlane.ts\<close>.\<close>

definition notifyProducerClosed :: "Room \<Rightarrow> string \<Rightarrow> string \<Rightarrow> action list" where
  "notifyProducerClosed room ownerId pid =
     map (\<lambda>entry. Emit (ToSocket (c_socket (snd entry))) (ProducerClosed pid ownerId))
         (filter (\<lambda>entry. \<not> (fst entry = ownerId \<or> c_isWebinarAttendee (snd entry)))
                 (clients room))
     @ [Emit (ToChannel (r_channelId room)) (AdminProducerClosed (r_id room) ownerId pid)]"

text \<open>The object \<open>closeProducerById\<close> returns; the optional fields are absent when nothing
  was closed.\<close>

record CloseResult =
  closed :: bool
  closedUserId :: "string option"
  closedKind :: "MediaKind option"
  closedType :: "ProducerType option"

text \<open>
  The loop \<open>for (const client of room.clients.values())\<close> of \<open>closeProducerById\<close>: each
  participant in turn is asked to remove the producer; the first that had it ends the loop.
  The result is that participant, as it is after the removal, with the removed entry, and the
  \<open>clients\<close> map with the participant updated in place.
\<close>

fun removeFromFirstOwner ::
  "string \<Rightarrow> (string \<times> Client) list \<Rightarrow> (Client \<times> ProducerInfo) option \<times> (string \<times> Client) list" where
  "removeFromFirstOwner pid [] = (None, [])"
| "removeFromFirstOwner pid (entry # rest) =
     (case removeProducerById pid (snd entry) of
        (Some removed, client') \<Rightarrow> (Some (client', removed), (fst entry, client') # rest)
      | (None, client') \<Rightarrow>
          (case removeFromFirstOwner pid rest of (found, rest') \<Rightarrow> (found, entry # rest')))"

text \<open>\<open>closeProducerById(io, state, room, producerId)\<close> of \<open>controlPlane.ts\<close>.\<close>

definition closeProducerById :: "Room \<Rightarrow> string \<Rightarrow> CloseResult \<times> Room \<times> action list" where
  "closeProducerById room pid =
     (case removeFromFirstOwner pid (clients room) of
        (None, clients') \<Rightarrow>
          (\<lparr>closed = False, closedUserId = None, closedKind = None, closedType = None\<rparr>, room, [])
      | (Some (client, removed), clients') \<Rightarrow>
          let room1 = room\<lparr>clients := clients'\<rparr>;
              room2 = (if kind removed = video \<and> producerType removed = screen
                       then clearScreenShareProducer pid room1 else room1)
          in (\<lparr>closed = True, closedUserId = Some (c_id client),
               closedKind = Some (kind removed), closedType = Some (producerType removed)\<rparr>,
              room2,
              notifyProducerClosed room2 (c_id client) pid
              @ [WebinarFeedChanged (r_channelId room2),
                 Emit (ToSocket (c_socket client))
                   (AdminMediaEnforced (r_id room2) (c_id client) pid (kind removed)
                      (producerType removed))]))"

text \<open>The ids of all producers of a room's participants.\<close>

definition producerIds :: "(string \<times> Client) list \<Rightarrow> string list" where
  "producerIds cs = concat (map (\<lambda>entry. map producerId (c_producers (snd entry))) cs)"

text \<open>
  A room with a host and two participants; \<open>bob\<close> publishes a microphone and the room's
  screen share.
\<close>

definition mediaClient :: "string \<Rightarrow> bool \<Rightarrow> ProducerInfo list \<Rightarrow> Client" where
  "mediaClient name isAdmin ps =
     \<lparr>c_id = name @ ''#s1'', c_socket = ''sock-'' @ name, c_isAdmin = isAdmin, c_isGhost = False,
      c_isWebinarAttendee = False, c_producers = ps\<rparr>"

definition mediaRoom :: Room where
  "mediaRoom =
     (fixtureRoom ''default'' ''r1'')
       \<lparr>clients :=
          [(''host#s1'', mediaClient ''host'' True
              [\<lparr>producerId = ''h-audio'', kind = audio, producerType = webcam, paused = False\<rparr>]),
           (''bob#s1'', mediaClient ''bob'' False
              [\<lparr>producerId = ''b-audio'', kind = audio, producerType = webcam, paused = False\<rparr>,
               \<lparr>producerId = ''b-screen'', kind = video, producerType = screen, paused = False\<rparr>]),
           (''eve#s1'', mediaClient ''eve'' False [])],
        userKeysById := [(''host#s1'', ''host''), (''bob#s1'', ''bob''), (''eve#s1'', ''eve'')],
        screenShareProducerId := Some ''b-screen''\<rparr>"

section \<open>Moderation: closing a participant's producers and bulk closure\<close>

text \<open>The \<open>selector\<close> argument: each field is an array or absent.\<close>

record Selector =
  sel_kinds :: "MediaKind list option"
  sel_types :: "ProducerType list option"

text \<open>\<open>shouldCloseProducer\<close> of \<open>controlPlane.ts\<close>; an array is truthy even when empty.\<close>

definition shouldCloseProducer :: "ProducerInfo \<Rightarrow> Selector option \<Rightarrow> bool" where
  "shouldCloseProducer info selector =
     (case selector of
        None \<Rightarrow> True
      | Some sel \<Rightarrow>
          if (case sel_kinds sel of None \<Rightarrow> False | Some kinds \<Rightarrow> kind info \<notin> set kinds) then False
          else if (case sel_types sel of None \<Rightarrow> False
                   | Some types \<Rightarrow> producerType info \<notin> set types) then False
          else True)"

text \<open>An element of \<open>closedProducers\<close>: producer id, kind and type.\<close>

type_synonym closedProducer = "string \<times> MediaKind \<times> ProducerType"

text \<open>
  The body of the loop \<open>for (const info of infos)\<close> of \<open>closeClientProducers\<close>. The
  accumulator is the target participant, the room, the calls made and \<open>closedProducers\<close>.
\<close>

definition closeInfo ::
  "string \<Rightarrow> ProducerInfo \<Rightarrow> Client \<times> Room \<times> action list \<times> closedProducer list
     \<Rightarrow> Client \<times> Room \<times> action list \<times> closedProducer list" where
  "closeInfo userId info acc =
     (case acc of (target, room, acts, closedProducers) \<Rightarrow>
        (case removeProducerById (producerId info) target of
           (None, target') \<Rightarrow> acc
         | (Some removed, target') \<Rightarrow>
             let room1 = (if kind removed = video \<and> producerType removed = screen
                          then clearScreenShareProducer (producerId info) room else room)
             in (target', room1, acts @ notifyProducerClosed room1 userId (producerId info),
                 closedProducers @ [(producerId info, kind removed, producerType removed)])))"

text \<open>
  The target is a reference into \<open>room.clients\<close>, mutated in place; in the model the entry
  that \<open>room.getClient(userId)\<close> found is replaced when the loop is over.
\<close>

fun updateClient :: "string \<Rightarrow> Client \<Rightarrow> (string \<times> Client) list \<Rightarrow> (string \<times> Client) list" where
  "updateClient userId client [] = []"
| "updateClient userId client (entry # rest) =
     (if fst entry = userId then (userId, client) # rest
      else entry # updateClient userId client rest)"

text \<open>
  \<open>closeClientProducers(options)\<close> of \<open>controlPlane.ts\<close>. The result is
  \<open>closedCount\<close> with \<open>closedProducers\<close>, the room and the calls made.
\<close>

definition closeClientProducers ::
  "Room \<Rightarrow> string \<Rightarrow> Selector option \<Rightarrow> string
     \<Rightarrow> (nat \<times> closedProducer list) \<times> Room \<times> action list" where
  "closeClientProducers room userId selector reason =
     (case getClient room userId of
        None \<Rightarrow> ((0, []), room, [])
      | Some target \<Rightarrow>
          let infos = filter (\<lambda>info. shouldCloseProducer info selector) (getProducerInfos target)
          in (case fold (closeInfo userId) infos (target, room, [], []) of
                (target', room1, acts, closedProducers) \<Rightarrow>
                  let room2 = room1\<lparr>clients := updateClient userId target' (clients room1)\<rparr>
                  in ((length closedProducers, closedProducers), room2,
                      acts @ (if length closedProducers > 0
                              then [WebinarFeedChanged (r_channelId room2),
                                    Emit (ToSocket (c_socket target'))
                                      (AdminMediaEnforcedMany (r_id room2) userId reason
                                         closedProducers)]
                              else []))))"

text \<open>The object \<open>performBulkMediaClosure\<close> returns.\<close>

record BulkResult =
  affectedUsers :: nat
  affectedProducers :: nat
  users :: "string list"

text \<open>
  The body of the loop \<open>for (const client of room.clients.values())\<close> of
  \<open>performBulkMediaClosure\<close> in \<open>adminHandlers.ts\<close>: the three \<open>continue\<close> guards, then
  \<open>closeClientProducers\<close> for the participant's id.
\<close>

definition bulkStep ::
  "Selector \<Rightarrow> string \<Rightarrow> bool \<Rightarrow> bool \<Rightarrow> bool \<Rightarrow> Client
     \<Rightarrow> BulkResult \<times> Room \<times> action list \<Rightarrow> BulkResult \<times> Room \<times> action list" where
  "bulkStep selector reason includeAdmins includeGhosts includeAttendees client acc =
     (case acc of (result, room, acts) \<Rightarrow>
        if \<not> includeAdmins \<and> c_isAdmin client then acc
        else if \<not> includeGhosts \<and> c_isGhost client then acc
        else if \<not> includeAttendees \<and> c_isWebinarAttendee client then acc
        else
          (case closeClientProducers room (c_id client) (Some selector) reason of
             ((closedCount, closedProducers), room', acts') \<Rightarrow>
               if closedCount > 0
               then (\<lparr>affectedUsers = affectedUsers result + 1,
                      affectedProducers = affectedProducers result + closedCount,
                      users = users result @ [c_id client]\<rparr>, room', acts @ acts')
               else (result, room', acts @ acts')))"

text \<open>\<open>performBulkMediaClosure(options)\<close>; the three flags are its optional booleans.\<close>

definition performBulkMediaClosure ::
  "ConnectionContext \<Rightarrow> Selector \<Rightarrow> string \<Rightarrow> bool \<Rightarrow> bool \<Rightarrow> bool
     \<Rightarrow> BulkResult \<times> Room option \<times> action list" where
  "performBulkMediaClosure context selector reason includeAdmins includeGhosts includeAttendees =
     (case currentRoom context of
        None \<Rightarrow> (\<lparr>affectedUsers = 0, affectedProducers = 0, users = []\<rparr>, None, [])
      | Some room \<Rightarrow>
          (case fold (bulkStep selector reason includeAdmins includeGhosts includeAttendees)
                  (map snd (clients room))
                  (\<lparr>affectedUsers = 0, affectedProducers = 0, users = []\<rparr>, room, []) of
             (result, room', acts) \<Rightarrow>
               (result, Some room',
                acts @ (if affectedProducers result > 0
                        then [Emit (ToChannel (r_channelId room'))
                                (AdminBulkMediaEnforced (r_id room') reason (users result)
                                   (affectedUsers result) (affectedProducers result))]
                        else []))))"

text \<open>\<open>toBulkMediaOptions\<close>: an object's three members by their truthiness, else all false.\<close>

definition toBulkMediaOptions :: "jvalue \<Rightarrow> bool \<times> bool \<times> bool" where
  "toBulkMediaOptions v =
     (case v of
        JObj members \<Rightarrow> (truthy (jfield v ''includeAdmins''), truthy (jfield v ''includeGhosts''),
                          truthy (jfield v ''includeAttendees''))
      | _ \<Rightarrow> (False, False, False))"

text \<open>
  The handlers of \<open>muteAll\<close>, \<open>closeAllVideo\<close> and \<open>admin:stopAllScreenShare\<close> differ in the
  selector and the reason only. The argument \<open>data\<close> is the payload (\<open>{}\<close> when the caller
  passed the callback first); a call without a callback returns before anything happens and
  is not modelled.
\<close>

definition bulkHandler ::
  "Selector \<Rightarrow> string \<Rightarrow> ConnectionContext \<Rightarrow> jvalue \<Rightarrow> handlerResult" where
  "bulkHandler selector reason context data =
     (case ensureAdminRoom context of
        Inl err \<Rightarrow> (AckError err, None, [])
      | Inr (room, adminId) \<Rightarrow>
          (case toBulkMediaOptions data of
             (includeAdmins, includeGhosts, includeAttendees) \<Rightarrow>
               (case performBulkMediaClosure context selector reason includeAdmins includeGhosts
                       includeAttendees of
                  (result, room', acts) \<Rightarrow>
                    (AckSuccess [(''success'', JBool True),
                                 (''count'', JNum (of_nat (affectedUsers result))),
                                 (''affectedProducers'', JNum (of_nat (affectedProducers result))),
                                 (''users'', JArr (map JStr (users result)))],
                     room', acts))))"

definition muteAllHandler :: "ConnectionContext \<Rightarrow> jvalue \<Rightarrow> handlerResult" where
  "muteAllHandler = bulkHandler \<lparr>sel_kinds = Some [audio], sel_types = None\<rparr> ''Muted by host''"

definition closeAllVideoHandler :: "ConnectionContext \<Rightarrow> jvalue \<Rightarrow> handlerResult" where
  "closeAllVideoHandler =
     bulkHandler \<lparr>sel_kinds = Some [video], sel_types = Some [webcam]\<rparr> ''Camera turned off by host''"

definition stopAllScreenShareHandler :: "ConnectionContext \<Rightarrow> jvalue \<Rightarrow> handlerResult" where
  "stopAllScreenShareHandler =
     bulkHandler \<lparr>sel_kinds = None, sel_types = Some [screen]\<rparr> ''Screen share stopped by host''"

text \<open>The host's connection in the example room.\<close>

definition mediaContext :: ConnectionContext where
  "mediaContext = \<lparr>currentRoom = Some mediaRoom,
                    currentClient = Some (mediaClient ''host'' True
              [\<lparr>producerId = ''h-audio'', kind = audio, producerType = webcam, paused = False\<rparr>])\<rparr>"

text \<open>The number of producers in a room, and the calls that are the room-wide bulk event.\<close>

definition totalProducers :: "Room \<Rightarrow> nat" where
  "totalProducers room = sum_list (map (\<lambda>entry. length (c_producers (snd entry))) (clients room))"

definition isBulkEvent :: "action \<Rightarrow> bool" where
  "isBulkEvent a =
     (case a of Emit t (AdminBulkMediaEnforced rid reason us au ap) \<Rightarrow> True | _ \<Rightarrow> False)"

text \<open>
  \<open>room.clients\<close> is a \<open>Map\<close> from a participant's id to the participant: the keys are
  pairwise distinct and each is the \<open>id\<close> of its value.
\<close>

definition wellFormedClients :: "Room \<Rightarrow> bool" where
  "wellFormedClients room \<longleftrightarrow>
     distinct (map fst (clients room))
     \<and> list_all (\<lambda>entry. c_id (snd entry) = fst entry) (clients room)"

text \<open>
  Two versions of a participant that differ in their producers at most; the same for entries
  of \<open>clients\<close>; an entry that is unchanged unless its key is the given one; an entry that is
  unchanged when it is an admin's.
\<close>

definition sameClient :: "Client \<Rightarrow> Client \<Rightarrow> bool" where
  "sameClient c c' \<longleftrightarrow>
     c_id c' = c_id c \<and> c_socket c' = c_socket c \<and> c_isAdmin c' = c_isAdmin c
     \<and> c_isGhost c' = c_isGhost c \<and> c_isWebinarAttendee c' = c_isWebinarAttendee c"

definition sameEntry :: "string \<times> Client \<Rightarrow> string \<times> Client \<Rightarrow> bool" where
  "sameEntry e e' \<longleftrightarrow> fst e' = fst e \<and> sameClient (snd e) (snd e')"

definition keptEntry :: "string \<Rightarrow> string \<times> Client \<Rightarrow> string \<times> Client \<Rightarrow> bool" where
  "keptEntry userId e e' \<longleftrightarrow> sameEntry e e' \<and> (fst e \<noteq> userId \<longrightarrow> e' = e)"
definition adminKept :: "string \<times> Client \<Rightarrow> string \<times> Client \<Rightarrow> bool" where
  "adminKept e e' \<longleftrightarrow> sameEntry e e' \<and> (c_isAdmin (snd e) \<longrightarrow> e' = e)"

section \<open>Minutes: the \<open>POST /minutes\<close> route and its single-flight registry\<close>

text \<open>
  The route of \<open>createApp.ts\<close> is an \<open>async\<close> handler. Node runs a handler from one \<open>await\<close> to
  the next without interleaving another one, so the route is modelled by the segments between
  its suspension points, each an atomic step on the state the segments share:

    \<^item> a request arrives: the handler runs up to its first \<open>await\<close>. It answers at once (401, 400,
      cache hit), or awaits the registered promise (\<open>await inFlight\<close>), or creates the \<open>generation\<close>
      promise, registers it and awaits it;
    \<^item> a generation settles: the promise created by an earlier request resolves with the PDF
      bytes or rejects. The last segment of the generator (which caches the PDF of an inactive
      room just before it returns), the continuation of the request that started it (with its
      \<open>catch\<close> and \<open>finally\<close> blocks) and the continuations of the requests that joined it run
      as consecutive promise jobs, before any other request is handled.

  What the generator computes in between (transcript capture, \<open>summarizeTranscript\<close>,
  \<open>buildMinutesPdf\<close>) is outside the route: its outcome is an input of the second step. The
  transcript cache, which only the generator reads and writes, is not part of the state.
\<close>

text \<open>A response of the route: the PDF (with the room id of its file name), or an error.\<close>

datatype minutesResponse =
    PdfResponse string string
  | MinutesError nat string

text \<open>
  A promise created by \<open>(async () => { ... })()\<close> that has not settled: the \<open>channelId\<close> and
  \<open>isRoomActive\<close> its closure captured, the request that created it and awaits it
  (\<open>await generation\<close>), and the requests that found it in the registry and await it
  (\<open>await inFlight\<close>), in the order they arrived. A request is kept with the \<open>roomId\<close> of its body,
  which names the file of its response.
\<close>

record Generation =
  g_channelId :: string
  g_isRoomActive :: bool
  g_starter :: "nat \<times> string"
  g_joiners :: "(nat \<times> string) list"

text \<open>
  The state the segments share: the \<open>minutesGenerationInFlight\<close> map of \<open>createSfuApp\<close> (a promise
  is named by a number), the minutes cache behind \<open>getCachedMinutes\<close> and \<open>setCachedMinutes\<close>, the
  promises that have not settled, a log with one entry per invocation of the generator, and the
  responses sent so far (request number and response). The two cache functions are in
  \<open>server/rooms.ts\<close>, which is not among the sources; section 4.10 of the specification has the
  cache keyed by channel id, and it is taken as a map read and written at the key.
\<close>

record MinutesState =
  minutesGenerationInFlight :: "string \<rightharpoonup> nat"
  cachedMinutes :: "string \<rightharpoonup> string"
  generations :: "nat \<rightharpoonup> Generation"
  generatorCalls :: "(nat \<times> string) list"
  sent :: "(nat \<times> minutesResponse) list"
  nextGeneration :: nat

definition initialMinutes :: MinutesState where
  "initialMinutes =
     \<lparr>minutesGenerationInFlight = Map.empty, cachedMinutes = Map.empty, generations = Map.empty,
      generatorCalls = [], sent = [], nextGeneration = 0\<rparr>"

text \<open>A destructuring default, \<open>{ name = fallback }\<close>: it replaces \<open>undefined\<close> only.\<close>

definition withDefault :: "jvalue \<Rightarrow> jvalue \<Rightarrow> jvalue" where
  "withDefault v fallback = (if v = JUndefined then fallback else v)"

definition minutesReply :: "nat \<Rightarrow> minutesResponse \<Rightarrow> MinutesState \<Rightarrow> MinutesState" where
  "minutesReply requestId response s = s\<lparr>sent := sent s @ [(requestId, response)]\<rparr>"

text \<open>
  The handler of \<open>POST /minutes\<close> up to its first \<open>await\<close>. \<open>getRoomChannelId\<close> is applied to a
  \<open>clientId\<close> of any type here, so it is the parameter \<open>channelOf\<close>; \<open>isRoomActive\<close> is the value of
  \<open>Boolean(activeRoom && !activeRoom.isEmpty())\<close> when the request is handled. A cached buffer is
  an object, hence truthy. A registry entry whose promise has settled does not occur (see
  \<open>registryConsistent\<close>); the model leaves such a request unanswered.
\<close>

definition minutesRequest ::
  "Config \<Rightarrow> (jvalue \<Rightarrow> string \<Rightarrow> string) \<Rightarrow> nat \<Rightarrow> Request \<Rightarrow> bool \<Rightarrow> MinutesState \<Rightarrow> MinutesState" where
  "minutesRequest config channelOf requestId req isRoomActive s =
     (if \<not> hasValidSecret req (sfuSecret config)
      then minutesReply requestId (MinutesError 401 ''Unauthorized'') s
      else
        let requestBody = nullish (body req) (JObj []);
            clientId = withDefault (jfield requestBody ''clientId'') (JStr ''default'')
        in (case jfield requestBody ''roomId'' of
              JStr roomId \<Rightarrow>
                if roomId = [] then minutesReply requestId (MinutesError 400 ''roomId required'') s
                else
                  let channelId = channelOf clientId roomId
                  in (case (if \<not> isRoomActive then cachedMinutes s channelId else None) of
                        Some cached \<Rightarrow> minutesReply requestId (PdfResponse roomId cached) s
                      | None \<Rightarrow>
                          (case minutesGenerationInFlight s channelId of
                             Some inFlight \<Rightarrow>
                               (case generations s inFlight of
                                  None \<Rightarrow> s
                                | Some gen \<Rightarrow>
                                    s\<lparr>generations := (generations s)
                                         (inFlight \<mapsto>
                                            gen\<lparr>g_joiners := g_joiners gen @ [(requestId, roomId)]\<rparr>)\<rparr>)
                           | None \<Rightarrow>
                               let generation = nextGeneration s
                               in s\<lparr>generations := (generations s)
                                      (generation \<mapsto>
                                         \<lparr>g_channelId = channelId, g_isRoomActive = isRoomActive,
                                          g_starter = (requestId, roomId), g_joiners = []\<rparr>),
                                    generatorCalls := generatorCalls s @ [(generation, channelId)],
                                    minutesGenerationInFlight :=
                                      (minutesGenerationInFlight s)(channelId \<mapsto> generation),
                                    nextGeneration := Suc generation\<rparr>))
            | _ \<Rightarrow> minutesReply requestId (MinutesError 400 ''roomId required'') s))"

text \<open>
  A generation settles with \<open>Some pdf\<close> (resolved) or \<open>None\<close> (rejected). On success the generator
  has cached the PDF when the room was inactive; the starter sends the PDF, or on failure the
  cached PDF of an inactive room, or a 500; its \<open>finally\<close> block deletes the registry entry if it
  is still this promise; every joiner sends the PDF, or a 500.
\<close>

definition generationSettled :: "nat \<Rightarrow> string option \<Rightarrow> MinutesState \<Rightarrow> MinutesState" where
  "generationSettled generation outcome s =
     (case generations s generation of
        None \<Rightarrow> s
      | Some gen \<Rightarrow>
          let channelId = g_channelId gen;
              cache = (case outcome of
                         Some pdf \<Rightarrow>
                           if \<not> g_isRoomActive gen then (cachedMinutes s)(channelId \<mapsto> pdf)
                           else cachedMinutes s
                       | None \<Rightarrow> cachedMinutes s);
              starterResponse =
                (case outcome of
                   Some pdf \<Rightarrow> PdfResponse (snd (g_starter gen)) pdf
                 | None \<Rightarrow>
                     (case (if g_isRoomActive gen then None else cache channelId) of
                        Some fallbackPdf \<Rightarrow> PdfResponse (snd (g_starter gen)) fallbackPdf
                      | None \<Rightarrow> MinutesError 500 ''Failed to generate minutes''));
              joinerResponse =
                (\<lambda>joiner. (fst joiner,
                            case outcome of
                              Some pdf \<Rightarrow> PdfResponse (snd joiner) pdf
                            | None \<Rightarrow> MinutesError 500 ''Failed to generate minutes''))
          in s\<lparr>cachedMinutes := cache,
               minutesGenerationInFlight :=
                 (if minutesGenerationInFlight s channelId = Some generation
                  then (minutesGenerationInFlight s)(channelId := None)
                  else minutesGenerationInFlight s),
               generations := (generations s)(generation := None),
               sent := sent s @ (fst (g_starter gen), starterResponse)
                              # map joinerResponse (g_joiners gen)\<rparr>)"

text \<open>A run of the server: requests arriving and generations settling, in any order.\<close>

datatype minutesEvent =
    MinutesPost nat Request bool
  | Settled nat "string option"

definition minutesStep ::
  "Config \<Rightarrow> (jvalue \<Rightarrow> string \<Rightarrow> string) \<Rightarrow> minutesEvent \<Rightarrow> MinutesState \<Rightarrow> MinutesState" where
  "minutesStep config channelOf ev s =
     (case ev of
        MinutesPost requestId req isRoomActive \<Rightarrow>
          minutesRequest config channelOf requestId req isRoomActive s
      | Settled generation outcome \<Rightarrow> generationSettled generation outcome s)"

definition runMinutes ::
  "Config \<Rightarrow> (jvalue \<Rightarrow> string \<Rightarrow> string) \<Rightarrow> minutesEvent list \<Rightarrow> MinutesState" where
  "runMinutes config channelOf history = fold (minutesStep config channelOf) history initialMinutes"

text \<open>Requests only: what happens while no generation settles.\<close>

definition postAll ::
  "Config \<Rightarrow> (jvalue \<Rightarrow> string \<Rightarrow> string) \<Rightarrow> (nat \<times> Request \<times> bool) list
     \<Rightarrow> MinutesState \<Rightarrow> MinutesState" where
  "postAll config channelOf posts s =
     fold (\<lambda>post. minutesRequest config channelOf (fst post) (fst (snd post)) (snd (snd post)))
       posts s"

text \<open>The invocations of the generator for a channel.\<close>

definition callsFor :: "string \<Rightarrow> MinutesState \<Rightarrow> (nat \<times> string) list" where
  "callsFor channelId s = filter (\<lambda>call. snd call = channelId) (generatorCalls s)"

text \<open>The requests awaiting a generation: the one that started it, then the joiners.\<close>

definition awaiting :: "nat \<Rightarrow> MinutesState \<Rightarrow> (nat \<times> string) list" where
  "awaiting generation s =
     (case generations s generation of None \<Rightarrow> [] | Some gen \<Rightarrow> g_starter gen # g_joiners gen)"

text \<open>
  Whether a request gets as far as the registry lookup for \<open>channelId\<close>: it is authorised, names a
  room, maps to the channel and is not served from the cache.
\<close>

definition reachesRegistry ::
  "Config \<Rightarrow> (jvalue \<Rightarrow> string \<Rightarrow> string) \<Rightarrow> string \<Rightarrow> MinutesState \<Rightarrow> Request \<Rightarrow> bool \<Rightarrow> bool" where
  "reachesRegistry config channelOf channelId s req isRoomActive =
     (hasValidSecret req (sfuSecret config)
      \<and> (case jfield (nullish (body req) (JObj [])) ''roomId'' of
            JStr roomId \<Rightarrow>
              roomId \<noteq> []
              \<and> channelOf (withDefault (jfield (nullish (body req) (JObj [])) ''clientId'')
                              (JStr ''default'')) roomId = channelId
              \<and> (isRoomActive \<or> cachedMinutes s channelId = None)
          | _ \<Rightarrow> False))"

definition roomIdOf :: "Request \<Rightarrow> string" where
  "roomIdOf req = (case jfield (nullish (body req) (JObj [])) ''roomId'' of JStr roomId \<Rightarrow> roomId | _ \<Rightarrow> [])"

text \<open>The requests of a list that join the generation in flight for \<open>channelId\<close>.\<close>

definition joining ::
  "Config \<Rightarrow> (jvalue \<Rightarrow> string \<Rightarrow> string) \<Rightarrow> string \<Rightarrow> MinutesState
     \<Rightarrow> (nat \<times> Request \<times> bool) list \<Rightarrow> (nat \<times> string) list" where
  "joining config channelOf channelId s posts =
     map (\<lambda>post. (fst post, roomIdOf (fst (snd post))))
       (filter (\<lambda>post. reachesRegistry config channelOf channelId s (fst (snd post)) (snd (snd post)))
          posts)"

text \<open>
  The registry and the unsettled promises agree: a registered promise has not settled and was
  created for that channel; an unsettled promise is the one registered for its channel; every
  promise was created by one invocation of the generator.
\<close>

definition registryConsistent :: "MinutesState \<Rightarrow> bool" where
  "registryConsistent s \<longleftrightarrow>
     (\<forall>channelId g. minutesGenerationInFlight s channelId = Some g
        \<longrightarrow> (\<exists>gen. generations s g = Some gen \<and> g_channelId gen = channelId))
     \<and> (\<forall>g gen. generations s g = Some gen
        \<longrightarrow> minutesGenerationInFlight s (g_channelId gen) = Some g
            \<and> (g, g_channelId gen) \<in> set (generatorCalls s))
     \<and> (\<forall>call \<in> set (generatorCalls s). fst call < nextGeneration s)
     \<and> distinct (map fst (generatorCalls s))"

text \<open>Two requests for the minutes of room \<open>r1\<close>, and the bytes of a PDF.\<close>

definition minutesPost :: Request where
  "minutesPost = scenarioRequest\<lparr>body := JObj [(''roomId'', JStr ''r1'')]\<rparr>"

definition scenarioChannelOf :: "jvalue \<Rightarrow> string \<Rightarrow> string" where
  "scenarioChannelOf clientId roomId =
     getRoomChannelId (case clientId of JStr c \<Rightarrow> c | _ \<Rightarrow> []) roomId"

text \<open>
  The sixth end-to-end scenario: room \<open>r1\<close> has ended; a first request starts the generation, two
  more arrive before it settles.
\<close>

definition minutesStarted :: MinutesState where
  "minutesStarted = runMinutes scenarioConfig scenarioChannelOf [MinutesPost 1 minutesPost False]"

definition minutesJoined :: MinutesState where
  "minutesJoined =
     postAll scenarioConfig scenarioChannelOf [(2, minutesPost, False), (3, minutesPost, False)]
       minutesStarted"

chapter \<open>Verified properties\<close>

section \<open>Properties of strings\<close>

text \<open>On the characters of a \<open>string\<close> the whitespace class has seven members.\<close>

lemma isWhitespace_iff:
  "isWhitespace c
     \<longleftrightarrow> c \<in> {CHR 0x09, CHR 0x0A, CHR 0x0B, CHR 0x0C, CHR 0x0D, CHR '' '', CHR 0xA0}"
proof -
  define n :: nat where "n = of_char c"
  have b: "n < 256" unfolding n_def by (cases c) (simp add: of_char_def)
  have e: "c = d \<longleftrightarrow> n = of_char d" for d unfolding n_def by simp
  have "isWhitespaceUnit n \<longleftrightarrow> n \<in> {9, 10, 11, 12, 13, 32, 160}"
    unfolding isWhitespaceUnit_def using b by auto
  then show ?thesis
    unfolding isWhitespace_def n_def [symmetric] by (simp add: e)
qed

text \<open>Trimming a \<open>string\<close> is trimming its code units.\<close>

lemma dropWhile_units:
  "map of_char (dropWhile isWhitespace s) = dropWhile isWhitespaceUnit (map of_char s)"
  by (induction s) (simp_all add: isWhitespace_def)

lemma trim_units: "units (trim s) = trimUnits (units s)"
  unfolding units_def trim_def trimUnits_def
  by (simp only: dropWhile_units [symmetric] rev_map)

text \<open>
  Collapsing keeps the code units that are not whitespace, in their order, and leaves no
  whitespace but single spaces.
\<close>

lemma filter_dropWhile_not: "filter (\<lambda>x. \<not> P x) (dropWhile P xs) = filter (\<lambda>x. \<not> P x) xs"
  by (induction xs) simp_all

lemma collapseWhitespace_keeps:
  "filter (\<lambda>u. \<not> isWhitespaceUnit u) (collapseWhitespace s) = filter (\<lambda>u. \<not> isWhitespaceUnit u) s"
  by (induction s rule: collapseWhitespace.induct)
     (simp_all add: filter_dropWhile_not, simp add: isWhitespaceUnit_def)

lemma collapseWhitespace_spaces:
  "u \<in> set (collapseWhitespace s) \<Longrightarrow> isWhitespaceUnit u \<Longrightarrow> u = 0x20"
  by (induction s rule: collapseWhitespace.induct) (auto split: if_splits)

lemma collapseWhitespace_single:
  "collapseWhitespace s = xs @ a # b # ys \<Longrightarrow> \<not> (isWhitespaceUnit a \<and> isWhitespaceUnit b)"
proof (induction s arbitrary: xs rule: collapseWhitespace.induct)
  case 1
  then show ?case by simp
next
  case (2 c cs)
  show ?case
  proof (cases "isWhitespaceUnit c")
    case True
    let ?rest = "dropWhile isWhitespaceUnit cs"
    from True "2.prems" have e: "0x20 # collapseWhitespace ?rest = xs @ a # b # ys" by simp
    show ?thesis
    proof (cases xs)
      case Nil
      with e have b: "collapseWhitespace ?rest = b # ys" by simp
      then have "?rest \<noteq> []" by (metis collapseWhitespace.simps(1) list.distinct(1))
      then have nw: "\<not> isWhitespaceUnit (hd ?rest)" by (rule hd_dropWhile)
      with b have "b = hd ?rest"
        by (cases ?rest) (auto split: if_splits)
      with nw show ?thesis by simp
    next
      case (Cons x xs')
      with e have "collapseWhitespace ?rest = xs' @ a # b # ys" by simp
      from "2.IH"(1) [OF True this] show ?thesis .
    qed
  next
    case False
    with "2.prems" have e: "c # collapseWhitespace cs = xs @ a # b # ys" by simp
    show ?thesis
    proof (cases xs)
      case Nil
      with e False show ?thesis by simp
    next
      case (Cons x xs')
      with e have "collapseWhitespace cs = xs' @ a # b # ys" by simp
      from "2.IH"(2) [OF False this] show ?thesis .
    qed
  qed
qed

section \<open>Properties of the transcription pipeline\<close>

text \<open>
  Claim C7. For an incoming chunk whose whitespace-normalised text is not empty, the append
  is suppressed (the transcript is returned as it was) exactly when there is a last chunk, its
  text equals the normalised text, its \<open>endMs\<close> is less than 1500 ms away from the incoming
  \<open>endMs\<close>, and the two speakers match: they are the same, or each of them is missing or
  empty. In every other case the chunk is appended at the end, carrying the normalised text.
\<close>

theorem appendTranscript_dedup:
  assumes "trimUnits (collapseWhitespace (chunkText chunk)) \<noteq> []"
  shows "(appendTranscript transcript chunk = transcript
            \<longleftrightarrow> transcript \<noteq> []
                \<and> chunkText (last transcript) = trimUnits (collapseWhitespace (chunkText chunk))
                \<and> \<bar>endMs chunk - endMs (last transcript)\<bar> < 1500
                \<and> (speaker chunk = speaker (last transcript)
                     \<or> speaker chunk \<in> {None, Some []} \<and> speaker (last transcript) \<in> {None, Some []}))
       \<and> (appendTranscript transcript chunk \<noteq> transcript
            \<longrightarrow> appendTranscript transcript chunk
                  = transcript @ [chunk\<lparr>chunkText := trimUnits (collapseWhitespace (chunkText chunk))\<rparr>])"
proof -
  have s: "speakerOrEmpty a = speakerOrEmpty b
             \<longleftrightarrow> a = b \<or> a \<in> {None, Some []} \<and> b \<in> {None, Some []}" for a b
    by (cases a; cases b) (auto simp: speakerOrEmpty_def)
  show ?thesis
    using assms by (auto simp: appendTranscript_def Let_def abs_minus_commute s)
qed

theorem appendTranscript_dedup_witness:
  "appendTranscript [transcribed]
      \<lparr>startMs = 2500, endMs = 3499, chunkText = units '' hello   world '', speaker = Some ''p1''\<rparr>
    = [transcribed]
   \<and> appendTranscript [transcribed]
      \<lparr>startMs = 2500, endMs = 3500, chunkText = units '' hello   world '', speaker = Some ''p1''\<rparr>
    = [transcribed,
       \<lparr>startMs = 2500, endMs = 3500, chunkText = units ''hello world'', speaker = Some ''p1''\<rparr>]
   \<and> appendTranscript [transcribed]
      \<lparr>startMs = 2500, endMs = 3499, chunkText = units '' hello   world '', speaker = Some ''p2''\<rparr>
    = [transcribed,
       \<lparr>startMs = 2500, endMs = 3499, chunkText = units ''hello world'', speaker = Some ''p2''\<rparr>]
   \<and> appendTranscript [transcribed]
      \<lparr>startMs = 2500, endMs = 3499, chunkText = units '' hello   world '', speaker = None\<rparr>
    = [transcribed,
       \<lparr>startMs = 2500, endMs = 3499, chunkText = units ''hello world'', speaker = None\<rparr>]
   \<and> appendTranscript [transcribed\<lparr>speaker := None\<rparr>]
      \<lparr>startMs = 2500, endMs = 3499, chunkText = units '' hello   world '', speaker = Some []\<rparr>
    = [transcribed\<lparr>speaker := None\<rparr>]
   \<and> appendTranscript [transcribed]
      \<lparr>startMs = 600, endMs = 700,
       chunkText = 0xFEFF # units ''hello'' @ [0xA0, 0x2028, 0x09] @ units ''world'' @ [0x3000],
       speaker = Some ''p1''\<rparr>
    = [transcribed]"
proof -
  let ?text = "units '' hello   world ''"
  let ?odd = "0xFEFF # units ''hello'' @ [0xA0, 0x2028, 0x09] @ units ''world'' @ [0x3000]"
  have n: "trimUnits (collapseWhitespace (chunkText \<lparr>startMs = s, endMs = e, chunkText = ?text,
                                                    speaker = w\<rparr>)) = units ''hello world''"
          "trimUnits (collapseWhitespace (chunkText \<lparr>startMs = s, endMs = e, chunkText = ?odd,
                                                    speaker = w\<rparr>)) = units ''hello world''"
    for s e w
    by (simp_all add: trimUnits_def isWhitespaceUnit_def units_def)
  have ne: "units ''hello world'' \<noteq> []"
    by (simp add: units_def)
  have l: "chunkText transcribed = units ''hello world''" "endMs transcribed = 2000"
          "speaker transcribed = Some ''p1''"
    by (simp_all add: transcribed_def)
  note t = appendTranscript_dedup [where transcript = "[transcribed]"]
  have a: "appendTranscript [transcribed]
      \<lparr>startMs = 2500, endMs = 3499, chunkText = ?text, speaker = Some ''p1''\<rparr> = [transcribed]"
    using t [of "\<lparr>startMs = 2500, endMs = 3499, chunkText = ?text, speaker = Some ''p1''\<rparr>",
             unfolded n, OF ne]
    by (simp add: l)
  have b: "appendTranscript [transcribed]
      \<lparr>startMs = 2500, endMs = 3500, chunkText = ?text, speaker = Some ''p1''\<rparr>
    = [transcribed,
       \<lparr>startMs = 2500, endMs = 3500, chunkText = units ''hello world'', speaker = Some ''p1''\<rparr>]"
    using t [of "\<lparr>startMs = 2500, endMs = 3500, chunkText = ?text, speaker = Some ''p1''\<rparr>",
             unfolded n, OF ne]
    by (simp add: l)
  have c: "appendTranscript [transcribed]
      \<lparr>startMs = 2500, endMs = 3499, chunkText = ?text, speaker = Some ''p2''\<rparr>
    = [transcribed,
       \<lparr>startMs = 2500, endMs = 3499, chunkText = units ''hello world'', speaker = Some ''p2''\<rparr>]"
    using t [of "\<lparr>startMs = 2500, endMs = 3499, chunkText = ?text, speaker = Some ''p2''\<rparr>",
             unfolded n, OF ne]
    by (simp add: l)
  have d: "appendTranscript [transcribed]
      \<lparr>startMs = 2500, endMs = 3499, chunkText = ?text, speaker = None\<rparr>
    = [transcribed,
       \<lparr>startMs = 2500, endMs = 3499, chunkText = units ''hello world'', speaker = None\<rparr>]"
    using t [of "\<lparr>startMs = 2500, endMs = 3499, chunkText = ?text, speaker = None\<rparr>",
             unfolded n, OF ne]
    by (simp add: l)
  have e: "appendTranscript [transcribed\<lparr>speaker := None\<rparr>]
      \<lparr>startMs = 2500, endMs = 3499, chunkText = ?text, speaker = Some []\<rparr>
    = [transcribed\<lparr>speaker := None\<rparr>]"
    using appendTranscript_dedup [where transcript = "[transcribed\<lparr>speaker := None\<rparr>]",
        of "\<lparr>startMs = 2500, endMs = 3499, chunkText = ?text, speaker = Some []\<rparr>",
        unfolded n, OF ne]
    by (simp add: l)
  have f: "appendTranscript [transcribed]
      \<lparr>startMs = 600, endMs = 700, chunkText = ?odd, speaker = Some ''p1''\<rparr> = [transcribed]"
    using t [of "\<lparr>startMs = 600, endMs = 700, chunkText = ?odd, speaker = Some ''p1''\<rparr>",
             unfolded n, OF ne]
    by (simp add: l)
  from a b c d e f show ?thesis by blast
qed

section \<open>Evaluation and trimming lemmas\<close>

lemmas scenario_defs = scenarioHost_def scenarioPending_def scenarioRoom_def scenarioState_def
  scenarioConfig_def scenarioRequest_def scenarioContext_def

lemmas eval_defs = trim_def isWhitespace_iff toStringOrEmpty_def hasValidSecret_def resolveClientId_def
  resolveRoomForAdmin_def resolveRoom_def getRoomChannelId_def Let_def nullish_def
  parseUserKeys_def uniqueInOrder_def allowUser_def allowLockedUser_def blockUser_def unblockUser_def
  revokeAllowedUser_def revokeLockedAllowedUser_def revokeStep_def
  getAdmins_def getClient_def emitPendingUsersSnapshot_def roomAfter_def pendingKeys_def
  ensureAdminRoom_def toPendingUserSnapshots_def accessOverlap_def

lemma trim_cases: "trim s = [] \<or> (\<exists>y ys. trim s = y # ys \<and> \<not> isWhitespace y \<and> (ys = [] \<or> \<not> isWhitespace (last ys)))"
proof (cases "dropWhile isWhitespace s")
  case Nil
  have "trim s = rev (dropWhile isWhitespace (rev (dropWhile isWhitespace s)))"
    by (rule trim_def)
  also have "\<dots> = rev (dropWhile isWhitespace (rev []))" by (simp only: Nil)
  also have "\<dots> = []" by simp
  finally show ?thesis by blast
next
  case (Cons y u)
  then have ny: "\<not> isWhitespace y" using hd_dropWhile[of isWhitespace s] by (metis list.sel(1) list.distinct(1))
  have "rev (y # u) = rev u @ [y]" by simp
  then have d: "dropWhile isWhitespace (rev (y # u)) = dropWhile isWhitespace (rev u) @ [y]"
    using ny by (simp add: dropWhile_append3)
  then have t: "trim s = y # rev (dropWhile isWhitespace (rev u))"
    using Cons by (simp add: trim_def)
  have "rev (dropWhile isWhitespace (rev u)) = [] \<or> \<not> isWhitespace (last (rev (dropWhile isWhitespace (rev u))))"
  proof (cases "dropWhile isWhitespace (rev u)")
    case Nil then show ?thesis by simp
  next
    case (Cons a as)
    then have "\<not> isWhitespace a" using hd_dropWhile[of isWhitespace "rev u"] by (metis list.sel(1) list.distinct(1))
    then show ?thesis using Cons by simp
  qed
  with t ny show ?thesis by blast
qed

lemma trim_trim: "trim (trim s) = trim s"
proof -
  from trim_cases[of s] show ?thesis
  proof
    assume e: "trim s = []"
    have "trim [] = []" unfolding trim_def by simp
    with e show ?thesis by simp
  next
    assume "\<exists>y ys. trim s = y # ys \<and> \<not> isWhitespace y \<and> (ys = [] \<or> \<not> isWhitespace (last ys))"
    then obtain y ys where t: "trim s = y # ys" and ny: "\<not> isWhitespace y" and l: "ys = [] \<or> \<not> isWhitespace (last ys)" by blast
    have "dropWhile isWhitespace (rev (y # ys)) = rev (y # ys)"
    proof (cases ys rule: rev_cases)
      case Nil then show ?thesis using ny by simp
    next
      case (snoc zs z)
      then have "\<not> isWhitespace z" using l by simp
      then show ?thesis using snoc by simp
    qed
    then show ?thesis using t ny by (simp add: trim_def[of "y # ys"])
  qed
qed


lemma toStringOrEmpty_trimmed: "trim (toStringOrEmpty v) = toStringOrEmpty v"
proof (cases v)
  case (JStr x) then show ?thesis by (simp add: toStringOrEmpty_def trim_trim)
qed (simp_all add: toStringOrEmpty_def trim_def)

lemma resolveClientId_trimmed:
  assumes "resolveClientId req = Some cid"
  shows "trim cid = cid \<and> cid \<noteq> []"
  using assms
  by (auto simp: resolveClientId_def Let_def toStringOrEmpty_trimmed split: if_splits)

section \<open>Properties of the room lookup\<close>

text \<open>
  Claim C8. The requested room id is the trimmed route parameter, which is not empty (an
  empty one is answered with 400 before any lookup). Without a client id, when more than
  one room of the registry has the requested id, \<open>resolveRoomForAdmin\<close> answers 409 with
  the error string and the channel ids of all those rooms, in registry order. With a client
  id, it resolves the registry entry stored under that tenant's channel id for the room, or
  answers 404 \<open>Room not found\<close>.
\<close>

theorem resolveRoomForAdmin_lookup:
  assumes "trim (paramRoomId req) \<noteq> []"
  shows "(resolveClientId req = None
            \<and> 1 < length (filter (\<lambda>room. r_id room = trim (paramRoomId req)) (map snd (rooms state)))
          \<longrightarrow> resolveRoomForAdmin state req
                = Inl (JsonErrorCandidates 409 ''Room ID is ambiguous. Provide a clientId.''
                    (map r_channelId
                       (filter (\<lambda>room. r_id room = trim (paramRoomId req)) (map snd (rooms state))))))
       \<and> (\<forall>cid. resolveClientId req = Some cid
          \<longrightarrow> resolveRoomForAdmin state req
                = (case map_of (rooms state) (getRoomChannelId cid (trim (paramRoomId req))) of
                     Some room \<Rightarrow> Inr (room, getRoomChannelId cid (trim (paramRoomId req)))
                   | None \<Rightarrow> Inl (JsonError 404 ''Room not found'')))"
proof (intro conjI impI allI)
  assume a: "resolveClientId req = None
            \<and> 1 < length (filter (\<lambda>room. r_id room = trim (paramRoomId req)) (map snd (rooms state)))"
  then show "resolveRoomForAdmin state req
                = Inl (JsonErrorCandidates 409 ''Room ID is ambiguous. Provide a clientId.''
                    (map r_channelId
                       (filter (\<lambda>room. r_id room = trim (paramRoomId req)) (map snd (rooms state)))))"
    using assms
    by (auto simp add: resolveRoomForAdmin_def resolveRoom_def toStringOrEmpty_def trim_trim Let_def
          simp del: filter_map length_filter_map)
next
  fix cid assume c: "resolveClientId req = Some cid"
  from resolveClientId_trimmed[OF c] have t: "trim cid = cid" "cid \<noteq> []" by auto
  show "resolveRoomForAdmin state req
                = (case map_of (rooms state) (getRoomChannelId cid (trim (paramRoomId req))) of
                     Some room \<Rightarrow> Inr (room, getRoomChannelId cid (trim (paramRoomId req)))
                   | None \<Rightarrow> Inl (JsonError 404 ''Room not found''))"
    using assms c t
    by (simp add: resolveRoomForAdmin_def resolveRoom_def toStringOrEmpty_def trim_trim Let_def
          split: option.splits)
qed

theorem resolveRoomForAdmin_lookup_witness:
  "resolveRoomForAdmin
      \<lparr>isDraining = False,
       rooms = [(''t1:rX'', fixtureRoom ''t1'' ''rX''), (''t2:rX'', fixtureRoom ''t2'' ''rX'')]\<rparr>
      (fixtureRequest ''rX'')
    = Inl (JsonErrorCandidates 409 ''Room ID is ambiguous. Provide a clientId.'' [''t1:rX'', ''t2:rX''])
   \<and> resolveRoomForAdmin
      \<lparr>isDraining = False,
       rooms = [(''t1:rX'', fixtureRoom ''t1'' ''rX''), (''t2:rX'', fixtureRoom ''t2'' ''rX'')]\<rparr>
      ((fixtureRequest ''rX'')\<lparr>queryClientId := JStr ''t2''\<rparr>)
    = Inr (fixtureRoom ''t2'' ''rX'', ''t2:rX'')
   \<and> resolveRoomForAdmin
      \<lparr>isDraining = False,
       rooms = [(''t1:rX'', fixtureRoom ''t1'' ''rX''), (''t2:rX'', fixtureRoom ''t2'' ''rX'')]\<rparr>
      ((fixtureRequest ''rX'')\<lparr>queryClientId := JStr ''t3''\<rparr>)
    = Inl (JsonError 404 ''Room not found'')"
proof -
  let ?S = "\<lparr>isDraining = False,
       rooms = [(''t1:rX'', fixtureRoom ''t1'' ''rX''), (''t2:rX'', fixtureRoom ''t2'' ''rX'')]\<rparr>"
  let ?R = "fixtureRequest ''rX''"
  have r: "trim ''rX'' = ''rX''"
    by (simp add: trim_def isWhitespace_iff)
  have p: "paramRoomId ?R = ''rX''" "paramRoomId (?R\<lparr>queryClientId := JStr ''t2''\<rparr>) = ''rX''"
      "paramRoomId (?R\<lparr>queryClientId := JStr ''t3''\<rparr>) = ''rX''"
    by (simp_all add: fixtureRequest_def)
  have ne: "trim (paramRoomId ?R) \<noteq> []"
       "trim (paramRoomId (?R\<lparr>queryClientId := JStr ''t2''\<rparr>)) \<noteq> []"
       "trim (paramRoomId (?R\<lparr>queryClientId := JStr ''t3''\<rparr>)) \<noteq> []"
    by (simp_all add: p r)
  have c: "resolveClientId ?R = None"
       "resolveClientId (?R\<lparr>queryClientId := JStr ''t2''\<rparr>) = Some ''t2''"
       "resolveClientId (?R\<lparr>queryClientId := JStr ''t3''\<rparr>) = Some ''t3''"
    by (simp_all add: resolveClientId_def fixtureRequest_def toStringOrEmpty_def trim_def isWhitespace_iff)
  have f: "filter (\<lambda>room. r_id room = ''rX'') (map snd (rooms ?S))
            = [fixtureRoom ''t1'' ''rX'', fixtureRoom ''t2'' ''rX'']"
    by (simp add: fixtureRoom_def)
  have A: "resolveRoomForAdmin ?S ?R
      = Inl (JsonErrorCandidates 409 ''Room ID is ambiguous. Provide a clientId.'' [''t1:rX'', ''t2:rX''])"
    using resolveRoomForAdmin_lookup [OF ne(1), of ?S] c(1)
    unfolding p r f by (simp add: fixtureRoom_def getRoomChannelId_def)
  have B: "resolveRoomForAdmin ?S (?R\<lparr>queryClientId := JStr ''t2''\<rparr>)
      = Inr (fixtureRoom ''t2'' ''rX'', ''t2:rX'')"
    using resolveRoomForAdmin_lookup [OF ne(2), of ?S] c(2)
    unfolding p r by (simp add: getRoomChannelId_def)
  have C: "resolveRoomForAdmin ?S (?R\<lparr>queryClientId := JStr ''t3''\<rparr>)
      = Inl (JsonError 404 ''Room not found'')"
    using resolveRoomForAdmin_lookup [OF ne(3), of ?S] c(3)
    unfolding p r by (simp add: getRoomChannelId_def)
  show ?thesis using A B C by simp
qed

section \<open>Properties of the access-list operations\<close>

lemma allowStep_room: "fst (allowStep w k (room, acts, adm)) = allowKey w k room"
  by (simp add: allowStep_def allowKey_def Let_def allowUser_def unblockUser_def split: option.splits)

lemma fold_allowStep_room:
  "fst (fold (allowStep w) keys acc) = fold (allowKey w) keys (fst acc)"
proof (induction keys arbitrary: acc)
  case Nil show ?case by simp
next
  case (Cons k keys)
  obtain room acts adm where acc: "acc = (room, acts, adm)" by (cases acc)
  show ?case using Cons[of "allowStep w k acc"] by (simp add: acc allowStep_room)
qed

lemma fold_allowKey_sets:
  "allowedUsers (fold (allowKey w) keys room) = allowedUsers room \<union> set keys
   \<and> blockedUsers (fold (allowKey w) keys room) = blockedUsers room - set keys
   \<and> pendingClients (fold (allowKey w) keys room)
       = filter (\<lambda>entry. fst entry \<notin> set keys) (pendingClients room)
   \<and> isLocked (fold (allowKey w) keys room) = isLocked room"
proof (induction keys arbitrary: room)
  case Nil show ?case by simp
next
  case (Cons k keys)
  have s: "allowedUsers (allowKey w k room) = insert k (allowedUsers room)"
          "blockedUsers (allowKey w k room) = blockedUsers room - {k}"
          "pendingClients (allowKey w k room)
             = filter (\<lambda>entry. fst entry \<noteq> k) (pendingClients room)"
          "isLocked (allowKey w k room) = isLocked room"
    by (simp_all add: allowKey_def allowUser_def unblockUser_def allowLockedUser_def)
  show ?case using Cons[of "allowKey w k room"] by (auto simp: s)
qed









lemma accessAllowRoute_room:
  assumes "roomAfter (accessAllowRoute config io state req) = Some room'"
  shows "\<exists>room ch keys. resolveRoomForAdmin state req = Inr (room, ch)
           \<and> parseUserKeys (nullish (jfield (body req) ''userKeys'') (jfield (body req) ''userKey''))
               = Some keys
           \<and> keys \<noteq> []
           \<and> room' = fold (allowKey (jfield (body req) ''allowWhenLocked'' \<noteq> JBool False)) keys room"
proof -
  let ?w = "jfield (body req) ''allowWhenLocked'' \<noteq> JBool False"
  from assms obtain room ch keys where
    l: "resolveRoomForAdmin state req = Inr (room, ch)" and
    k: "parseUserKeys (nullish (jfield (body req) ''userKeys'') (jfield (body req) ''userKey'')) = Some keys" and
    ne: "keys \<noteq> []" and
    r: "room' = fst (fold (allowStep ?w) keys (room, [], []))"
    by (auto simp: accessAllowRoute_def roomAfter_def Let_def
          split: if_splits sum.splits option.splits prod.splits)
  from r have "room' = fold (allowKey ?w) keys room" by (simp add: fold_allowStep_room)
  with l k ne show ?thesis by blast
qed

lemma allowUsersHandler_room:
  assumes "roomAfter (allowUsersHandler context data) = Some room'"
  shows "\<exists>room adminId keys. ensureAdminRoom context = Inr (room, adminId)
           \<and> parseUserKeys (jfield data ''userKeys'') = Some keys
           \<and> keys \<noteq> []
           \<and> room' = fold (allowKey (jfield data ''allowWhenLocked'' \<noteq> JBool False)) keys room"
proof -
  let ?w = "jfield data ''allowWhenLocked'' \<noteq> JBool False"
  from assms obtain room adminId keys where
    l: "ensureAdminRoom context = Inr (room, adminId)" and
    k: "parseUserKeys (jfield data ''userKeys'') = Some keys" and
    ne: "keys \<noteq> []" and
    r: "room' = fst (fold (allowStep ?w) keys (room, [], []))"
    by (auto simp: allowUsersHandler_def roomAfter_def Let_def
          split: if_splits sum.splits option.splits prod.splits)
  from r have "room' = fold (allowKey ?w) keys room" by (simp add: fold_allowStep_room)
  with l k ne show ?thesis by blast
qed






















text \<open>
  Claim C10. One iteration of the access-allow loop unblocks the key, then allows it (then
  adds it to the locked-allow list under its guard). After a successful access-allow
  request, on the route or on the socket event \<open>admin:allowUsers\<close>, every parsed user key is
  in \<open>allowedUsers\<close> and not in \<open>blockedUsers\<close>.
\<close>

theorem allow_unblocks_then_allows:
  "fst (allowStep allowWhenLocked userKey (room, acts, admitted))
      = (if allowWhenLocked \<or> isLocked room then allowLockedUser userKey else id)
          (allowUser userKey (unblockUser userKey room))
   \<and> (\<forall>room'. roomAfter (accessAllowRoute config io state req) = Some room'
         \<longrightarrow> (\<exists>keys. parseUserKeys (nullish (jfield (body req) ''userKeys'')
                                            (jfield (body req) ''userKey'')) = Some keys
                \<and> keys \<noteq> []
                \<and> (\<forall>k \<in> set keys. k \<in> allowedUsers room' \<and> k \<notin> blockedUsers room')))
   \<and> (\<forall>room'. roomAfter (allowUsersHandler context data) = Some room'
         \<longrightarrow> (\<exists>keys. parseUserKeys (jfield data ''userKeys'') = Some keys
                \<and> keys \<noteq> []
                \<and> (\<forall>k \<in> set keys. k \<in> allowedUsers room' \<and> k \<notin> blockedUsers room')))"
proof (intro conjI allI impI)
  show "fst (allowStep allowWhenLocked userKey (room, acts, admitted))
      = (if allowWhenLocked \<or> isLocked room then allowLockedUser userKey else id)
          (allowUser userKey (unblockUser userKey room))"
    by (simp add: allowStep_room allowKey_def)
next
  fix room' assume "roomAfter (accessAllowRoute config io state req) = Some room'"
  from accessAllowRoute_room[OF this]
  show "\<exists>keys. parseUserKeys (nullish (jfield (body req) ''userKeys'')
                                            (jfield (body req) ''userKey'')) = Some keys
                \<and> keys \<noteq> []
                \<and> (\<forall>k \<in> set keys. k \<in> allowedUsers room' \<and> k \<notin> blockedUsers room')"
    by (auto simp: fold_allowKey_sets)
next
  fix room' assume "roomAfter (allowUsersHandler context data) = Some room'"
  from allowUsersHandler_room[OF this]
  show "\<exists>keys. parseUserKeys (jfield data ''userKeys'') = Some keys
                \<and> keys \<noteq> []
                \<and> (\<forall>k \<in> set keys. k \<in> allowedUsers room' \<and> k \<notin> blockedUsers room')"
    by (auto simp: fold_allowKey_sets)
qed

theorem allow_unblocks_then_allows_witness:
  "map_option blockedUsers
     (roomAfter (accessAllowRoute scenarioConfig True
                   (scenarioState (scenarioRoom\<lparr>blockedUsers := {''alice@x.y''}\<rparr>))
                   scenarioRequest)) = Some {}
   \<and> (\<exists>room'. roomAfter (accessAllowRoute scenarioConfig True
                   (scenarioState (scenarioRoom\<lparr>blockedUsers := {''alice@x.y''}\<rparr>))
                   scenarioRequest) = Some room'
         \<and> ''alice@x.y'' \<in> allowedUsers room' \<and> ''alice@x.y'' \<notin> blockedUsers room')
   \<and> (\<exists>room'. roomAfter (allowUsersHandler
                   (scenarioContext (scenarioRoom\<lparr>blockedUsers := {''alice@x.y''}\<rparr>))
                   (JObj [(''userKeys'', JStr '' alice@x.y '')])) = Some room'
         \<and> ''alice@x.y'' \<in> allowedUsers room' \<and> ''alice@x.y'' \<notin> blockedUsers room')"
proof -
  let ?R = "scenarioRoom\<lparr>blockedUsers := {''alice@x.y''}\<rparr>"
  let ?D = "JObj [(''userKeys'', JStr '' alice@x.y '')]"
  note t = allow_unblocks_then_allows [of _ _ _ _ _ scenarioConfig True "scenarioState ?R"
      scenarioRequest "scenarioContext ?R" ?D]
  have p: "parseUserKeys (nullish (jfield (body scenarioRequest) ''userKeys'')
                                   (jfield (body scenarioRequest) ''userKey'')) = Some [''alice@x.y'']"
          "parseUserKeys (jfield ?D ''userKeys'') = Some [''alice@x.y'']"
    by (simp_all add: scenario_defs eval_defs)
  have e: "map_option blockedUsers
     (roomAfter (accessAllowRoute scenarioConfig True (scenarioState ?R) scenarioRequest)) = Some {}"
    by (simp add: accessAllowRoute_def allowStep_def scenario_defs eval_defs)
  then obtain r1 where a: "roomAfter (accessAllowRoute scenarioConfig True (scenarioState ?R)
      scenarioRequest) = Some r1" by auto
  have "\<exists>r2. roomAfter (allowUsersHandler (scenarioContext ?R) ?D) = Some r2"
    by (simp add: allowUsersHandler_def allowStep_def scenario_defs eval_defs)
  then obtain r2 where s: "roomAfter (allowUsersHandler (scenarioContext ?R) ?D) = Some r2" by auto
  from t a p have A: "''alice@x.y'' \<in> allowedUsers r1 \<and> ''alice@x.y'' \<notin> blockedUsers r1" by auto
  from t s p have S: "''alice@x.y'' \<in> allowedUsers r2 \<and> ''alice@x.y'' \<notin> blockedUsers r2" by auto
  from e a A s S show ?thesis by blast
qed

section \<open>Properties of the policy update\<close>

lemma later_stage_frame:
  assumes "f = applyChatLocked \<or> f = applyNoGuests \<or> f = applyTtsDisabled \<or> f = applyDmEnabled"
      and "f v (changed, room, acts) = (changed', room', acts')"
  shows "policyFrame room room' \<and> isLocked room' = isLocked room
         \<and> lockedAllowedUsers room' = lockedAllowedUsers room
         \<and> ch_locked changed' = ch_locked changed
         \<and> (\<exists>extra. acts' = acts @ extra \<and> list_all (isChannelEmit (r_channelId room)) extra)"
  using assms
  by (cases v)
     (auto simp: applyChatLocked_def applyNoGuests_def applyTtsDisabled_def applyDmEnabled_def
        setChatLocked_def setNoGuests_def setTtsDisabled_def setDmEnabled_def Let_def
        policyFrame_def isChannelEmit_def split: if_splits)

lemma applyLocked_unlock:
  assumes "isLocked room"
  shows "applyLocked (JBool False) (noChange, room, [])
          = (noChange\<lparr>ch_locked := Some False\<rparr>, room\<lparr>isLocked := False\<rparr>,
             [Emit (ToChannel (r_channelId room)) (RoomLockChanged False (r_id room))])"
  using assms by (simp add: applyLocked_def setLocked_def Let_def)

text \<open>
  Claim C3, as stated, fails: in a locked room where \<open>alice@x.y\<close> is pending and is in
  \<open>allowedUsers\<close>, the update that sets \<open>locked\<close> to false changes the flag and emits
  \<open>roomLockChanged\<close> to the channel, and nothing else: nobody is admitted.
\<close>

theorem unlock_counterexample:
  "isLocked (scenarioRoom\<lparr>allowedUsers := {''alice@x.y''}\<rparr>)
   \<and> ''alice@x.y'' \<in> allowedUsers (scenarioRoom\<lparr>allowedUsers := {''alice@x.y''}\<rparr>)
   \<and> pendingKeys (scenarioRoom\<lparr>allowedUsers := {''alice@x.y''}\<rparr>) = [''alice@x.y'']
   \<and> applyRoomPolicyUpdate (scenarioRoom\<lparr>allowedUsers := {''alice@x.y''}\<rparr>) unlockUpdate
     = (noChange\<lparr>ch_locked := Some False\<rparr>,
        scenarioRoom\<lparr>allowedUsers := {''alice@x.y''}, isLocked := False\<rparr>,
        [Emit (ToChannel ''default:r1'') (RoomLockChanged False ''r1'')])"
  by (simp add: applyRoomPolicyUpdate_def applyLocked_def applyChatLocked_def applyNoGuests_def
        applyTtsDisabled_def applyDmEnabled_def setLocked_def unlockUpdate_def noChange_def
        scenarioRoom_def pendingKeys_def Let_def)
lemma applyRoomPolicyUpdate_unlock:
  assumes "isLocked room"
      and "u_locked update = JBool False"
      and "applyRoomPolicyUpdate room update = (changed, room', acts)"
  shows "\<not> isLocked room'
       \<and> ch_locked changed = Some False
       \<and> hd acts = Emit (ToChannel (r_channelId room)) (RoomLockChanged False (r_id room))
       \<and> pendingClients room' = pendingClients room
       \<and> allowedUsers room' = allowedUsers room
       \<and> lockedAllowedUsers room' = lockedAllowedUsers room
       \<and> blockedUsers room' = blockedUsers room
       \<and> list_all (isChannelEmit (r_channelId room)) acts"
proof -
  let ?a0 = "[Emit (ToChannel (r_channelId room)) (RoomLockChanged False (r_id room))]"
  let ?r0 = "room\<lparr>isLocked := False\<rparr>"
  obtain c1 r1 a1 where s1: "applyChatLocked (u_chatLocked update)
      (noChange\<lparr>ch_locked := Some False\<rparr>, ?r0, ?a0) = (c1, r1, a1)"
    by (metis prod_cases3)
  obtain c2 r2 a2 where s2: "applyNoGuests (u_noGuests update) (c1, r1, a1) = (c2, r2, a2)"
    by (metis prod_cases3)
  obtain c3 r3 a3 where s3: "applyTtsDisabled (u_ttsDisabled update) (c2, r2, a2) = (c3, r3, a3)"
    by (metis prod_cases3)
  obtain c4 r4 a4 where s4: "applyDmEnabled (u_dmEnabled update) (c3, r3, a3) = (c4, r4, a4)"
    by (metis prod_cases3)
  have e: "(changed, room', acts) = (c4, r4, a4)"
    using assms(3) s1 s2 s3 s4
    by (simp add: applyRoomPolicyUpdate_def assms(2) applyLocked_unlock[OF assms(1)])
  note f1 = later_stage_frame[where f=applyChatLocked, OF _ s1]
    and f2 = later_stage_frame[where f=applyNoGuests, OF _ s2]
    and f3 = later_stage_frame[where f=applyTtsDisabled, OF _ s3]
    and f4 = later_stage_frame[where f=applyDmEnabled, OF _ s4]
  have F1: "policyFrame ?r0 r1 \<and> isLocked r1 = isLocked ?r0
         \<and> lockedAllowedUsers r1 = lockedAllowedUsers ?r0 \<and> ch_locked c1 = Some False
         \<and> (\<exists>extra. a1 = ?a0 @ extra \<and> list_all (isChannelEmit (r_channelId ?r0)) extra)"
    using f1 by simp
  have F2: "policyFrame r1 r2 \<and> isLocked r2 = isLocked r1
         \<and> lockedAllowedUsers r2 = lockedAllowedUsers r1 \<and> ch_locked c2 = ch_locked c1
         \<and> (\<exists>extra. a2 = a1 @ extra \<and> list_all (isChannelEmit (r_channelId r1)) extra)"
    using f2 by simp
  have F3: "policyFrame r2 r3 \<and> isLocked r3 = isLocked r2
         \<and> lockedAllowedUsers r3 = lockedAllowedUsers r2 \<and> ch_locked c3 = ch_locked c2
         \<and> (\<exists>extra. a3 = a2 @ extra \<and> list_all (isChannelEmit (r_channelId r2)) extra)"
    using f3 by simp
  have F4: "policyFrame r3 r4 \<and> isLocked r4 = isLocked r3
         \<and> lockedAllowedUsers r4 = lockedAllowedUsers r3 \<and> ch_locked c4 = ch_locked c3
         \<and> (\<exists>extra. a4 = a3 @ extra \<and> list_all (isChannelEmit (r_channelId r3)) extra)"
    using f4 by simp
  from F1 F2 F3 F4 e show ?thesis
    by (auto simp: policyFrame_def isChannelEmit_def)
qed

text \<open>
  Claim C3, amended. When a policy update takes a locked room to unlocked, the flag is
  cleared, \<open>changed.locked\<close> is false and \<open>roomLockChanged\<close> is the first call; the
  waiting room and the three access lists are as before, and every call made is an emit on
  the room's channel, so no waiting-room entry is admitted and all of them remain. The
  socket event \<open>lockRoom\<close> with \<open>locked: false\<close>, from an admin of the room, does exactly
  this.
\<close>

theorem unlock_admits_nobody:
  assumes "isLocked room"
  shows "(\<forall>update changed room' acts.
            u_locked update = JBool False
            \<and> applyRoomPolicyUpdate room update = (changed, room', acts)
          \<longrightarrow> \<not> isLocked room'
              \<and> ch_locked changed = Some False
              \<and> hd acts = Emit (ToChannel (r_channelId room)) (RoomLockChanged False (r_id room))
              \<and> pendingClients room' = pendingClients room
              \<and> allowedUsers room' = allowedUsers room
              \<and> lockedAllowedUsers room' = lockedAllowedUsers room
              \<and> blockedUsers room' = blockedUsers room
              \<and> list_all (isChannelEmit (r_channelId room)) acts)
       \<and> (\<forall>context adminId.
            ensureAdminRoom context = Inr (room, adminId)
          \<longrightarrow> lockRoomHandler context (JObj [(''locked'', JBool False)])
              = Some (AckSuccess [(''success'', JBool True), (''locked'', JBool False),
                                  (''changed'', JObj [(''locked'', JBool False)])],
                      Some (room\<lparr>isLocked := False\<rparr>),
                      [Emit (ToChannel (r_channelId room)) (RoomLockChanged False (r_id room))]))"
proof (rule conjI)
  show "\<forall>update changed room' acts.
            u_locked update = JBool False
            \<and> applyRoomPolicyUpdate room update = (changed, room', acts)
          \<longrightarrow> \<not> isLocked room'
              \<and> ch_locked changed = Some False
              \<and> hd acts = Emit (ToChannel (r_channelId room)) (RoomLockChanged False (r_id room))
              \<and> pendingClients room' = pendingClients room
              \<and> allowedUsers room' = allowedUsers room
              \<and> lockedAllowedUsers room' = lockedAllowedUsers room
              \<and> blockedUsers room' = blockedUsers room
              \<and> list_all (isChannelEmit (r_channelId room)) acts"
    using applyRoomPolicyUpdate_unlock[OF assms] by blast
next
  have u: "applyRoomPolicyUpdate room
          \<lparr>u_locked = JBool False, u_chatLocked = JUndefined, u_noGuests = JUndefined,
           u_ttsDisabled = JUndefined, u_dmEnabled = JUndefined\<rparr>
        = (noChange\<lparr>ch_locked := Some False\<rparr>, room\<lparr>isLocked := False\<rparr>,
           [Emit (ToChannel (r_channelId room)) (RoomLockChanged False (r_id room))])"
    by (simp add: applyRoomPolicyUpdate_def applyLocked_unlock[OF assms] applyChatLocked_def
          applyNoGuests_def applyTtsDisabled_def applyDmEnabled_def)
  show "\<forall>context adminId.
            ensureAdminRoom context = Inr (room, adminId)
          \<longrightarrow> lockRoomHandler context (JObj [(''locked'', JBool False)])
              = Some (AckSuccess [(''success'', JBool True), (''locked'', JBool False),
                                  (''changed'', JObj [(''locked'', JBool False)])],
                      Some (room\<lparr>isLocked := False\<rparr>),
                      [Emit (ToChannel (r_channelId room)) (RoomLockChanged False (r_id room))])"
    using u by (simp add: lockRoomHandler_def noChange_def)
qed

theorem unlock_admits_nobody_witness:
  "isLocked (scenarioRoom\<lparr>allowedUsers := {''alice@x.y''}\<rparr>)
   \<and> pendingClients (fst (snd (applyRoomPolicyUpdate
                                 (scenarioRoom\<lparr>allowedUsers := {''alice@x.y''}\<rparr>)
                                 (unlockUpdate\<lparr>u_chatLocked := JBool True\<rparr>))))
       = [(''alice@x.y'', scenarioPending)]
   \<and> list_all (isChannelEmit ''default:r1'')
        (snd (snd (applyRoomPolicyUpdate (scenarioRoom\<lparr>allowedUsers := {''alice@x.y''}\<rparr>)
                     (unlockUpdate\<lparr>u_chatLocked := JBool True\<rparr>))))
   \<and> lockRoomHandler (scenarioContext (scenarioRoom\<lparr>allowedUsers := {''alice@x.y''}\<rparr>))
        (JObj [(''locked'', JBool False)])
       = Some (AckSuccess [(''success'', JBool True), (''locked'', JBool False),
                           (''changed'', JObj [(''locked'', JBool False)])],
               Some (scenarioRoom\<lparr>allowedUsers := {''alice@x.y''}, isLocked := False\<rparr>),
               [Emit (ToChannel ''default:r1'') (RoomLockChanged False ''r1'')])"
proof -
  let ?R = "scenarioRoom\<lparr>allowedUsers := {''alice@x.y''}\<rparr>"
  let ?U = "unlockUpdate\<lparr>u_chatLocked := JBool True\<rparr>"
  have l: "isLocked ?R" by (simp add: scenarioRoom_def)
  have u: "u_locked ?U = JBool False" by (simp add: unlockUpdate_def)
  have g: "ensureAdminRoom (scenarioContext ?R) = Inr (?R, ''host@x.y#s0'')"
    by (simp add: scenario_defs eval_defs)
  obtain changed room' acts where e: "applyRoomPolicyUpdate ?R ?U = (changed, room', acts)"
    by (metis prod_cases3)
  have f: "r_channelId ?R = ''default:r1''" "r_id ?R = ''r1''"
          "pendingClients ?R = [(''alice@x.y'', scenarioPending)]"
    by (simp_all add: scenarioRoom_def)
  note t = unlock_admits_nobody[OF l]
  have A: "pendingClients room' = pendingClients ?R
           \<and> list_all (isChannelEmit (r_channelId ?R)) acts"
    using t u e by blast
  have B: "lockRoomHandler (scenarioContext ?R) (JObj [(''locked'', JBool False)])
       = Some (AckSuccess [(''success'', JBool True), (''locked'', JBool False),
                           (''changed'', JObj [(''locked'', JBool False)])],
               Some (?R\<lparr>isLocked := False\<rparr>),
               [Emit (ToChannel (r_channelId ?R)) (RoomLockChanged False (r_id ?R))])"
    using t g by blast
  show ?thesis using A B l by (simp add: e f)
qed

section \<open>Properties of the drain\<close>

lemma set_uniqueInOrder_aux:
  "set (foldl (\<lambda>seen k. if k \<in> set seen then seen else seen @ [k]) acc ks) = set acc \<union> set ks"
  by (induction ks arbitrary: acc) auto

lemma set_uniqueInOrder: "set (uniqueInOrder ks) = set ks"
  by (simp add: uniqueInOrder_def set_uniqueInOrder_aux)

lemma set_collectPendingSockets:
  "set (collectPendingSockets (map snd (rooms state))) = pendingSocketsOf state"
  by (auto simp: collectPendingSockets_def set_uniqueInOrder pendingSocketsOf_def)

lemma parseRestartNoticeMs_range:
  "0 \<le> parseRestartNoticeMs v \<and> parseRestartNoticeMs v \<le> 30000"
  by (cases v) (auto simp: parseRestartNoticeMs_def MAX_SERVER_RESTART_NOTICE_MS_def
       DEFAULT_SERVER_RESTART_NOTICE_MS_def min_def)

lemma sorted_map_constant: "(\<And>x. f x = (k::nat)) \<Longrightarrow> sorted (map f xs)"
  by (induction xs) auto
lemma drainTrace_sorted: "sorted (map drainPhase (drainTrace rs ps notice ms))"
  by (auto simp: drainTrace_def sorted_append drainPhase_def intro!: sorted_map_constant)

lemma drainTrace_phases:
  "a \<in> set (drainTrace rs ps notice ms) \<Longrightarrow> drainPhase a \<le> 3 \<and> (drainPhase a = 0 \<longrightarrow> isRestartNotice a)"
  by (auto simp: drainTrace_def drainPhase_def isRestartNotice_def split: if_splits)

lemma drainTrace_sleep:
  "Sleep m \<in> set (drainTrace rs ps notice ms) \<Longrightarrow> m = ms \<and> 0 < ms"
  by (auto simp: drainTrace_def split: if_splits)

lemma drainTrace_room:
  "room \<in> set rs \<Longrightarrow>
     Emit (ToChannel (r_channelId room)) (ServerRestarting (Some (r_id room)) notice)
       \<in> set (drainTrace rs ps notice ms)
     \<and> DisconnectSockets (r_channelId room) \<in> set (drainTrace rs ps notice ms)"
  by (auto simp: drainTrace_def)

lemma drainTrace_pending:
  "s \<in> set ps \<Longrightarrow>
     Emit (ToSocket s) (ServerRestarting None notice) \<in> set (drainTrace rs ps notice ms)
     \<and> DisconnectSocket s \<in> set (drainTrace rs ps notice ms)"
  by (auto simp: drainTrace_def)

text \<open>
  Claim C5. In a forced drain (\<open>draining\<close> and \<open>force\<close> both true, socket server
  available) the calls are ordered by phase: every \<open>serverRestarting\<close> notice, to each
  room channel and to each pending socket, comes before the sleep, the sleep before the
  disconnection of any room's sockets, and those before the disconnection of any pending
  socket. Every event emitted is such a notice; a sleep, when there is one, lasts more than
  0 and at most 30000 ms; every room and every pending socket gets both its notice and its
  disconnection.
\<close>

theorem forced_drain_order:
  assumes "jfield (nullish (body req) (JObj [])) ''draining'' = JBool True"
      and "jfield (nullish (body req) (JObj [])) ''force'' = JBool True"
      and "handleDrain True state req = (resp, state', acts)"
  shows "isDraining state'
       \<and> sorted (map drainPhase acts)
       \<and> (\<forall>a \<in> set acts. drainPhase a = 0 \<longrightarrow> isRestartNotice a)
       \<and> (\<forall>ms. Sleep ms \<in> set acts \<longrightarrow> 0 < ms \<and> ms \<le> 30000)
       \<and> (\<forall>a \<in> set acts. drainPhase a \<le> 3)
       \<and> (\<forall>room \<in> snd ` set (rooms state).
             (\<exists>msg. Emit (ToChannel (r_channelId room)) (ServerRestarting (Some (r_id room)) msg)
                       \<in> set acts)
             \<and> DisconnectSockets (r_channelId room) \<in> set acts)
       \<and> (\<forall>s \<in> pendingSocketsOf state.
             (\<exists>msg. Emit (ToSocket s) (ServerRestarting None msg) \<in> set acts)
             \<and> DisconnectSocket s \<in> set acts)"
proof -
  let ?b = "nullish (body req) (JObj [])"
  let ?rs = "map snd (rooms state)"
  let ?n = "parseRestartNotice (jfield ?b ''notice'')"
  let ?ms = "parseRestartNoticeMs (jfield ?b ''noticeMs'')"
  let ?ps = "collectPendingSockets ?rs"
  have e: "snd (handleDrain True state req)
             = (state\<lparr>isDraining := True\<rparr>, drainTrace ?rs ?ps ?n ?ms)"
    by (simp add: handleDrain_def Let_def assms(1,2) drainTrace_def)
  have a: "acts = drainTrace ?rs ?ps ?n ?ms" and d: "isDraining state'"
    using e by (simp_all add: assms(3))
  have r: "0 \<le> ?ms \<and> ?ms \<le> 30000" by (rule parseRestartNoticeMs_range)
  have p: "pendingSocketsOf state = set ?ps" by (simp only: set_collectPendingSockets)
  have q: "snd ` set (rooms state) = set ?rs" by simp
  show ?thesis
    unfolding a p q
    using d r drainTrace_sorted[of ?rs ?ps ?n ?ms] drainTrace_phases[of _ ?rs ?ps ?n ?ms]
      drainTrace_sleep[of _ ?rs ?ps ?n ?ms] drainTrace_room[of _ ?rs ?n ?ps ?ms]
      drainTrace_pending[of _ ?ps ?n ?rs ?ms]
    by blast
qed
theorem forced_drain_order_witness:
  "isDraining (fst (snd (handleDrain True drainState drainRequest)))
   \<and> sorted (map drainPhase (snd (snd (handleDrain True drainState drainRequest))))
   \<and> Emit (ToSocket ''sock-alice'') (ServerRestarting None DEFAULT_SERVER_RESTART_NOTICE)
        \<in> set (snd (snd (handleDrain True drainState drainRequest)))
   \<and> DisconnectSocket ''sock-alice'' \<in> set (snd (snd (handleDrain True drainState drainRequest)))
   \<and> DisconnectSockets ''t2:rX'' \<in> set (snd (snd (handleDrain True drainState drainRequest)))
   \<and> Sleep 30000 \<in> set (snd (snd (handleDrain True drainState drainRequest)))"
proof -
  obtain resp state' acts where e: "handleDrain True drainState drainRequest = (resp, state', acts)"
    by (metis prod_cases3)
  have h1: "jfield (nullish (body drainRequest) (JObj [])) ''draining'' = JBool True"
   and h2: "jfield (nullish (body drainRequest) (JObj [])) ''force'' = JBool True"
    by (simp_all add: drainRequest_def nullish_def)
  note t = forced_drain_order [OF h1 h2 e]
  have m: "''sock-alice'' \<in> pendingSocketsOf drainState"
          "fixtureRoom ''t2'' ''rX'' \<in> snd ` set (rooms drainState)"
    by (simp_all add: pendingSocketsOf_def drainState_def scenarioRoom_def scenarioPending_def)
  have c: "r_channelId (fixtureRoom ''t2'' ''rX'') = ''t2:rX''"
    by (simp add: fixtureRoom_def getRoomChannelId_def)
  have k: "Sleep 30000 \<in> set acts
           \<and> Emit (ToSocket ''sock-alice'') (ServerRestarting None DEFAULT_SERVER_RESTART_NOTICE)
                \<in> set acts"
    using e
    by (auto simp: handleDrain_def drainRequest_def nullish_def Let_def parseRestartNoticeMs_def
          parseRestartNotice_def MAX_SERVER_RESTART_NOTICE_MS_def collectPendingSockets_def
          uniqueInOrder_def drainState_def scenarioRoom_def scenarioPending_def fixtureRoom_def)
  from t m c have "isDraining state' \<and> sorted (map drainPhase acts)
      \<and> DisconnectSocket ''sock-alice'' \<in> set acts \<and> DisconnectSockets ''t2:rX'' \<in> set acts"
    by metis
  with k show ?thesis by (simp add: e)
qed

section \<open>Properties of closing a producer\<close>

lemma removeProducerById_absent:
  "pid \<notin> producerId ` set (c_producers client) \<Longrightarrow> removeProducerById pid client = (None, client)"
  by (auto simp: removeProducerById_def find_None_iff split: option.splits)

lemma removeProducerById_found:
  assumes "removeProducerById pid client = (Some removed, client')"
      and "distinct (map producerId (c_producers client))"
  shows "pid \<notin> producerId ` set (c_producers client')"
proof -
  from assms(1) have f: "find (\<lambda>p. producerId p = pid) (c_producers client) = Some removed"
    and c: "c_producers client' = remove1 removed (c_producers client)"
    by (auto simp: removeProducerById_def split: option.splits)
  from f have i: "producerId removed = pid" and m: "removed \<in> set (c_producers client)"
    by (auto simp: find_Some_iff)
  have d: "distinct (c_producers client)" using assms(2) by (simp add: distinct_map)
  have inj: "inj_on producerId (set (c_producers client))"
    using assms(2) by (simp add: distinct_map)
  show ?thesis
  proof
    assume "pid \<in> producerId ` set (c_producers client')"
    then obtain q where q: "q \<in> set (remove1 removed (c_producers client))" "producerId q = pid"
      using c by auto
    with d have "q \<in> set (c_producers client)" "q \<noteq> removed" by auto
    with inj m i q(2) show False by (auto dest: inj_onD)
  qed
qed

lemma removeProducerById_None:
  "removeProducerById pid client = (None, client') \<Longrightarrow>
     client' = client \<and> pid \<notin> producerId ` set (c_producers client)"
  by (auto simp: removeProducerById_def find_None_iff split: option.splits)

lemma removeFromFirstOwner_absent:
  "pid \<notin> set (producerIds cs) \<Longrightarrow> removeFromFirstOwner pid cs = (None, cs)"
  by (induction cs) (auto simp: producerIds_def removeProducerById_absent)

lemma removeFromFirstOwner_gone:
  assumes "distinct (producerIds cs)"
      and "removeFromFirstOwner pid cs = (found, cs')"
  shows "pid \<notin> set (producerIds cs')"
  using assms
proof (induction cs arbitrary: found cs')
  case Nil
  then show ?case by (simp add: producerIds_def)
next
  case (Cons entry rest)
  obtain r c where rc: "removeProducerById pid (snd entry) = (r, c)" by (cases "removeProducerById pid (snd entry)")
  have d1: "distinct (map producerId (c_producers (snd entry)))"
   and d2: "distinct (producerIds rest)"
   and d3: "set (map producerId (c_producers (snd entry))) \<inter> set (producerIds rest) = {}"
    using Cons.prems(1) by (auto simp: producerIds_def)
  show ?case
  proof (cases r)
    case None
    with rc have e: "c = snd entry" "pid \<notin> producerId ` set (c_producers (snd entry))"
      using removeProducerById_None by auto
    obtain f' r' where rr: "removeFromFirstOwner pid rest = (f', r')"
      by (cases "removeFromFirstOwner pid rest")
    from Cons.IH[OF d2 rr] have "pid \<notin> set (producerIds r')" .
    moreover have "cs' = entry # r'" using Cons.prems(2) rc None rr by simp
    ultimately show ?thesis using e by (auto simp: producerIds_def)
  next
    case (Some removed)
    with rc have g: "pid \<notin> producerId ` set (c_producers c)"
      using removeProducerById_found d1 by blast
    have i: "pid \<in> producerId ` set (c_producers (snd entry))"
      using rc Some by (auto simp: removeProducerById_def find_Some_iff split: option.splits)
    with d3 have "pid \<notin> set (producerIds rest)" by auto
    moreover have "cs' = (fst entry, c) # rest" using Cons.prems(2) rc Some by simp
    ultimately show ?thesis using g by (auto simp: producerIds_def)
  qed
qed

lemma removeFromFirstOwner_None:
  "removeFromFirstOwner pid cs = (None, cs') \<Longrightarrow> cs' = cs"
proof (induction cs arbitrary: cs')
  case Nil
  then show ?case by simp
next
  case (Cons entry rest)
  obtain r c where rc: "removeProducerById pid (snd entry) = (r, c)"
    by (cases "removeProducerById pid (snd entry)")
  obtain f' r' where rr: "removeFromFirstOwner pid rest = (f', r')"
    by (cases "removeFromFirstOwner pid rest")
  from Cons.prems rc rr have n: "r = None" "f' = None" "cs' = entry # r'"
    by (auto split: option.splits)
  with Cons.IH[of r'] rr show ?case by simp
qed

lemma closeProducerById_clients:
  assumes "closeProducerById room pid = (res, room', acts)"
  shows "clients room' = snd (removeFromFirstOwner pid (clients room))"
proof -
  obtain found cs' where f: "removeFromFirstOwner pid (clients room) = (found, cs')"
    by (cases "removeFromFirstOwner pid (clients room)")
  show ?thesis
  proof (cases found)
    case None
    with f have "cs' = clients room" using removeFromFirstOwner_None by blast
    moreover have "room' = room" using assms f None by (simp add: closeProducerById_def)
    ultimately show ?thesis using f by simp
  next
    case (Some cr)
    obtain client removed where cr: "cr = (client, removed)" by (cases cr)
    show ?thesis using assms f Some cr
      by (auto simp: closeProducerById_def Let_def clearScreenShareProducer_def split: if_splits)
  qed
qed

text \<open>
  Claim C6. In a room whose producer ids are pairwise distinct (the media engine gives every
  producer its own id), after \<open>closeProducerById\<close> has run for a producer id, a second
  call for the same id reports \<open>closed = false\<close>, returns the room exactly as the first
  call left it and makes no call on any socket or channel: no \<open>producerClosed\<close>,
  \<open>admin:producerClosed\<close> or \<open>admin:mediaEnforced\<close> is emitted.
\<close>

theorem closeProducerById_idempotent:
  assumes "distinct (producerIds (clients room))"
      and "closeProducerById room pid = (result, room', acts)"
  shows "closeProducerById room' pid
           = (\<lparr>closed = False, closedUserId = None, closedKind = None, closedType = None\<rparr>,
              room', [])"
proof -
  have c: "clients room' = snd (removeFromFirstOwner pid (clients room))"
    using assms(2) by (rule closeProducerById_clients)
  have "pid \<notin> set (producerIds (clients room'))"
    unfolding c using removeFromFirstOwner_gone[OF assms(1)] by (metis prod.collapse)
  then have "removeFromFirstOwner pid (clients room') = (None, clients room')"
    by (rule removeFromFirstOwner_absent)
  then show ?thesis by (simp add: closeProducerById_def)
qed

lemmas media_defs = mediaRoom_def mediaClient_def fixtureRoom_def getRoomChannelId_def

theorem closeProducerById_idempotent_witness:
  "fst (closeProducerById mediaRoom ''b-screen'')
     = \<lparr>closed = True, closedUserId = Some ''bob#s1'', closedKind = Some video,
        closedType = Some screen\<rparr>
   \<and> screenShareProducerId (fst (snd (closeProducerById mediaRoom ''b-screen''))) = None
   \<and> closeProducerById (fst (snd (closeProducerById mediaRoom ''b-screen''))) ''b-screen''
     = (\<lparr>closed = False, closedUserId = None, closedKind = None, closedType = None\<rparr>,
        fst (snd (closeProducerById mediaRoom ''b-screen'')), [])"
proof -
  obtain result room' acts where e: "closeProducerById mediaRoom ''b-screen'' = (result, room', acts)"
    by (metis prod_cases3)
  have d: "distinct (producerIds (clients mediaRoom))"
    by (simp add: producerIds_def media_defs)
  have v: "fst (closeProducerById mediaRoom ''b-screen'')
     = \<lparr>closed = True, closedUserId = Some ''bob#s1'', closedKind = Some video,
        closedType = Some screen\<rparr>
     \<and> screenShareProducerId (fst (snd (closeProducerById mediaRoom ''b-screen''))) = None"
    by (simp add: closeProducerById_def removeProducerById_def clearScreenShareProducer_def
          Let_def media_defs)
  from closeProducerById_idempotent [OF d e] v show ?thesis by (simp add: e)
qed

section \<open>Properties of the bulk closure\<close>

lemma sameClient_refl [simp]: "sameClient c c"
  by (simp add: sameClient_def)

lemma sameClient_trans: "sameClient a b \<Longrightarrow> sameClient b c \<Longrightarrow> sameClient a c"
  by (simp add: sameClient_def)

lemma sameClient_sym: "sameClient a b \<Longrightarrow> sameClient b a"
  by (simp add: sameClient_def)

lemma removeProducerById_shape:
  assumes "removeProducerById pid c = (r, c')"
  shows "sameClient c c'
       \<and> (r = None \<longrightarrow> c' = c)
       \<and> (r \<noteq> None \<longrightarrow> Suc (length (c_producers c')) = length (c_producers c))"
proof (cases "find (\<lambda>p. producerId p = pid) (c_producers c)")
  case None
  with assms show ?thesis by (simp add: removeProducerById_def)
next
  case (Some p)
  then have m: "p \<in> set (c_producers c)" by (auto simp: find_Some_iff)
  then have "length (c_producers c) > 0" by (cases "c_producers c") auto
  with assms Some m show ?thesis
    by (auto simp: removeProducerById_def sameClient_def length_remove1)
qed

lemma notify_no_bulk: "\<not> list_ex isBulkEvent (notifyProducerClosed room uid pid)"
  by (simp add: notifyProducerClosed_def list_ex_iff isBulkEvent_def image_iff)

lemma closeInfo_inv:
  assumes "closeInfo uid info (t, r, a, cl) = (t', r', a', cl')"
  shows "sameClient t t'
       \<and> clients r' = clients r \<and> r_channelId r' = r_channelId r \<and> r_id r' = r_id r
       \<and> length (c_producers t') + length cl' = length (c_producers t) + length cl
       \<and> (list_ex isBulkEvent a' \<longleftrightarrow> list_ex isBulkEvent a)"
proof -
  obtain x t2 where rm: "removeProducerById (producerId info) t = (x, t2)"
    by (cases "removeProducerById (producerId info) t")
  note sh = removeProducerById_shape[OF rm]
  show ?thesis
  proof (cases x)
    case None
    with assms rm show ?thesis by (simp add: closeInfo_def)
  next
    case (Some removed)
    with assms rm sh show ?thesis
      using notify_no_bulk
      by (auto simp: closeInfo_def Let_def clearScreenShareProducer_def split: if_splits)
  qed
qed

lemma fold_closeInfo_inv:
  assumes "fold (closeInfo uid) infos (t, r, a, cl) = (t', r', a', cl')"
  shows "sameClient t t'
       \<and> clients r' = clients r \<and> r_channelId r' = r_channelId r \<and> r_id r' = r_id r
       \<and> length (c_producers t') + length cl' = length (c_producers t) + length cl
       \<and> (list_ex isBulkEvent a' \<longleftrightarrow> list_ex isBulkEvent a)"
  using assms
proof (induction infos arbitrary: t r a cl)
  case Nil
  then show ?case by simp
next
  case (Cons info infos)
  obtain t1 r1 a1 cl1 where s: "closeInfo uid info (t, r, a, cl) = (t1, r1, a1, cl1)"
    by (metis prod_cases4)
  from Cons.prems s have f: "fold (closeInfo uid) infos (t1, r1, a1, cl1) = (t', r', a', cl')" by simp
  from closeInfo_inv[OF s] Cons.IH[OF f] show ?case
    by (auto intro: sameClient_trans)
qed


lemma sameEntry_refl [simp]: "sameEntry e e"
  by (simp add: sameEntry_def)

lemma updateClient_inv:
  assumes "map_of cs uid = Some t" and "sameClient t t'"
  shows "list_all2 (keptEntry uid) cs (updateClient uid t' cs)
       \<and> sum_list (map (\<lambda>entry. length (c_producers (snd entry))) (updateClient uid t' cs))
           + length (c_producers t)
         = sum_list (map (\<lambda>entry. length (c_producers (snd entry))) cs) + length (c_producers t')"
  using assms
proof (induction cs)
  case Nil
  then show ?case by simp
next
  case (Cons entry rest)
  show ?case
  proof (cases "fst entry = uid")
    case True
    with Cons.prems have "snd entry = t" by (cases entry) auto
    with True Cons.prems(2) show ?thesis
      by (auto simp: keptEntry_def sameEntry_def list_all2_same)
  next
    case False
    with Cons.prems have "map_of rest uid = Some t" by (cases entry) auto
    from Cons.IH[OF this Cons.prems(2)] False show ?thesis
      by (auto simp: keptEntry_def)
  qed
qed

lemma closeClientProducers_inv:
  assumes "closeClientProducers room uid sel reason = ((cnt, cl), room2, acts)"
  shows "cnt + totalProducers room2 = totalProducers room
       \<and> list_all2 (keptEntry uid) (clients room) (clients room2)
       \<and> r_channelId room2 = r_channelId room \<and> r_id room2 = r_id room
       \<and> \<not> list_ex isBulkEvent acts"
proof (cases "getClient room uid")
  case None
  with assms show ?thesis
    by (auto simp: closeClientProducers_def keptEntry_def list_all2_same)
next
  case (Some target)
  let ?infos = "filter (\<lambda>info. shouldCloseProducer info sel) (getProducerInfos target)"
  obtain t' r1 a1 cl1 where f: "fold (closeInfo uid) ?infos (target, room, [], []) = (t', r1, a1, cl1)"
    by (metis prod_cases4)
  note i = fold_closeInfo_inv[OF f]
  have m: "map_of (clients r1) uid = Some target" using Some i by (simp add: getClient_def)
  from i have st: "sameClient target t'" by simp
  note u = updateClient_inv[OF m st]
  have e: "cnt = length cl1" "cl = cl1"
          "room2 = r1\<lparr>clients := updateClient uid t' (clients r1)\<rparr>"
          "acts = a1 @ (if length cl1 > 0
                              then [WebinarFeedChanged (r_channelId room2),
                                    Emit (ToSocket (c_socket t'))
                                      (AdminMediaEnforcedMany (r_id room2) uid reason cl1)]
                              else [])"
    using assms Some f by (auto simp: closeClientProducers_def Let_def)
  have b: "\<not> list_ex isBulkEvent acts"
    using i by (simp add: e(4) isBulkEvent_def)
  have c: "cnt + totalProducers room2 = totalProducers room"
    using u i by (simp add: e totalProducers_def)
  from u i b c show ?thesis by (simp add: e(3))
qed
lemma bulkStep_inv:
  assumes "bulkStep sel reason ia ig iat c (res, r, a) = (res', r', a')"
  shows "affectedProducers res' + totalProducers r' = affectedProducers res + totalProducers r
       \<and> list_all2 (keptEntry (c_id c)) (clients r) (clients r')
       \<and> r_channelId r' = r_channelId r \<and> r_id r' = r_id r
       \<and> (list_ex isBulkEvent a' \<longleftrightarrow> list_ex isBulkEvent a)
       \<and> (\<not> ia \<and> c_isAdmin c \<longrightarrow> r' = r \<and> res' = res)
       \<and> set (users res') \<subseteq> insert (c_id c) (set (users res))"
proof (cases "(\<not> ia \<and> c_isAdmin c) \<or> (\<not> ig \<and> c_isGhost c) \<or> (\<not> iat \<and> c_isWebinarAttendee c)")
  case True
  with assms have "res' = res" "r' = r" "a' = a" by (auto simp: bulkStep_def split: if_splits)
  then show ?thesis by (auto simp: keptEntry_def list_all2_same)
next
  case False
  obtain cnt cl r2 a2 where cc: "closeClientProducers r (c_id c) (Some sel) reason = ((cnt, cl), r2, a2)"
    by (metis prod_cases3 surj_pair)
  note i = closeClientProducers_inv[OF cc]
  from assms False cc have e: "r' = r2" "a' = a @ a2"
    "res' = (if cnt > 0 then \<lparr>affectedUsers = affectedUsers res + 1,
                      affectedProducers = affectedProducers res + cnt,
                      users = users res @ [c_id c]\<rparr> else res)"
    by (auto simp: bulkStep_def split: if_splits)
  from i False show ?thesis by (auto simp: e)
qed

lemma keptEntry_sameEntry: "list_all2 (keptEntry uid) cs cs' \<Longrightarrow> list_all2 sameEntry cs cs'"
  by (erule list_all2_mono) (simp add: keptEntry_def)

lemma sameEntry_trans: "sameEntry a b \<Longrightarrow> sameEntry b c \<Longrightarrow> sameEntry a c"
  by (auto simp: sameEntry_def intro: sameClient_trans)

lemma bulk_fold_inv:
  assumes "fold (bulkStep sel reason ia ig iat) todo (res, r, a) = (res', r', a')"
  shows "affectedProducers res' + totalProducers r' = affectedProducers res + totalProducers r
       \<and> list_all2 sameEntry (clients r) (clients r')
       \<and> r_channelId r' = r_channelId r \<and> r_id r' = r_id r
       \<and> (list_ex isBulkEvent a' \<longleftrightarrow> list_ex isBulkEvent a)"
  using assms
proof (induction todo arbitrary: res r a)
  case Nil
  then show ?case by (simp add: list_all2_same)
next
  case (Cons c todo)
  obtain res1 r1 a1 where s: "bulkStep sel reason ia ig iat c (res, r, a) = (res1, r1, a1)"
    by (metis prod_cases3)
  from Cons.prems s have f: "fold (bulkStep sel reason ia ig iat) todo (res1, r1, a1) = (res', r', a')"
    by simp
  note i = bulkStep_inv[OF s] and h = Cons.IH[OF f]
  from i have k: "list_all2 sameEntry (clients r) (clients r1)" by (auto intro: keptEntry_sameEntry)
  have "list_all2 sameEntry (clients r) (clients r')"
    using k h by (auto intro: list_all2_trans[of sameEntry sameEntry sameEntry] sameEntry_trans)
  with i h show ?case by auto
qed

lemma wellFormed_key_unique:
  assumes "wellFormedClients r" and "e \<in> set (clients r)" and "e2 \<in> set (clients r)"
      and "fst e2 = fst e"
  shows "e2 = e"
proof -
  have d: "distinct (map fst (clients r))" using assms(1) by (simp add: wellFormedClients_def)
  have "(fst e, snd e) \<in> set (clients r)" "(fst e, snd e2) \<in> set (clients r)"
    using assms(2,3,4) by (metis prod.collapse)+
  with d have "snd e = snd e2" by (rule eq_key_imp_eq_value)
  with assms(4) show ?thesis by (simp add: prod_eq_iff)
qed

lemma wellFormed_id: "wellFormedClients r \<Longrightarrow> e \<in> set (clients r) \<Longrightarrow> c_id (snd e) = fst e"
  by (auto simp: wellFormedClients_def list_all_iff)

lemma wellFormed_sameEntry:
  assumes "wellFormedClients r" and "list_all2 sameEntry (clients r) (clients r')"
  shows "wellFormedClients r'"
proof -
  from assms(2) have k: "map fst (clients r') = map fst (clients r)"
    by (induction rule: list_all2_induct) (auto simp: sameEntry_def)
  have "list_all (\<lambda>entry. c_id (snd entry) = fst entry) (clients r')"
    using assms(2) assms(1)[unfolded wellFormedClients_def, THEN conjunct2]
    by (induction rule: list_all2_induct) (auto simp: sameEntry_def sameClient_def)
  with k assms(1) show ?thesis by (simp add: wellFormedClients_def)
qed


lemma list_all2_counterpart:
  "list_all2 P xs ys \<Longrightarrow> x \<in> set xs \<Longrightarrow> \<exists>y \<in> set ys. P x y"
  by (induction rule: list_all2_induct) auto

lemma adminKept_trans: "adminKept a b \<Longrightarrow> adminKept b c \<Longrightarrow> adminKept a c"
  by (auto simp: adminKept_def intro: sameEntry_trans)

lemma bulk_fold_admin:
  assumes "\<not> ia"
      and "fold (bulkStep sel reason ia ig iat) todo (res, r, a) = (res', r', a')"
      and "wellFormedClients r"
      and "\<forall>c \<in> set todo. \<exists>e \<in> set (clients r). sameClient (snd e) c"
  shows "list_all2 adminKept (clients r) (clients r')
       \<and> (\<forall>x \<in> set (users res'). x \<in> set (users res)
             \<or> (\<exists>c \<in> set todo. \<not> c_isAdmin c \<and> c_id c = x))"
  using assms(2,3,4)
proof (induction todo arbitrary: res r a)
  case Nil
  then show ?case by (simp add: list_all2_same adminKept_def)
next
  case (Cons c todo)
  obtain res1 r1 a1 where s: "bulkStep sel reason ia ig iat c (res, r, a) = (res1, r1, a1)"
    by (metis prod_cases3)
  from Cons.prems(1) s
  have f: "fold (bulkStep sel reason ia ig iat) todo (res1, r1, a1) = (res', r', a')" by simp
  note i = bulkStep_inv[OF s]
  from i have k: "list_all2 (keptEntry (c_id c)) (clients r) (clients r1)" by simp
  then have se: "list_all2 sameEntry (clients r) (clients r1)" by (rule keptEntry_sameEntry)
  have wf1: "wellFormedClients r1" using Cons.prems(2) se by (rule wellFormed_sameEntry)
  from Cons.prems(3) obtain e where e: "e \<in> set (clients r)" "sameClient (snd e) c" by auto
  have ak: "list_all2 adminKept (clients r) (clients r1)"
  proof (cases "c_isAdmin c")
    case True
    with i assms(1) have "r1 = r" by simp
    then show ?thesis by (simp add: list_all2_same adminKept_def)
  next
    case False
    have "\<And>x y. x \<in> set (clients r) \<Longrightarrow> keptEntry (c_id c) x y \<Longrightarrow> adminKept x y"
    proof -
      fix x y assume x: "x \<in> set (clients r)" and ke: "keptEntry (c_id c) x y"
      show "adminKept x y"
      proof (cases "fst x = c_id c")
        case True
        have "fst e = c_id c"
          using wellFormed_id[OF Cons.prems(2) e(1)] e(2) by (simp add: sameClient_def)
        with True have "x = e" using wellFormed_key_unique[OF Cons.prems(2) e(1) x] by simp
        with e(2) False have "\<not> c_isAdmin (snd x)" by (simp add: sameClient_def)
        with ke show ?thesis by (simp add: adminKept_def keptEntry_def)
      next
        case False
        with ke show ?thesis by (simp add: adminKept_def keptEntry_def)
      qed
    qed
    with k show ?thesis by (auto intro: list.rel_mono_strong)
  qed
  have t1: "\<forall>c' \<in> set todo. \<exists>e1 \<in> set (clients r1). sameClient (snd e1) c'"
  proof
    fix c' assume "c' \<in> set todo"
    with Cons.prems(3) obtain e0 where e0: "e0 \<in> set (clients r)" "sameClient (snd e0) c'" by auto
    from list_all2_counterpart[OF se e0(1)] obtain e1 where
      e1: "e1 \<in> set (clients r1)" "sameEntry e0 e1" by auto
    then have "sameClient (snd e1) c'"
      using e0(2) by (auto simp: sameEntry_def intro: sameClient_trans sameClient_sym)
    with e1(1) show "\<exists>e1 \<in> set (clients r1). sameClient (snd e1) c'" by blast
  qed
  note h = Cons.IH[OF f wf1 t1]
  have a2: "list_all2 adminKept (clients r) (clients r')"
    using ak h by (auto intro: list_all2_trans[of adminKept adminKept adminKept] adminKept_trans)
  have u: "\<forall>x \<in> set (users res'). x \<in> set (users res)
             \<or> (\<exists>c' \<in> set (c # todo). \<not> c_isAdmin c' \<and> c_id c' = x)"
  proof
    fix x assume "x \<in> set (users res')"
    with h have "x \<in> set (users res1) \<or> (\<exists>c' \<in> set todo. \<not> c_isAdmin c' \<and> c_id c' = x)" by blast
    moreover have "x \<in> set (users res1) \<Longrightarrow> x \<in> set (users res) \<or> (\<not> c_isAdmin c \<and> c_id c = x)"
      using i assms(1) by (cases "c_isAdmin c") auto
    ultimately show "x \<in> set (users res)
             \<or> (\<exists>c' \<in> set (c # todo). \<not> c_isAdmin c' \<and> c_id c' = x)" by auto
  qed
  from a2 u show ?case by blast
qed


lemma adminKept_member:
  assumes "list_all2 adminKept cs cs'" and "e \<in> set cs" and "c_isAdmin (snd e)"
  shows "e \<in> set cs'"
  using list_all2_counterpart[OF assms(1,2)] assms(3) by (auto simp: adminKept_def)

lemma performBulkMediaClosure_props:
  assumes "wellFormedClients room"
      and "currentRoom context = Some room"
      and "performBulkMediaClosure context selector reason includeAdmins includeGhosts
             includeAttendees = (result, after, acts)"
  shows "\<exists>room'. after = Some room'
       \<and> (\<not> includeAdmins \<longrightarrow>
            (\<forall>e \<in> set (clients room). c_isAdmin (snd e) \<longrightarrow>
               e \<in> set (clients room') \<and> c_id (snd e) \<notin> set (users result)))
       \<and> affectedProducers result + totalProducers room' = totalProducers room
       \<and> (list_ex isBulkEvent acts \<longleftrightarrow> totalProducers room' < totalProducers room)
       \<and> (list_ex isBulkEvent acts \<longrightarrow>
            last acts = Emit (ToChannel (r_channelId room))
                          (AdminBulkMediaEnforced (r_id room) reason (users result)
                             (affectedUsers result) (affectedProducers result))
            \<and> \<not> list_ex isBulkEvent (butlast acts))"
proof -
  let ?step = "bulkStep selector reason includeAdmins includeGhosts includeAttendees"
  let ?z = "\<lparr>affectedUsers = 0, affectedProducers = 0, users = []\<rparr>"
  obtain res r' a where f: "fold ?step (map snd (clients room)) (?z, room, []) = (res, r', a)"
    by (metis prod_cases3)
  have e: "result = res" "after = Some r'"
    "acts = a @ (if affectedProducers res > 0
                        then [Emit (ToChannel (r_channelId r'))
                                (AdminBulkMediaEnforced (r_id r') reason (users res)
                                   (affectedUsers res) (affectedProducers res))]
                        else [])"
    using assms(2,3) f by (auto simp: performBulkMediaClosure_def)
  note i = bulk_fold_inv[OF f]
  have nb: "\<not> list_ex isBulkEvent a" using i by simp
  have cnt: "affectedProducers res + totalProducers r' = totalProducers room" using i by simp
  have ev: "list_ex isBulkEvent acts \<longleftrightarrow> affectedProducers res > 0"
    using nb by (auto simp: e(3) isBulkEvent_def)
  have adm: "\<not> includeAdmins \<longrightarrow>
            (\<forall>e \<in> set (clients room). c_isAdmin (snd e) \<longrightarrow>
               e \<in> set (clients r') \<and> c_id (snd e) \<notin> set (users res))"
  proof (intro impI ballI)
    fix e assume ia: "\<not> includeAdmins" and m: "e \<in> set (clients room)" and ad: "c_isAdmin (snd e)"
    have t: "\<forall>c \<in> set (map snd (clients room)). \<exists>e \<in> set (clients room). sameClient (snd e) c"
      by (force simp: sameClient_def)
    note b = bulk_fold_admin[OF ia f assms(1) t]
    have k: "e \<in> set (clients r')" using b m ad adminKept_member by blast
    have "c_id (snd e) \<notin> set (users res)"
    proof
      assume "c_id (snd e) \<in> set (users res)"
      with b obtain e2 where e2': "e2 \<in> set (clients room)" "\<not> c_isAdmin (snd e2)"
        "c_id (snd e2) = c_id (snd e)" by auto
      define c where "c = snd e2"
      have c: "\<not> c_isAdmin c" "c_id c = c_id (snd e)" and e2: "e2 \<in> set (clients room)" "snd e2 = c"
        using e2' by (simp_all add: c_def)
      have "fst e2 = fst e"
        using wellFormed_id[OF assms(1) e2(1)] wellFormed_id[OF assms(1) m] c(2) e2(2) by simp
      then have "e2 = e" using wellFormed_key_unique[OF assms(1) m e2(1)] by simp
      with e2(2) c(1) ad show False by simp
    qed
    with k show "e \<in> set (clients r') \<and> c_id (snd e) \<notin> set (users res)" by simp
  qed
  have lst: "list_ex isBulkEvent acts \<longrightarrow>
            last acts = Emit (ToChannel (r_channelId room))
                          (AdminBulkMediaEnforced (r_id room) reason (users res)
                             (affectedUsers res) (affectedProducers res))
            \<and> \<not> list_ex isBulkEvent (butlast acts)"
    using ev nb i by (auto simp: e(3))
  from e adm cnt ev lst show ?thesis by auto
qed


lemma ensureAdminRoom_current:
  "ensureAdminRoom context = Inr (room, adminId) \<Longrightarrow> currentRoom context = Some room"
  by (auto simp: ensureAdminRoom_def split: option.splits if_splits)

lemma toBulkMediaOptions_admins:
  "\<not> truthy (jfield data ''includeAdmins'') \<Longrightarrow> \<not> fst (toBulkMediaOptions data)"
  by (cases data) (simp_all add: toBulkMediaOptions_def)

lemma bulkHandler_result:
  assumes "ensureAdminRoom context = Inr (room, adminId)"
      and "bulkHandler sel reason context data = (ack, after, acts)"
  shows "\<exists>result. performBulkMediaClosure context sel reason (fst (toBulkMediaOptions data))
                     (fst (snd (toBulkMediaOptions data))) (snd (snd (toBulkMediaOptions data)))
                   = (result, after, acts)"
  using assms by (auto simp: bulkHandler_def split: prod.splits)

text \<open>
  Claim C9. For a room whose \<open>clients\<close> map is keyed by participant id, a bulk closure
  with \<open>includeAdmins\<close> false leaves every admin's entry exactly as it was and lists no
  admin among the affected users; the number of affected producers is the number of
  producers removed from the room; the room-wide \<open>admin:bulkMediaEnforced\<close> event is among
  the calls exactly when the room lost a producer, and then it is the last call and the only
  one of its kind. The handlers \<open>muteAll\<close>, \<open>closeAllVideo\<close> and
  \<open>admin:stopAllScreenShare\<close>, called by an admin of the room with a payload whose
  \<open>includeAdmins\<close> is not truthy, spare the admins and emit the event under the same condition.
\<close>

theorem bulk_closure_spares_admins:
  assumes "wellFormedClients room"
      and "currentRoom context = Some room"
  shows "(\<forall>selector reason includeAdmins includeGhosts includeAttendees result after acts.
            performBulkMediaClosure context selector reason includeAdmins includeGhosts
              includeAttendees = (result, after, acts)
          \<longrightarrow> (\<exists>room'. after = Some room'
                \<and> (\<not> includeAdmins \<longrightarrow>
                     (\<forall>e \<in> set (clients room). c_isAdmin (snd e) \<longrightarrow>
                        e \<in> set (clients room') \<and> c_id (snd e) \<notin> set (users result)))
                \<and> affectedProducers result + totalProducers room' = totalProducers room
                \<and> (list_ex isBulkEvent acts \<longleftrightarrow> totalProducers room' < totalProducers room)
                \<and> (list_ex isBulkEvent acts \<longrightarrow>
                     last acts = Emit (ToChannel (r_channelId room))
                                   (AdminBulkMediaEnforced (r_id room) reason (users result)
                                      (affectedUsers result) (affectedProducers result))
                     \<and> \<not> list_ex isBulkEvent (butlast acts))))
       \<and> (\<forall>handler data ack after acts.
            (handler = muteAllHandler \<or> handler = closeAllVideoHandler
               \<or> handler = stopAllScreenShareHandler)
            \<and> (\<exists>adminId. ensureAdminRoom context = Inr (room, adminId))
            \<and> \<not> truthy (jfield data ''includeAdmins'')
            \<and> handler context data = (ack, after, acts)
          \<longrightarrow> (\<exists>room'. after = Some room'
                \<and> (\<forall>e \<in> set (clients room). c_isAdmin (snd e) \<longrightarrow> e \<in> set (clients room'))
                \<and> (list_ex isBulkEvent acts \<longleftrightarrow> totalProducers room' < totalProducers room)))"
proof (rule conjI)
  show "\<forall>selector reason includeAdmins includeGhosts includeAttendees result after acts.
            performBulkMediaClosure context selector reason includeAdmins includeGhosts
              includeAttendees = (result, after, acts)
          \<longrightarrow> (\<exists>room'. after = Some room'
                \<and> (\<not> includeAdmins \<longrightarrow>
                     (\<forall>e \<in> set (clients room). c_isAdmin (snd e) \<longrightarrow>
                        e \<in> set (clients room') \<and> c_id (snd e) \<notin> set (users result)))
                \<and> affectedProducers result + totalProducers room' = totalProducers room
                \<and> (list_ex isBulkEvent acts \<longleftrightarrow> totalProducers room' < totalProducers room)
                \<and> (list_ex isBulkEvent acts \<longrightarrow>
                     last acts = Emit (ToChannel (r_channelId room))
                                   (AdminBulkMediaEnforced (r_id room) reason (users result)
                                      (affectedUsers result) (affectedProducers result))
                     \<and> \<not> list_ex isBulkEvent (butlast acts)))"
    using performBulkMediaClosure_props[OF assms] by blast
next
  show "\<forall>handler data ack after acts.
            (handler = muteAllHandler \<or> handler = closeAllVideoHandler
               \<or> handler = stopAllScreenShareHandler)
            \<and> (\<exists>adminId. ensureAdminRoom context = Inr (room, adminId))
            \<and> \<not> truthy (jfield data ''includeAdmins'')
            \<and> handler context data = (ack, after, acts)
          \<longrightarrow> (\<exists>room'. after = Some room'
                \<and> (\<forall>e \<in> set (clients room). c_isAdmin (snd e) \<longrightarrow> e \<in> set (clients room'))
                \<and> (list_ex isBulkEvent acts \<longleftrightarrow> totalProducers room' < totalProducers room))"
  proof (intro allI impI)
    fix handler data ack after acts
    assume h: "(handler = muteAllHandler \<or> handler = closeAllVideoHandler
               \<or> handler = stopAllScreenShareHandler)
            \<and> (\<exists>adminId. ensureAdminRoom context = Inr (room, adminId))
            \<and> \<not> truthy (jfield data ''includeAdmins'')
            \<and> handler context data = (ack, after, acts)"
    then obtain adminId where g: "ensureAdminRoom context = Inr (room, adminId)" by blast
    from h obtain sel reason where b: "bulkHandler sel reason context data = (ack, after, acts)"
      by (auto simp: muteAllHandler_def closeAllVideoHandler_def stopAllScreenShareHandler_def)
    from bulkHandler_result[OF g b] obtain result where
      p: "performBulkMediaClosure context sel reason (fst (toBulkMediaOptions data))
            (fst (snd (toBulkMediaOptions data))) (snd (snd (toBulkMediaOptions data)))
          = (result, after, acts)" by blast
    from h have na: "\<not> fst (toBulkMediaOptions data)" by (simp add: toBulkMediaOptions_admins)
    from performBulkMediaClosure_props[OF assms p] na
    show "\<exists>room'. after = Some room'
                \<and> (\<forall>e \<in> set (clients room). c_isAdmin (snd e) \<longrightarrow> e \<in> set (clients room'))
                \<and> (list_ex isBulkEvent acts \<longleftrightarrow> totalProducers room' < totalProducers room)"
      by blast
  qed
qed

theorem bulk_closure_spares_admins_witness:
  "wellFormedClients mediaRoom
   \<and> list_ex isBulkEvent (snd (snd (muteAllHandler mediaContext (JObj []))))
   \<and> (\<exists>room'. roomAfter (muteAllHandler mediaContext (JObj [])) = Some room'
         \<and> (''host#s1'', mediaClient ''host'' True
              [\<lparr>producerId = ''h-audio'', kind = audio, producerType = webcam, paused = False\<rparr>])
             \<in> set (clients room')
         \<and> totalProducers room' < totalProducers mediaRoom)
   \<and> \<not> list_ex isBulkEvent (snd (snd (closeAllVideoHandler mediaContext (JObj []))))
   \<and> (\<exists>room'. roomAfter (closeAllVideoHandler mediaContext (JObj [])) = Some room'
         \<and> \<not> totalProducers room' < totalProducers mediaRoom)"
proof -
  let ?h = "(''host#s1'', mediaClient ''host'' True
              [\<lparr>producerId = ''h-audio'', kind = audio, producerType = webcam, paused = False\<rparr>])"
  have wf: "wellFormedClients mediaRoom"
    by (simp add: wellFormedClients_def media_defs)
  have cr: "currentRoom mediaContext = Some mediaRoom" by (simp add: mediaContext_def)
  have g: "\<exists>adminId. ensureAdminRoom mediaContext = Inr (mediaRoom, adminId)"
    by (simp add: ensureAdminRoom_def mediaContext_def mediaClient_def)
  have nt: "\<not> truthy (jfield (JObj []) ''includeAdmins'')" by (simp add: truthy_def)
  have hm: "?h \<in> set (clients mediaRoom)" "c_isAdmin (snd ?h)"
    by (simp_all add: media_defs)
  note t = bulk_closure_spares_admins[OF wf cr, THEN conjunct2, rule_format]
  obtain ack1 after1 acts1 where m: "muteAllHandler mediaContext (JObj []) = (ack1, after1, acts1)"
    by (metis prod_cases3)
  obtain ack2 after2 acts2 where v: "closeAllVideoHandler mediaContext (JObj []) = (ack2, after2, acts2)"
    by (metis prod_cases3)
  have ev1: "list_ex isBulkEvent acts1"
    using m
    by (auto simp: muteAllHandler_def bulkHandler_def performBulkMediaClosure_def bulkStep_def
          closeClientProducers_def closeInfo_def removeProducerById_def shouldCloseProducer_def
          getProducerInfos_def getClient_def notifyProducerClosed_def toBulkMediaOptions_def
          truthy_def ensureAdminRoom_def mediaContext_def media_defs isBulkEvent_def Let_def)
  have ev2: "\<not> list_ex isBulkEvent acts2"
    using v
    by (auto simp: closeAllVideoHandler_def bulkHandler_def performBulkMediaClosure_def bulkStep_def
          closeClientProducers_def closeInfo_def removeProducerById_def shouldCloseProducer_def
          getProducerInfos_def getClient_def notifyProducerClosed_def toBulkMediaOptions_def
          truthy_def ensureAdminRoom_def mediaContext_def media_defs isBulkEvent_def Let_def)
  from t[of muteAllHandler "JObj []" ack1 after1 acts1] g nt m
  obtain r1 where r1: "after1 = Some r1"
      "\<forall>e \<in> set (clients mediaRoom). c_isAdmin (snd e) \<longrightarrow> e \<in> set (clients r1)"
      "list_ex isBulkEvent acts1 \<longleftrightarrow> totalProducers r1 < totalProducers mediaRoom"
    by blast
  from t[of closeAllVideoHandler "JObj []" ack2 after2 acts2] g nt v
  obtain r2 where r2: "after2 = Some r2"
      "list_ex isBulkEvent acts2 \<longleftrightarrow> totalProducers r2 < totalProducers mediaRoom"
    by blast
  from r1 hm ev1 r2 ev2 wf show ?thesis
    by (auto simp: roomAfter_def m v)
qed

section \<open>Properties of the access lists under the admin mutations\<close>

lemma sameAccess_refl [simp]: "sameAccess room room"
  by (simp add: sameAccess_def)













lemma overlap_allow: "(B - K) \<inter> (A \<union> K) = B \<inter> A - K"
  by blast




section \<open>Properties of the minutes route\<close>

lemma minutesReply_fields [simp]:
  "minutesGenerationInFlight (minutesReply r x s) = minutesGenerationInFlight s"
  "generations (minutesReply r x s) = generations s"
  "generatorCalls (minutesReply r x s) = generatorCalls s"
  "nextGeneration (minutesReply r x s) = nextGeneration s"
  "cachedMinutes (minutesReply r x s) = cachedMinutes s"
  by (simp_all add: minutesReply_def)

lemma registryConsistent_initial: "registryConsistent initialMinutes"
  by (simp add: registryConsistent_def initialMinutes_def)

lemma registryConsistent_reply: "registryConsistent s \<Longrightarrow> registryConsistent (minutesReply r x s)"
  by (simp add: registryConsistent_def)

lemma registered_unsettled:
  "registryConsistent s \<Longrightarrow> minutesGenerationInFlight s channelId = Some g
     \<Longrightarrow> \<exists>gen. generations s g = Some gen \<and> g_channelId gen = channelId"
  unfolding registryConsistent_def by blast

lemma unsettled_registered:
  "registryConsistent s \<Longrightarrow> generations s g = Some gen
     \<Longrightarrow> minutesGenerationInFlight s (g_channelId gen) = Some g"
  unfolding registryConsistent_def by blast

lemma unsettled_called:
  "registryConsistent s \<Longrightarrow> generations s g = Some gen
     \<Longrightarrow> (g, g_channelId gen) \<in> set (generatorCalls s)"
  unfolding registryConsistent_def by blast

lemma called_below:
  "registryConsistent s \<Longrightarrow> call \<in> set (generatorCalls s) \<Longrightarrow> fst call < nextGeneration s"
  unfolding registryConsistent_def by blast

lemma calls_distinct: "registryConsistent s \<Longrightarrow> distinct (map fst (generatorCalls s))"
  unfolding registryConsistent_def by blast

lemma registryConsistentI:
  assumes "\<And>channelId g. minutesGenerationInFlight s channelId = Some g
             \<Longrightarrow> \<exists>gen. generations s g = Some gen \<and> g_channelId gen = channelId"
      and "\<And>g gen. generations s g = Some gen
             \<Longrightarrow> minutesGenerationInFlight s (g_channelId gen) = Some g"
      and "\<And>g gen. generations s g = Some gen
             \<Longrightarrow> (g, g_channelId gen) \<in> set (generatorCalls s)"
      and "\<And>call. call \<in> set (generatorCalls s) \<Longrightarrow> fst call < nextGeneration s"
      and "distinct (map fst (generatorCalls s))"
  shows "registryConsistent s"
  unfolding registryConsistent_def using assms by blast

lemma registryConsistent_join:
  assumes c: "registryConsistent s" and g: "generations s g = Some gen"
  shows "registryConsistent (s\<lparr>generations := (generations s)(g \<mapsto> gen\<lparr>g_joiners := js\<rparr>)\<rparr>)"
proof (rule registryConsistentI)
  fix channelId g'
  assume "minutesGenerationInFlight
            (s\<lparr>generations := (generations s)(g \<mapsto> gen\<lparr>g_joiners := js\<rparr>)\<rparr>) channelId = Some g'"
  then have "minutesGenerationInFlight s channelId = Some g'" by simp
  from registered_unsettled [OF c this] g
  show "\<exists>gen'. generations (s\<lparr>generations := (generations s)(g \<mapsto> gen\<lparr>g_joiners := js\<rparr>)\<rparr>) g'
                  = Some gen' \<and> g_channelId gen' = channelId"
    by (cases "g' = g") auto
next
  fix g' gen'
  assume a: "generations (s\<lparr>generations := (generations s)(g \<mapsto> gen\<lparr>g_joiners := js\<rparr>)\<rparr>) g'
               = Some gen'"
  then obtain gen0 where g0: "generations s g' = Some gen0" "g_channelId gen0 = g_channelId gen'"
    using g by (cases "g' = g") auto
  from unsettled_registered [OF c g0(1)] g0(2)
  show "minutesGenerationInFlight
          (s\<lparr>generations := (generations s)(g \<mapsto> gen\<lparr>g_joiners := js\<rparr>)\<rparr>) (g_channelId gen')
          = Some g'"
    by simp
  from unsettled_called [OF c g0(1)] g0(2)
  show "(g', g_channelId gen')
          \<in> set (generatorCalls (s\<lparr>generations := (generations s)(g \<mapsto> gen\<lparr>g_joiners := js\<rparr>)\<rparr>))"
    by simp
next
  fix call
  assume "call \<in> set (generatorCalls (s\<lparr>generations := (generations s)(g \<mapsto> gen\<lparr>g_joiners := js\<rparr>)\<rparr>))"
  then show "fst call < nextGeneration (s\<lparr>generations := (generations s)(g \<mapsto> gen\<lparr>g_joiners := js\<rparr>)\<rparr>)"
    using called_below [OF c] by simp
next
  show "distinct (map fst (generatorCalls (s\<lparr>generations := (generations s)(g \<mapsto> gen\<lparr>g_joiners := js\<rparr>)\<rparr>)))"
    using calls_distinct [OF c] by simp
qed

lemma next_fresh:
  assumes c: "registryConsistent s"
  shows "generations s (nextGeneration s) = None"
    and "nextGeneration s \<notin> fst ` set (generatorCalls s)"
    and "minutesGenerationInFlight s channelId \<noteq> Some (nextGeneration s)"
proof -
  show n: "nextGeneration s \<notin> fst ` set (generatorCalls s)"
    using called_below [OF c] by fastforce
  show f: "generations s (nextGeneration s) = None"
  proof (cases "generations s (nextGeneration s)")
    case (Some gen)
    from unsettled_called [OF c Some] n show ?thesis by force
  qed simp
  show "minutesGenerationInFlight s channelId \<noteq> Some (nextGeneration s)"
    using registered_unsettled [OF c, of channelId "nextGeneration s"] f by auto
qed

lemma registryConsistent_start:
  assumes c: "registryConsistent s" and n: "minutesGenerationInFlight s channelId = None"
  shows "registryConsistent
           (s\<lparr>generations := (generations s)
                 (nextGeneration s \<mapsto> \<lparr>g_channelId = channelId, g_isRoomActive = a,
                                        g_starter = st, g_joiners = []\<rparr>),
               generatorCalls := generatorCalls s @ [(nextGeneration s, channelId)],
               minutesGenerationInFlight :=
                 (minutesGenerationInFlight s)(channelId \<mapsto> nextGeneration s),
               nextGeneration := Suc (nextGeneration s)\<rparr>)"
    (is "registryConsistent ?s'")
proof (rule registryConsistentI)
  fix ch g
  assume a: "minutesGenerationInFlight ?s' ch = Some g"
  show "\<exists>gen. generations ?s' g = Some gen \<and> g_channelId gen = ch"
  proof (cases "ch = channelId")
    case True
    with a show ?thesis by simp
  next
    case False
    with a have r: "minutesGenerationInFlight s ch = Some g" by simp
    with next_fresh(3) [OF c, of ch] have "g \<noteq> nextGeneration s" by auto
    with registered_unsettled [OF c r] show ?thesis by simp
  qed
next
  fix g gen
  assume a: "generations ?s' g = Some gen"
  show "minutesGenerationInFlight ?s' (g_channelId gen) = Some g"
  proof (cases "g = nextGeneration s")
    case True
    with a show ?thesis by auto
  next
    case False
    with a have r: "generations s g = Some gen" by simp
    from unsettled_registered [OF c r] n have "g_channelId gen \<noteq> channelId" by auto
    with unsettled_registered [OF c r] show ?thesis by simp
  qed
  show "(g, g_channelId gen) \<in> set (generatorCalls ?s')"
  proof (cases "g = nextGeneration s")
    case True
    with a show ?thesis by auto
  next
    case False
    with a have r: "generations s g = Some gen" by simp
    from unsettled_called [OF c r] show ?thesis by simp
  qed
next
  fix call
  assume "call \<in> set (generatorCalls ?s')"
  then show "fst call < nextGeneration ?s'"
    using called_below [OF c, of call] by (auto simp: less_Suc_eq)
next
  show "distinct (map fst (generatorCalls ?s'))"
    using calls_distinct [OF c] next_fresh(2) [OF c] by simp
qed

lemma registryConsistent_minutesRequest:
  assumes "registryConsistent s"
  shows "registryConsistent (minutesRequest config channelOf requestId req isRoomActive s)"
  using assms
  by (auto simp: minutesRequest_def Let_def registryConsistent_reply registryConsistent_join
        registryConsistent_start split: jvalue.splits option.splits)

lemma generationSettled_unfold:
  assumes c: "registryConsistent s" and g: "generations s g = Some gen"
  shows "minutesGenerationInFlight (generationSettled g outcome s)
           = (minutesGenerationInFlight s)(g_channelId gen := None)"
    and "generations (generationSettled g outcome s) = (generations s)(g := None)"
    and "generatorCalls (generationSettled g outcome s) = generatorCalls s"
    and "nextGeneration (generationSettled g outcome s) = nextGeneration s"
  using unsettled_registered [OF c g] g by (simp_all add: generationSettled_def Let_def)

lemma registryConsistent_generationSettled:
  assumes c: "registryConsistent s"
  shows "registryConsistent (generationSettled g outcome s)"
proof (cases "generations s g")
  case None
  with c show ?thesis by (simp add: generationSettled_def)
next
  case (Some gen)
  note u = generationSettled_unfold [OF c Some, of outcome]
  show ?thesis
  proof (rule registryConsistentI)
    fix ch g'
    assume "minutesGenerationInFlight (generationSettled g outcome s) ch = Some g'"
    then have n: "ch \<noteq> g_channelId gen" and r: "minutesGenerationInFlight s ch = Some g'"
      unfolding u by (auto split: if_splits)
    from registered_unsettled [OF c r] obtain gen' where
      g': "generations s g' = Some gen'" "g_channelId gen' = ch" by blast
    with n Some have "g' \<noteq> g" by auto
    with g' show "\<exists>gen'. generations (generationSettled g outcome s) g' = Some gen'
                     \<and> g_channelId gen' = ch"
      unfolding u by simp
  next
    fix g' gen'
    assume "generations (generationSettled g outcome s) g' = Some gen'"
    then have n: "g' \<noteq> g" and r: "generations s g' = Some gen'"
      unfolding u by (auto split: if_splits)
    from unsettled_registered [OF c r] unsettled_registered [OF c Some] n
    have "g_channelId gen' \<noteq> g_channelId gen" by auto
    with unsettled_registered [OF c r]
    show "minutesGenerationInFlight (generationSettled g outcome s) (g_channelId gen') = Some g'"
      unfolding u by simp
    from unsettled_called [OF c r]
    show "(g', g_channelId gen') \<in> set (generatorCalls (generationSettled g outcome s))"
      unfolding u .
  next
    fix call
    assume "call \<in> set (generatorCalls (generationSettled g outcome s))"
    then show "fst call < nextGeneration (generationSettled g outcome s)"
      unfolding u by (rule called_below [OF c])
  next
    show "distinct (map fst (generatorCalls (generationSettled g outcome s)))"
      unfolding u by (rule calls_distinct [OF c])
  qed
qed

lemma registryConsistent_fold:
  "registryConsistent s \<Longrightarrow> registryConsistent (fold (minutesStep config channelOf) history s)"
proof (induction history arbitrary: s)
  case Nil
  then show ?case by simp
next
  case (Cons ev history)
  have "registryConsistent (minutesStep config channelOf ev s)"
    using Cons.prems
    by (cases ev)
       (simp_all add: minutesStep_def registryConsistent_minutesRequest
          registryConsistent_generationSettled)
  from Cons.IH [OF this] show ?case by simp
qed

lemma registryConsistent_runMinutes: "registryConsistent (runMinutes config channelOf history)"
  unfolding runMinutes_def by (rule registryConsistent_fold [OF registryConsistent_initial])

text \<open>The two ways a request is handled: answered before the cache, or taken to the cache.\<close>

lemma minutesRequest_rejected:
  assumes "\<not> hasValidSecret req (sfuSecret config)
           \<or> (\<forall>roomId. jfield (nullish (body req) (JObj [])) ''roomId'' = JStr roomId \<longrightarrow> roomId = [])"
  shows "\<exists>response. minutesRequest config channelOf requestId req isRoomActive s
           = minutesReply requestId response s"
  using assms by (auto simp: minutesRequest_def Let_def split: jvalue.split)

lemma minutesRequest_accepted:
  assumes "hasValidSecret req (sfuSecret config)"
      and "jfield (nullish (body req) (JObj [])) ''roomId'' = JStr roomId" and "roomId \<noteq> []"
      and "ch = channelOf (withDefault (jfield (nullish (body req) (JObj [])) ''clientId'')
                             (JStr ''default'')) roomId"
  shows "minutesRequest config channelOf requestId req isRoomActive s
           = (case (if \<not> isRoomActive then cachedMinutes s ch else None) of
                Some cached \<Rightarrow> minutesReply requestId (PdfResponse roomId cached) s
              | None \<Rightarrow>
                  (case minutesGenerationInFlight s ch of
                     Some inFlight \<Rightarrow>
                       (case generations s inFlight of
                          None \<Rightarrow> s
                        | Some gen \<Rightarrow>
                            s\<lparr>generations := (generations s)
                                 (inFlight \<mapsto>
                                    gen\<lparr>g_joiners := g_joiners gen @ [(requestId, roomId)]\<rparr>)\<rparr>)
                   | None \<Rightarrow>
                       s\<lparr>generations := (generations s)
                            (nextGeneration s \<mapsto>
                               \<lparr>g_channelId = ch, g_isRoomActive = isRoomActive,
                                g_starter = (requestId, roomId), g_joiners = []\<rparr>),
                          generatorCalls := generatorCalls s @ [(nextGeneration s, ch)],
                          minutesGenerationInFlight :=
                            (minutesGenerationInFlight s)(ch \<mapsto> nextGeneration s),
                          nextGeneration := Suc (nextGeneration s)\<rparr>))"
  using assms by (simp add: minutesRequest_def Let_def split: option.split)

lemma reachesRegistry_rejected:
  assumes "\<not> hasValidSecret req (sfuSecret config)
           \<or> (\<forall>roomId. jfield (nullish (body req) (JObj [])) ''roomId'' = JStr roomId \<longrightarrow> roomId = [])"
  shows "\<not> reachesRegistry config channelOf channelId s req isRoomActive"
  using assms by (auto simp: reachesRegistry_def split: jvalue.split)

lemma reachesRegistry_accepted:
  assumes "hasValidSecret req (sfuSecret config)"
      and "jfield (nullish (body req) (JObj [])) ''roomId'' = JStr roomId" and "roomId \<noteq> []"
      and "ch = channelOf (withDefault (jfield (nullish (body req) (JObj [])) ''clientId'')
                             (JStr ''default'')) roomId"
  shows "reachesRegistry config channelOf channelId s req isRoomActive
           \<longleftrightarrow> ch = channelId \<and> (isRoomActive \<or> cachedMinutes s channelId = None)"
    and "roomIdOf req = roomId"
  using assms by (simp_all add: reachesRegistry_def roomIdOf_def)

text \<open>A request handled while a generation for the channel is in flight.\<close>

lemma minutesRequest_while_in_flight:
  assumes c: "registryConsistent s" and f: "minutesGenerationInFlight s channelId = Some g"
      and s'_def: "s' = minutesRequest config channelOf requestId req isRoomActive s"
  shows "callsFor channelId s' = callsFor channelId s
       \<and> minutesGenerationInFlight s' channelId = Some g
       \<and> cachedMinutes s' = cachedMinutes s
       \<and> awaiting g s'
           = awaiting g s
             @ (if reachesRegistry config channelOf channelId s req isRoomActive
                then [(requestId, roomIdOf req)] else [])"
proof -
  obtain gen where g: "generations s g = Some gen" "g_channelId gen = channelId"
    using registered_unsettled [OF c f] by blast
  have fresh: "nextGeneration s \<noteq> g"
    using next_fresh(1) [OF c] g by auto
  show ?thesis
  proof (cases "hasValidSecret req (sfuSecret config)
                \<and> (\<exists>roomId. jfield (nullish (body req) (JObj [])) ''roomId'' = JStr roomId
                             \<and> roomId \<noteq> [])")
    case False
    then have r: "\<not> hasValidSecret req (sfuSecret config)
           \<or> (\<forall>roomId. jfield (nullish (body req) (JObj [])) ''roomId'' = JStr roomId \<longrightarrow> roomId = [])"
      by blast
    from minutesRequest_rejected [OF r] obtain response where
      "s' = minutesReply requestId response s" unfolding s'_def by blast
    with f reachesRegistry_rejected [OF r] show ?thesis
      by (simp add: callsFor_def awaiting_def)
  next
    case True
    then obtain roomId where a: "hasValidSecret req (sfuSecret config)"
        "jfield (nullish (body req) (JObj [])) ''roomId'' = JStr roomId" "roomId \<noteq> []"
      by blast
    define ch where "ch = channelOf (withDefault (jfield (nullish (body req) (JObj [])) ''clientId'')
                             (JStr ''default'')) roomId"
    note e = minutesRequest_accepted [where channelOf = channelOf and requestId = requestId
                 and isRoomActive = isRoomActive and s = s, OF a ch_def, folded s'_def]
    note rr = reachesRegistry_accepted(1) [where channelOf = channelOf and channelId = channelId
                 and isRoomActive = isRoomActive and s = s, OF a ch_def]
      reachesRegistry_accepted(2) [where channelOf = channelOf, OF a ch_def]
    show ?thesis
    proof (cases "if \<not> isRoomActive then cachedMinutes s ch else None")
      case (Some cached)
      with e have "s' = minutesReply requestId (PdfResponse roomId cached) s" by simp
      with f rr Some show ?thesis
        by (auto simp: callsFor_def awaiting_def split: if_splits)
    next
      case None
      show ?thesis
      proof (cases "ch = channelId")
        case True
        with e None f g have
          "s' = s\<lparr>generations := (generations s)
                    (g \<mapsto> gen\<lparr>g_joiners := g_joiners gen @ [(requestId, roomId)]\<rparr>)\<rparr>"
          by simp
        with f g rr True None show ?thesis
          by (auto simp: callsFor_def awaiting_def split: if_splits)
      next
        case False
        show ?thesis
        proof (cases "minutesGenerationInFlight s ch")
          case None2: None
          with e None have
            "s' = s\<lparr>generations := (generations s)
                            (nextGeneration s \<mapsto>
                               \<lparr>g_channelId = ch, g_isRoomActive = isRoomActive,
                                g_starter = (requestId, roomId), g_joiners = []\<rparr>),
                          generatorCalls := generatorCalls s @ [(nextGeneration s, ch)],
                          minutesGenerationInFlight :=
                            (minutesGenerationInFlight s)(ch \<mapsto> nextGeneration s),
                          nextGeneration := Suc (nextGeneration s)\<rparr>"
            by simp
          with f g rr False fresh show ?thesis
            by (simp add: callsFor_def awaiting_def)
        next
          case (Some g2)
          from registered_unsettled [OF c Some] obtain gen2 where
            g2: "generations s g2 = Some gen2" "g_channelId gen2 = ch" by blast
          with g False have ne: "g2 \<noteq> g" by auto
          from e None Some g2 have
            "s' = s\<lparr>generations := (generations s)
                    (g2 \<mapsto> gen2\<lparr>g_joiners := g_joiners gen2 @ [(requestId, roomId)]\<rparr>)\<rparr>"
            by simp
          with f g rr False ne show ?thesis
            by (simp add: callsFor_def awaiting_def)
        qed
      qed
    qed
  qed
qed

lemma reachesRegistry_cache:
  assumes e: "cachedMinutes s' = cachedMinutes s"
  shows "reachesRegistry config channelOf channelId s' = reachesRegistry config channelOf channelId s"
proof -
  have "reachesRegistry config channelOf channelId s' req isRoomActive
          = reachesRegistry config channelOf channelId s req isRoomActive" for req isRoomActive
    unfolding reachesRegistry_def e by (rule refl)
  then show ?thesis by (simp add: fun_eq_iff)
qed

lemma joining_cache:
  assumes e: "cachedMinutes s' = cachedMinutes s"
  shows "joining config channelOf channelId s' posts = joining config channelOf channelId s posts"
  unfolding joining_def reachesRegistry_cache [OF e] by (rule refl)

lemma postAll_while_in_flight:
  assumes "registryConsistent s" and "minutesGenerationInFlight s channelId = Some g"
  shows "registryConsistent (postAll config channelOf posts s)
       \<and> callsFor channelId (postAll config channelOf posts s) = callsFor channelId s
       \<and> minutesGenerationInFlight (postAll config channelOf posts s) channelId = Some g
       \<and> cachedMinutes (postAll config channelOf posts s) = cachedMinutes s
       \<and> awaiting g (postAll config channelOf posts s)
           = awaiting g s @ joining config channelOf channelId s posts"
  using assms
proof (induction posts arbitrary: s)
  case Nil
  then show ?case by (simp add: postAll_def joining_def)
next
  case (Cons post posts)
  define s1 where "s1 = minutesRequest config channelOf (fst post) (fst (snd post)) (snd (snd post)) s"
  have c1: "registryConsistent s1"
    unfolding s1_def by (rule registryConsistent_minutesRequest [OF Cons.prems(1)])
  note one = minutesRequest_while_in_flight [OF Cons.prems s1_def]
  from one have f1: "minutesGenerationInFlight s1 channelId = Some g" by blast
  from one have k1: "cachedMinutes s1 = cachedMinutes s" by blast
  have p: "postAll config channelOf (post # posts) s = postAll config channelOf posts s1"
    by (simp add: postAll_def s1_def)
  have j: "joining config channelOf channelId s (post # posts)
             = (if reachesRegistry config channelOf channelId s (fst (snd post)) (snd (snd post))
                then [(fst post, roomIdOf (fst (snd post)))] else [])
               @ joining config channelOf channelId s1 posts"
    unfolding joining_cache [OF k1] by (simp add: joining_def)
  from Cons.IH [OF c1 f1] one show ?case
    unfolding p j by simp
qed

lemma generationSettled_resolved:
  "sent (generationSettled g (Some pdf) s)
     = sent s @ map (\<lambda>request. (fst request, PdfResponse (snd request) pdf)) (awaiting g s)"
  by (simp add: generationSettled_def awaiting_def Let_def split: option.split)

lemma generationSettled_unregisters:
  assumes c: "registryConsistent s" and f: "minutesGenerationInFlight s channelId = Some g"
  shows "minutesGenerationInFlight (generationSettled g outcome s) channelId = None"
proof -
  obtain gen where g: "generations s g = Some gen" "g_channelId gen = channelId"
    using registered_unsettled [OF c f] by blast
  show ?thesis
    unfolding generationSettled_unfold(1) [OF c g(1)] using g(2) by simp
qed

lemma filter_fst_distinct:
  "distinct (map fst xs) \<Longrightarrow> (a, b) \<in> set xs \<Longrightarrow> filter (\<lambda>x. fst x = a) xs = [(a, b)]"
proof (induction xs)
  case Nil
  then show ?case by simp
next
  case (Cons x xs)
  show ?case
  proof (cases "x = (a, b)")
    case True
    with Cons.prems(1) have "a \<notin> fst ` set xs" by simp
    then have "filter (\<lambda>x. fst x = a) xs = []" by (auto simp: filter_empty_conv)
    with True show ?thesis by simp
  next
    case False
    with Cons.prems have m: "(a, b) \<in> set xs" and "fst x \<notin> fst ` set xs" by auto
    then have "fst x \<noteq> a" by (metis fst_conv imageI)
    with Cons.IH m Cons.prems(1) show ?thesis by simp
  qed
qed

lemma in_flight_called_once:
  assumes c: "registryConsistent s" and f: "minutesGenerationInFlight s channelId = Some g"
  shows "filter (\<lambda>call. fst call = g) (generatorCalls s) = [(g, channelId)]"
proof -
  obtain gen where g: "generations s g = Some gen" "g_channelId gen = channelId"
    using registered_unsettled [OF c f] by blast
  from unsettled_called [OF c g(1)] g(2) calls_distinct [OF c] show ?thesis
    by (simp add: filter_fst_distinct)
qed

text \<open>
  Claim C4. In every state the server reaches, while a generation is registered for a channel:
  the requests handled before it settles invoke the generator for that channel no further
  time, and the registered promise was created by exactly one invocation; the promise stays
  registered, and the requests that get as far as the registry await it, after the request that
  started it. When it resolves, everyone awaiting it is sent the same PDF bytes; when it settles,
  resolved or rejected, the registry entry of the channel is removed.
\<close>

theorem minutes_single_flight:
  assumes "s = runMinutes config channelOf history"
      and "minutesGenerationInFlight s channelId = Some g"
      and "s' = postAll config channelOf posts s"
  shows "callsFor channelId s' = callsFor channelId s
       \<and> filter (\<lambda>call. fst call = g) (generatorCalls s') = [(g, channelId)]
       \<and> minutesGenerationInFlight s' channelId = Some g
       \<and> awaiting g s' = awaiting g s @ joining config channelOf channelId s posts
       \<and> (\<forall>pdf. sent (generationSettled g (Some pdf) s')
                   = sent s' @ map (\<lambda>request. (fst request, PdfResponse (snd request) pdf))
                                 (awaiting g s'))
       \<and> (\<forall>outcome. minutesGenerationInFlight (generationSettled g outcome s') channelId = None)"
proof -
  have c: "registryConsistent s"
    unfolding assms(1) by (rule registryConsistent_runMinutes)
  note p = postAll_while_in_flight [OF c assms(2), of config channelOf posts, folded assms(3)]
  from p have c': "registryConsistent s'" and f': "minutesGenerationInFlight s' channelId = Some g"
    by blast+
  from p in_flight_called_once [OF c' f'] generationSettled_unregisters [OF c' f']
  show ?thesis
    by (simp add: generationSettled_resolved)
qed

lemmas minutes_defs =
  runMinutes_def postAll_def minutesStep_def minutesRequest_def generationSettled_def
  initialMinutes_def minutesReply_def withDefault_def nullish_def hasValidSecret_def
  minutesPost_def scenarioRequest_def scenarioConfig_def scenarioChannelOf_def
  getRoomChannelId_def Let_def

theorem minutes_single_flight_witness:
  "minutesGenerationInFlight minutesStarted ''default:r1'' = Some 0
   \<and> callsFor ''default:r1'' minutesJoined = [(0, ''default:r1'')]
   \<and> filter (\<lambda>call. fst call = 0) (generatorCalls minutesJoined) = [(0, ''default:r1'')]
   \<and> minutesGenerationInFlight minutesJoined ''default:r1'' = Some 0
   \<and> awaiting 0 minutesJoined = [(1, ''r1''), (2, ''r1''), (3, ''r1'')]
   \<and> sent (generationSettled 0 (Some ''%PDF-1.3'') minutesJoined)
       = [(1, PdfResponse ''r1'' ''%PDF-1.3''), (2, PdfResponse ''r1'' ''%PDF-1.3''),
          (3, PdfResponse ''r1'' ''%PDF-1.3'')]
   \<and> minutesGenerationInFlight (generationSettled 0 (Some ''%PDF-1.3'') minutesJoined)
         ''default:r1'' = None
   \<and> minutesGenerationInFlight (generationSettled 0 None minutesJoined) ''default:r1'' = None
   \<and> sent (minutesRequest scenarioConfig scenarioChannelOf 4 minutesPost False
               (generationSettled 0 (Some ''%PDF-1.3'') minutesJoined))
       = [(1, PdfResponse ''r1'' ''%PDF-1.3''), (2, PdfResponse ''r1'' ''%PDF-1.3''),
          (3, PdfResponse ''r1'' ''%PDF-1.3''), (4, PdfResponse ''r1'' ''%PDF-1.3'')]
   \<and> generatorCalls (minutesRequest scenarioConfig scenarioChannelOf 4 minutesPost False
                         (generationSettled 0 (Some ''%PDF-1.3'') minutesJoined))
       = [(0, ''default:r1'')]"
proof -
  have s: "minutesGenerationInFlight minutesStarted = [''default:r1'' \<mapsto> 0]"
          "cachedMinutes minutesStarted = Map.empty"
          "generations minutesStarted
             = [0 \<mapsto> \<lparr>g_channelId = ''default:r1'', g_isRoomActive = False,
                        g_starter = (1, ''r1''), g_joiners = []\<rparr>]"
          "generatorCalls minutesStarted = [(0, ''default:r1'')]"
          "sent minutesStarted = []"
    unfolding minutesStarted_def by (simp_all add: minutes_defs)
  have f: "minutesGenerationInFlight minutesStarted ''default:r1'' = Some 0"
    by (simp add: s)
  have a: "awaiting 0 minutesStarted = [(1, ''r1'')]" "callsFor ''default:r1'' minutesStarted = [(0, ''default:r1'')]"
    by (simp_all add: awaiting_def callsFor_def s)
  have j: "joining scenarioConfig scenarioChannelOf ''default:r1'' minutesStarted
             [(2, minutesPost, False), (3, minutesPost, False)] = [(2, ''r1''), (3, ''r1'')]"
    by (simp add: joining_def reachesRegistry_def roomIdOf_def withDefault_def nullish_def
          hasValidSecret_def minutesPost_def scenarioRequest_def scenarioConfig_def
          scenarioChannelOf_def getRoomChannelId_def s)
  have j1: "minutesJoined
              = minutesStarted\<lparr>generations :=
                  [0 \<mapsto> \<lparr>g_channelId = ''default:r1'', g_isRoomActive = False,
                           g_starter = (1, ''r1''), g_joiners = [(2, ''r1''), (3, ''r1'')]\<rparr>]\<rparr>"
    unfolding minutesJoined_def
    by (simp add: postAll_def minutesRequest_def withDefault_def nullish_def hasValidSecret_def
          minutesPost_def scenarioRequest_def scenarioConfig_def scenarioChannelOf_def
          getRoomChannelId_def Let_def s)
  have n: "sent minutesJoined = []"
    by (simp add: j1 s)
  note t = minutes_single_flight [OF minutesStarted_def f minutesJoined_def]
  from t a j n have
    r: "callsFor ''default:r1'' minutesJoined = [(0, ''default:r1'')]"
       "filter (\<lambda>call. fst call = 0) (generatorCalls minutesJoined) = [(0, ''default:r1'')]"
       "minutesGenerationInFlight minutesJoined ''default:r1'' = Some 0"
       "awaiting 0 minutesJoined = [(1, ''r1''), (2, ''r1''), (3, ''r1'')]"
       "sent (generationSettled 0 (Some ''%PDF-1.3'') minutesJoined)
          = [(1, PdfResponse ''r1'' ''%PDF-1.3''), (2, PdfResponse ''r1'' ''%PDF-1.3''),
             (3, PdfResponse ''r1'' ''%PDF-1.3'')]"
       "minutesGenerationInFlight (generationSettled 0 (Some ''%PDF-1.3'') minutesJoined)
          ''default:r1'' = None"
       "minutesGenerationInFlight (generationSettled 0 None minutesJoined) ''default:r1'' = None"
    by simp_all
  have later: "generationSettled 0 (Some ''%PDF-1.3'') minutesJoined
      = minutesStarted\<lparr>cachedMinutes := [''default:r1'' \<mapsto> ''%PDF-1.3''],
           minutesGenerationInFlight := Map.empty, generations := Map.empty,
           sent := [(1, PdfResponse ''r1'' ''%PDF-1.3''), (2, PdfResponse ''r1'' ''%PDF-1.3''),
                    (3, PdfResponse ''r1'' ''%PDF-1.3'')]\<rparr>"
    by (simp add: j1 generationSettled_def Let_def s)
  have third:
    "sent (minutesRequest scenarioConfig scenarioChannelOf 4 minutesPost False
               (generationSettled 0 (Some ''%PDF-1.3'') minutesJoined))
       = [(1, PdfResponse ''r1'' ''%PDF-1.3''), (2, PdfResponse ''r1'' ''%PDF-1.3''),
          (3, PdfResponse ''r1'' ''%PDF-1.3''), (4, PdfResponse ''r1'' ''%PDF-1.3'')]"
    "generatorCalls (minutesRequest scenarioConfig scenarioChannelOf 4 minutesPost False
                         (generationSettled 0 (Some ''%PDF-1.3'') minutesJoined))
       = [(0, ''default:r1'')]"
    unfolding later
    by (simp_all add: minutesRequest_def minutesReply_def withDefault_def nullish_def hasValidSecret_def
          minutesPost_def scenarioRequest_def scenarioConfig_def scenarioChannelOf_def
          getRoomChannelId_def Let_def s)
  from f r third show ?thesis by blast
qed

end
